(* ===== verification/Prelude.thy ===== *)
theory Prelude
  imports Main "HOL-Library.Word"
begin

text \<open>
  Shared vocabulary of the development: the machine integer types, results, the
  saturating arithmetic of \<open>u64\<close>, the world a sequential piece of the program runs in
  (a monotonic clock in milliseconds and an environment owned by the outside), and the
  resource-pool interface that the permits and tickets of the program implement, and what a
  simulation of one system by another carries over.
\<close>

section \<open>Types and results\<close>

type_synonym bytes = string
type_synonym u8 = "8 word"
type_synonym u16 = "16 word"
type_synonym u64 = "64 word"

type_synonym ('e, 'a) res = "'e + 'a"

abbreviation Ok :: "'a \<Rightarrow> ('e, 'a) res" where "Ok \<equiv> Inr"
abbreviation Err :: "'e \<Rightarrow> ('e, 'a) res" where "Err \<equiv> Inl"

definition is_ok :: "('e, 'a) res \<Rightarrow> bool" where
  "is_ok r = (case r of Inl _ \<Rightarrow> False | Inr _ \<Rightarrow> True)"

definition unwrap_or :: "'a \<Rightarrow> 'a option \<Rightarrow> 'a" where
  "unwrap_or d x = (case x of None \<Rightarrow> d | Some v \<Rightarrow> v)"

definition opt_filter :: "('a \<Rightarrow> bool) \<Rightarrow> 'a option \<Rightarrow> 'a option" where
  "opt_filter P x = (case x of None \<Rightarrow> None | Some v \<Rightarrow> if P v then Some v else None)"

definition result_ok :: "('e, 'a) res \<Rightarrow> 'a option" where
  "result_ok r = (case r of Inl _ \<Rightarrow> None | Inr v \<Rightarrow> Some v)"

lemma is_ok_simps [simp]: "is_ok (Inr v)" "\<not> is_ok (Inl e)"
  by (simp_all add: is_ok_def)

lemma unwrap_or_simps [simp]: "unwrap_or d None = d" "unwrap_or d (Some v) = v"
  by (simp_all add: unwrap_or_def)

lemma opt_filter_simps [simp]:
  "opt_filter P None = None"
  "opt_filter P (Some v) = (if P v then Some v else None)"
  by (simp_all add: opt_filter_def)

lemma opt_filter_Some_iff: "opt_filter P x = Some v \<longleftrightarrow> x = Some v \<and> P v"
  by (cases x) auto

lemma result_ok_simps [simp]: "result_ok (Inl e) = None" "result_ok (Inr v) = Some v"
  by (simp_all add: result_ok_def)

section \<open>Saturating arithmetic\<close>

definition sat_add :: "u64 \<Rightarrow> u64 \<Rightarrow> u64" where
  "sat_add a b = (if unat a + unat b < 2 ^ 64 then a + b else - 1)"

definition sat_sub :: "u64 \<Rightarrow> u64 \<Rightarrow> u64" where
  "sat_sub a b = (if b \<le> a then a - b else 0)"

definition clamp_u64 :: "u64 \<Rightarrow> u64 \<Rightarrow> u64 \<Rightarrow> u64" where
  "clamp_u64 x lo hi = (if x < lo then lo else if hi < x then hi else x)"

lemma unat_minus_one_u64: "unat (- 1 :: u64) = 2 ^ 64 - 1"
  by (simp add: unsigned_minus_1_eq_mask mask_eq_exp_minus_1)

lemma unat_sat_add: "unat (sat_add a b) = min (unat a + unat b) (2 ^ 64 - 1)"
  by (simp add: sat_add_def unat_minus_one_u64 unat_word_ariths)

lemma unat_sat_sub: "unat (sat_sub a b) = unat a - unat b"
  by (auto simp: sat_sub_def unat_sub_if' word_le_nat_alt)

lemma clamp_u64_bounds: "lo \<le> hi \<Longrightarrow> lo \<le> clamp_u64 x lo hi \<and> clamp_u64 x lo hi \<le> hi"
  by (auto simp: clamp_u64_def not_less)

section \<open>The world of a sequential piece of code\<close>

text \<open>
  A call to something outside the program (a process, a socket, the remote host) is a
  function of the environment that gives a result, the milliseconds it took and the new
  environment; \<open>call\<close> runs it and moves the monotonic clock (\<open>Instant\<close>) on.
\<close>

record 'e world =
  clock :: nat
  env :: 'e

type_synonym ('e, 'r) ext_call = "'e \<Rightarrow> 'r \<times> nat \<times> 'e"

definition call :: "('e, 'r) ext_call \<Rightarrow> 'e world \<Rightarrow> 'r \<times> 'e world" where
  "call f w = (case f (env w) of (r, d, e) \<Rightarrow> (r, \<lparr>clock = clock w + d, env = e\<rparr>))"

definition sleep_ms :: "nat \<Rightarrow> 'e world \<Rightarrow> 'e world" where
  "sleep_ms d w = w\<lparr>clock := clock w + d\<rparr>"

text \<open>
  The other way round: a piece of sequential code seen as one call; and a call that
  \<open>tokio::time::timeout\<close> gives up after \<open>ms\<close> milliseconds (\<open>None\<close>).
\<close>

definition as_call :: "('e world \<Rightarrow> 'r \<times> 'e world) \<Rightarrow> ('e, 'r) ext_call" where
  "as_call f e = (case f \<lparr>clock = 0, env = e\<rparr> of (r, w) \<Rightarrow> (r, clock w, env w))"

definition with_timeout :: "nat \<Rightarrow> ('e, 'r) ext_call \<Rightarrow> ('e, 'r option) ext_call" where
  "with_timeout ms f e = (case f e of (r, d, e') \<Rightarrow>
     if d \<le> ms then (Some r, d, e') else (None, ms, e'))"

text \<open>
  For test doubles and tests: a call that answers at once, \<open>unwrap\<close> of an assertion's subject,
  and a suite of tests that passes.
\<close>

definition at_once :: "'r \<Rightarrow> ('e, 'r) ext_call" where
  "at_once r e = (r, 0, e)"

definition unwrapped :: "'a option \<Rightarrow> ('a \<Rightarrow> bool) \<Rightarrow> bool" where
  "unwrapped v P = (case v of None \<Rightarrow> False | Some x \<Rightarrow> P x)"

definition all_pass :: "bool list \<Rightarrow> bool" where
  "all_pass tests = list_all (\<lambda>passed. passed) tests"

lemma unwrapped_Some [simp]: "unwrapped (Some x) P = P x"
  by (simp add: unwrapped_def)

lemma all_pass_simps [simp]:
  "all_pass []" "all_pass (t # ts) \<longleftrightarrow> t \<and> all_pass ts"
  "all_pass (ts @ us) \<longleftrightarrow> all_pass ts \<and> all_pass us"
  by (simp_all add: all_pass_def)

lemma call_at_once [simp]: "call (at_once r) w = (r, w)"
  by (cases w) (simp add: call_def at_once_def)

lemma clock_call: "call f w = (r, w') \<Longrightarrow> clock w \<le> clock w'"
  by (auto simp: call_def split: prod.splits)

lemma clock_sleep_ms [simp]: "clock (sleep_ms d w) = clock w + d"
  by (simp add: sleep_ms_def)

section \<open>Bounded resource pools\<close>

text \<open>
  The interface shared by the permits and the queue tickets of the program: \<open>take\<close> hands
  out one unit or fails, \<open>give\<close> returns one, and never more than \<open>cap\<close> units are out.
\<close>

locale bounded_pool =
  fixes cap :: nat
    and used :: "'s \<Rightarrow> nat"
    and acquire :: "'s \<Rightarrow> 's option"
    and give :: "'s \<Rightarrow> 's"
  assumes take_Some: "acquire s = Some s' \<Longrightarrow> used s < cap \<and> used s' = Suc (used s)"
    and take_None: "acquire s = None \<Longrightarrow> cap \<le> used s"
    and give_used: "used (give s) = used s - 1"
begin

lemma take_iff: "(\<exists>s'. acquire s = Some s') \<longleftrightarrow> used s < cap"
proof (cases "acquire s")
  case None
  with take_None [of s] show ?thesis by simp
next
  case (Some t)
  with take_Some [of s t] show ?thesis by simp
qed

lemma step_bound: "used s \<le> cap \<Longrightarrow>
    used (if b then (case acquire s of None \<Rightarrow> s | Some s' \<Rightarrow> s') else give s) \<le> cap"
  using take_Some give_used by (fastforce split: option.splits)

text \<open>A client's history of takes (\<open>True\<close>) and gives (\<open>False\<close>); a refused take changes nothing.\<close>

lemma run_bound: "used s \<le> cap \<Longrightarrow>
    used (fold (\<lambda>b s. if b then (case acquire s of None \<Rightarrow> s | Some s' \<Rightarrow> s') else give s) bs s) \<le> cap"
proof (induction bs arbitrary: s)
  case Nil
  then show ?case by simp
next
  case (Cons b bs)
  show ?case
    unfolding fold_simps by (rule Cons.IH) (rule step_bound [OF Cons.prems])
qed

lemma give_after_take: "acquire s = Some s' \<Longrightarrow> used (give s') = used s"
  using take_Some give_used by simp

end

section \<open>Simulations\<close>

text \<open>
  A system seen through \<open>view\<close> behaves like a second one: it starts in one of its initial states
  and every step is one of its steps or is not seen. What holds of all runs of the second one
  then holds of what is seen of the first.
\<close>

locale simulation =
  fixes start :: "'s \<Rightarrow> bool" and step :: "'s \<Rightarrow> 's \<Rightarrow> bool"
    and view :: "'s \<Rightarrow> 'a" and astart :: "'a \<Rightarrow> bool" and astep :: "'a \<Rightarrow> 'a \<Rightarrow> bool"
  assumes start_view: "start s \<Longrightarrow> astart (view s)"
    and step_view: "step s s' \<Longrightarrow> view s' = view s \<or> astep (view s) (view s')"
begin

lemma run_view: "step\<^sup>*\<^sup>* s s' \<Longrightarrow> astep\<^sup>*\<^sup>* (view s) (view s')"
  by (induction rule: rtranclp_induct) (auto dest!: step_view intro: rtranclp.rtrancl_into_rtrancl)

lemma reachable_view:
  assumes "start s" "step\<^sup>*\<^sup>* s s'"
  shows "\<exists>a. astart a \<and> astep\<^sup>*\<^sup>* a (view s')"
  using start_view [OF assms(1)] run_view [OF assms(2)] by blast

lemma invariant_view:
  assumes "start s" "step\<^sup>*\<^sup>* s s'"
    and "\<And>a. astart a \<Longrightarrow> I a" and "\<And>a b. astep a b \<Longrightarrow> I a \<Longrightarrow> I b"
  shows "I (view s')"
proof -
  have "I (view s)" using assms(1,3) start_view by blast
  with run_view [OF assms(2)] show ?thesis
    by (induction rule: rtranclp_induct) (use assms(4) in blast)+
qed

end

end
