(* ===== verification/Rust_Text.thy ===== *)
theory Rust_Text
  imports Prelude
begin

text \<open>
  The functions of Rust's standard \<open>str\<close> and integer parsing that the program calls,
  on strings as lists of UTF-8 bytes: searching, splitting, joining, stripping, line
  iteration, unsigned parsing and decimal printing, with the facts shared by the
  components that use them.
\<close>

section \<open>Searching\<close>

primrec starts_with :: "string \<Rightarrow> string \<Rightarrow> bool" where
  "starts_with s [] = True"
| "starts_with s (p # ps) = (case s of [] \<Rightarrow> False | c # cs \<Rightarrow> c = p \<and> starts_with cs ps)"

primrec contains_str :: "string \<Rightarrow> string \<Rightarrow> bool" where
  "contains_str [] n = (n = [])"
| "contains_str (c # cs) n = (starts_with (c # cs) n \<or> contains_str cs n)"

primrec find_str :: "string \<Rightarrow> string \<Rightarrow> nat option" where
  "find_str [] n = (if n = [] then Some 0 else None)"
| "find_str (c # cs) n =
     (if starts_with (c # cs) n then Some 0 else map_option Suc (find_str cs n))"

primrec find_char :: "string \<Rightarrow> char \<Rightarrow> nat option" where
  "find_char [] x = None"
| "find_char (c # cs) x = (if c = x then Some 0 else map_option Suc (find_char cs x))"

lemma starts_with_iff: "starts_with s p \<longleftrightarrow> (\<exists>t. s = p @ t)"
  by (induction p arbitrary: s) (auto split: list.splits simp: neq_Nil_conv)

lemma contains_str_iff: "contains_str s n \<longleftrightarrow> (\<exists>a b. s = a @ n @ b)"
proof (induction s)
  case Nil
  then show ?case by auto
next
  case (Cons c cs)
  show ?case
  proof
    assume "contains_str (c # cs) n"
    then consider "starts_with (c # cs) n" | "contains_str cs n" by auto
    then show "\<exists>a b. c # cs = a @ n @ b"
    proof cases
      case 1
      then show ?thesis by (metis append_Nil starts_with_iff)
    next
      case 2
      then show ?thesis using Cons.IH by (metis append_Cons)
    qed
  next
    assume "\<exists>a b. c # cs = a @ n @ b"
    then obtain a b where eq: "c # cs = a @ n @ b" by blast
    show "contains_str (c # cs) n"
    proof (cases a)
      case Nil
      with eq have "starts_with (c # cs) n" unfolding starts_with_iff by simp
      then show ?thesis by simp
    next
      case (Cons x xs)
      with eq have "cs = xs @ n @ b" by simp
      with \<open>contains_str cs n = (\<exists>a b. cs = a @ n @ b)\<close> show ?thesis by auto
    qed
  qed
qed

lemma contains_str_empty [simp]: "contains_str s []"
  by (induction s) auto

lemma contains_str_self [simp]: "contains_str s s"
  unfolding contains_str_iff by (metis append_Nil append_Nil2)

lemma find_str_None: "find_str s n = None \<longleftrightarrow> \<not> contains_str s n"
  by (induction s) auto

lemma find_str_Some: "find_str s n = Some i \<Longrightarrow> \<exists>b. s = take i s @ n @ b \<and> i \<le> length s"
proof (induction s arbitrary: i)
  case Nil
  then show ?case by (auto split: if_splits)
next
  case (Cons c cs)
  show ?case
  proof (cases "starts_with (c # cs) n")
    case True
    with Cons.prems have "i = 0" by simp
    with True show ?thesis by (auto simp: starts_with_iff)
  next
    case False
    with Cons.prems obtain j where j: "find_str cs n = Some j" "i = Suc j"
      by auto
    then show ?thesis using Cons.IH [OF j(1)] by auto
  qed
qed

lemma find_char_None: "find_char s x = None \<longleftrightarrow> x \<notin> set s"
  by (induction s) auto

lemma find_char_Some: "find_char s x = Some i \<Longrightarrow>
    i < length s \<and> s ! i = x \<and> x \<notin> set (take i s)"
  by (induction s arbitrary: i) (auto split: if_splits)

lemma find_char_append: "x \<notin> set a \<Longrightarrow> find_char (a @ x # b) x = Some (length a)"
  by (induction a) auto

section \<open>Splitting, joining, stripping\<close>

primrec split_char :: "char \<Rightarrow> string \<Rightarrow> string list" where
  "split_char d [] = [[]]"
| "split_char d (c # cs) =
     (if c = d then [] # split_char d cs
      else (case split_char d cs of [] \<Rightarrow> [[c]] | p # ps \<Rightarrow> (c # p) # ps))"

fun join_with :: "string \<Rightarrow> string list \<Rightarrow> string" where
  "join_with sep [] = []"
| "join_with sep [p] = p"
| "join_with sep (p # q # ps) = p @ sep @ join_with sep (q # ps)"

definition strip_prefix :: "string \<Rightarrow> string \<Rightarrow> string option" where
  "strip_prefix s p = (if starts_with s p then Some (drop (length p) s) else None)"

definition strip_suffix_char :: "string \<Rightarrow> char \<Rightarrow> string option" where
  "strip_suffix_char s c = (if s \<noteq> [] \<and> last s = c then Some (butlast s) else None)"

definition split_once :: "string \<Rightarrow> char \<Rightarrow> (string \<times> string) option" where
  "split_once s c = (case find_char s c of None \<Rightarrow> None
     | Some i \<Rightarrow> Some (take i s, drop (Suc i) s))"

lemma split_char_not_Nil [simp]: "split_char d s \<noteq> []"
  by (induction s) (auto split: list.splits)

lemma join_with_Cons: "ps \<noteq> [] \<Longrightarrow> join_with sep (p # ps) = p @ sep @ join_with sep ps"
  by (cases ps) auto

lemma join_with_head_Cons: "join_with sep ((c # p) # ps) = c # join_with sep (p # ps)"
  by (cases ps) auto

lemma join_split: "join_with [d] (split_char d s) = s"
proof (induction s)
  case Nil
  then show ?case by simp
next
  case (Cons c cs)
  obtain p ps where ps: "split_char d cs = p # ps"
    by (cases "split_char d cs") auto
  show ?case
    using Cons.IH ps by (auto simp: join_with_Cons join_with_head_Cons)
qed

lemma split_char_no_sep: "d \<notin> set s \<Longrightarrow> split_char d s = [s]"
  by (induction s) auto

lemma split_char_append: "d \<notin> set a \<Longrightarrow> split_char d (a @ d # b) = a # split_char d b"
  by (induction a) auto

lemma split_join: "ps \<noteq> [] \<Longrightarrow> \<forall>p \<in> set ps. d \<notin> set p \<Longrightarrow> split_char d (join_with [d] ps) = ps"
  by (induction "[d]" ps rule: join_with.induct) (auto simp: split_char_no_sep split_char_append)

lemma split_char_parts: "p \<in> set (split_char d s) \<Longrightarrow> d \<notin> set p"
  by (induction s arbitrary: p) (fastforce split: list.splits if_splits)+

lemma strip_prefix_append [simp]: "strip_prefix (p @ s) p = Some s"
  by (simp add: strip_prefix_def starts_with_iff)

lemma strip_prefix_Some: "strip_prefix s p = Some t \<longleftrightarrow> s = p @ t"
  by (auto simp: strip_prefix_def starts_with_iff)

lemma strip_suffix_char_Some: "strip_suffix_char s c = Some t \<longleftrightarrow> s = t @ [c]"
proof
  assume "strip_suffix_char s c = Some t"
  then have "s \<noteq> []" "last s = c" "t = butlast s"
    by (auto simp: strip_suffix_char_def split: if_splits)
  then show "s = t @ [c]" using append_butlast_last_id [of s] by simp
next
  assume "s = t @ [c]"
  then show "strip_suffix_char s c = Some t" by (simp add: strip_suffix_char_def)
qed

lemma split_once_append: "c \<notin> set a \<Longrightarrow> split_once (a @ c # b) c = Some (a, b)"
  by (simp add: split_once_def find_char_append)

lemma split_once_None: "split_once s c = None \<longleftrightarrow> c \<notin> set s"
  by (simp add: split_once_def find_char_None split: option.splits) (metis find_char_None not_None_eq)

text \<open>
  \<open>str::lines\<close>: the pieces between line feeds, each without the carriage return that
  precedes its line feed; a last piece that is empty is no line, and a carriage return at
  the very end of the text stays.
\<close>

definition strip_cr :: "string \<Rightarrow> string" where
  "strip_cr s = (case strip_suffix_char s (CHR 0x0D) of None \<Rightarrow> s | Some t \<Rightarrow> t)"

definition rust_lines :: "string \<Rightarrow> string list" where
  "rust_lines s = (let ps = split_char (CHR 0x0A) s; l = last ps
     in map strip_cr (butlast ps) @ (if l = [] then [] else [l]))"

section \<open>Unsigned integers\<close>

definition digit_val :: "nat \<Rightarrow> char \<Rightarrow> nat option" where
  "digit_val radix c = (let n = of_char c :: nat;
       v = (if 48 \<le> n \<and> n \<le> 57 then Some (n - 48)
            else if 97 \<le> n \<and> n \<le> 122 then Some (n - 87)
            else if 65 \<le> n \<and> n \<le> 90 then Some (n - 55)
            else None)
     in opt_filter (\<lambda>d. d < radix) v)"

fun digits_val :: "nat \<Rightarrow> nat \<Rightarrow> nat \<Rightarrow> string \<Rightarrow> nat option" where
  "digits_val radix mx acc [] = Some acc"
| "digits_val radix mx acc (c # cs) =
     (case digit_val radix c of None \<Rightarrow> None
      | Some d \<Rightarrow> if radix * acc + d \<le> mx then digits_val radix mx (radix * acc + d) cs else None)"

text \<open>
  \<open>from_str_radix\<close> and \<open>parse\<close> on an unsigned type with maximum \<open>mx\<close>: one leading
  \<open>+\<close> is accepted, no digits or a lone \<open>+\<close> are errors, as are other characters and overflow.
\<close>

definition parse_unsigned :: "nat \<Rightarrow> nat \<Rightarrow> string \<Rightarrow> nat option" where
  "parse_unsigned radix mx s = (case s of [] \<Rightarrow> None
     | c # cs \<Rightarrow> if c = CHR ''+'' then (if cs = [] then None else digits_val radix mx 0 cs)
                else digits_val radix mx 0 s)"

definition max_u8 :: nat where "max_u8 = 255"
definition max_u16 :: nat where "max_u16 = 65535"
definition max_u64 :: nat where "max_u64 = 18446744073709551615"

definition parse_u16 :: "string \<Rightarrow> u16 option" where
  "parse_u16 s = map_option of_nat (parse_unsigned 10 max_u16 s)"

definition parse_u64 :: "string \<Rightarrow> u64 option" where
  "parse_u64 s = map_option of_nat (parse_unsigned 10 max_u64 s)"

definition parse_usize :: "string \<Rightarrow> nat option" where
  "parse_usize s = parse_unsigned 10 max_u64 s"

definition digit_char :: "nat \<Rightarrow> char" where
  "digit_char d = char_of (if d < 10 then 48 + d else 87 + d)"

fun show_nat :: "nat \<Rightarrow> string" where
  "show_nat n = (if n < 10 then [digit_char n] else show_nat (n div 10) @ [digit_char (n mod 10)])"

declare show_nat.simps [simp del]

lemma digit_val_bound: "digit_val radix c = Some d \<Longrightarrow> d < radix"
  by (auto simp: digit_val_def Let_def opt_filter_Some_iff)

lemma digits_val_bound: "digits_val radix mx acc s = Some n \<Longrightarrow> acc \<le> mx \<Longrightarrow> n \<le> mx"
  by (induction radix mx acc s rule: digits_val.induct) (auto split: option.splits if_splits)

lemma parse_unsigned_bound: "parse_unsigned radix mx s = Some n \<Longrightarrow> n \<le> mx"
  by (auto simp: parse_unsigned_def simp del: digits_val.simps split: list.splits if_splits
      dest: digits_val_bound)

lemma of_char_digit_char: "d < 36 \<Longrightarrow> (of_char (digit_char d) :: nat) = (if d < 10 then 48 + d else 87 + d)"
  by (simp add: digit_char_def)

lemma digit_val_digit_char: "d < radix \<Longrightarrow> radix \<le> 36 \<Longrightarrow> digit_val radix (digit_char d) = Some d"
  by (auto simp: digit_val_def Let_def of_char_digit_char)

lemma digits_val_append:
  "digits_val radix mx acc (s @ t) =
     (case digits_val radix mx acc s of None \<Rightarrow> None | Some m \<Rightarrow> digits_val radix mx m t)"
  by (induction radix mx acc s rule: digits_val.induct) (auto split: option.splits)

lemma digits_val_show: "n \<le> mx \<Longrightarrow> digits_val 10 mx 0 (show_nat n) = Some n"
proof (induction n rule: show_nat.induct)
  case (1 n)
  show ?case
  proof (cases "n < 10")
    case True
    with "1.prems" show ?thesis by (simp add: show_nat.simps [of n] digit_val_digit_char)
  next
    case False
    have "n div 10 \<le> mx" using "1.prems" by (meson div_le_dividend order_trans)
    with False "1.IH" have "digits_val 10 mx 0 (show_nat (n div 10)) = Some (n div 10)" by simp
    with False "1.prems" show ?thesis
      by (simp add: show_nat.simps [of n] digits_val_append digit_val_digit_char)
  qed
qed

lemma digit_char_plus: "d < 10 \<Longrightarrow> digit_char d \<noteq> CHR ''+''"
proof
  assume "d < 10" and "digit_char d = CHR ''+''"
  then have "(of_char (digit_char d) :: nat) = of_char (CHR ''+'')" by simp
  with \<open>d < 10\<close> show False by (simp add: of_char_digit_char)
qed

lemma show_nat_not_Nil [simp]: "show_nat n \<noteq> []"
  by (simp add: show_nat.simps [of n])

lemma show_nat_no_plus: "c \<in> set (show_nat n) \<Longrightarrow> \<exists>d < 10. c = digit_char d"
proof (induction n rule: show_nat.induct)
  case (1 n)
  have "n mod 10 < 10" by simp
  with 1 show ?case
    by (cases "n < 10") (auto simp: show_nat.simps [of n] simp del: mod_less_divisor)
qed

lemma parse_show_nat: "n \<le> mx \<Longrightarrow> parse_unsigned 10 mx (show_nat n) = Some n"
proof -
  assume n: "n \<le> mx"
  obtain c cs where eq: "show_nat n = c # cs" by (cases "show_nat n") auto
  have "c \<noteq> CHR ''+''" using show_nat_no_plus [of c n] digit_char_plus eq by auto
  with eq digits_val_show [OF n] show ?thesis by (simp add: parse_unsigned_def)
qed

lemma parse_u64_show: "parse_u64 (show_nat (unat x)) = Some x"
proof -
  have "unat x \<le> max_u64" using unsigned_less [where w = x and 'a = nat] by (simp add: max_u64_def)
  then show ?thesis by (simp add: parse_u64_def parse_show_nat)
qed

end
