(* ===== verification/Utf8.thy ===== *)
theory Utf8
  imports Rust_Text
begin

text \<open>
  \<open>String::from_utf8_lossy\<close> of the standard library, which the streaming forwarder applies to
  every chunk it relays: well-formed UTF-8 is kept, every maximal ill-formed part is replaced
  by the three bytes of U+FFFD.
\<close>

definition byte :: "char \<Rightarrow> nat" where
  "byte c = of_char c"

definition cont :: "char \<Rightarrow> bool" where
  "cont c = (0x80 \<le> byte c \<and> byte c \<le> 0xBF)"

text \<open>Whether \<open>b\<close> may follow the lead byte \<open>a\<close> of a sequence of three or four bytes.\<close>

definition second3 :: "char \<Rightarrow> char \<Rightarrow> bool" where
  "second3 a b = (if byte a = 0xE0 then 0xA0 \<le> byte b \<and> byte b \<le> 0xBF
     else if byte a = 0xED then 0x80 \<le> byte b \<and> byte b \<le> 0x9F
     else cont b)"

definition second4 :: "char \<Rightarrow> char \<Rightarrow> bool" where
  "second4 a b = (if byte a = 0xF0 then 0x90 \<le> byte b \<and> byte b \<le> 0xBF
     else if byte a = 0xF4 then 0x80 \<le> byte b \<and> byte b \<le> 0x8F
     else cont b)"

text \<open>
  The first sequence of a non-empty text: \<open>(True, n)\<close> for a well-formed one of \<open>n\<close> bytes,
  \<open>(False, n)\<close> for an ill-formed part of \<open>n\<close> bytes.
\<close>

fun utf8_next :: "char \<Rightarrow> string \<Rightarrow> bool \<times> nat" where
  "utf8_next a s =
     (if byte a < 0x80 then (True, 1)
      else if 0xC2 \<le> byte a \<and> byte a \<le> 0xDF then
        (case s of b # _ \<Rightarrow> if cont b then (True, 2) else (False, 1) | [] \<Rightarrow> (False, 1))
      else if 0xE0 \<le> byte a \<and> byte a \<le> 0xEF then
        (case s of b # t \<Rightarrow>
             if \<not> second3 a b then (False, 1)
             else (case t of c # _ \<Rightarrow> if cont c then (True, 3) else (False, 2) | [] \<Rightarrow> (False, 2))
         | [] \<Rightarrow> (False, 1))
      else if 0xF0 \<le> byte a \<and> byte a \<le> 0xF4 then
        (case s of b # t \<Rightarrow>
             if \<not> second4 a b then (False, 1)
             else (case t of c # u \<Rightarrow>
                      if \<not> cont c then (False, 2)
                      else (case u of d # _ \<Rightarrow> if cont d then (True, 4) else (False, 3) | [] \<Rightarrow> (False, 3))
                   | [] \<Rightarrow> (False, 2))
         | [] \<Rightarrow> (False, 1))
      else (False, 1))"

declare utf8_next.simps [simp del]

definition replacement :: string where
  "replacement = [CHR 0xEF, CHR 0xBF, CHR 0xBD]"

lemma utf8_next_pos: "utf8_next a s = (ok, n) \<Longrightarrow> 0 < n"
  by (auto simp: utf8_next.simps [of a s] split: if_splits list.splits)

lemma utf8_next_length: "utf8_next a s = (ok, n) \<Longrightarrow> n \<le> Suc (length s)"
  by (auto simp: utf8_next.simps [of a s] split: if_splits list.splits)

function from_utf8_lossy :: "string \<Rightarrow> string" where
  "from_utf8_lossy [] = []"
| "from_utf8_lossy (a # s) =
     (case utf8_next a s of (ok, n) \<Rightarrow>
        (if ok then take n (a # s) else replacement) @ from_utf8_lossy (drop n (a # s)))"
  by pat_completeness auto
termination
  by (relation "measure length") (auto dest!: sym [THEN utf8_next_pos])

function valid_utf8 :: "string \<Rightarrow> bool" where
  "valid_utf8 [] = True"
| "valid_utf8 (a # s) = (case utf8_next a s of (ok, n) \<Rightarrow> ok \<and> valid_utf8 (drop n (a # s)))"
  by pat_completeness auto
termination
  by (relation "measure length") (auto dest!: sym [THEN utf8_next_pos])

lemma lossy_valid: "valid_utf8 s \<Longrightarrow> from_utf8_lossy s = s"
proof (induction s rule: from_utf8_lossy.induct)
  case (2 a s)
  obtain ok n where n: "utf8_next a s = (ok, n)" by (cases "utf8_next a s")
  with 2 show ?case by (simp add: append_take_drop_id)
qed simp

text \<open>A well-formed first sequence does not depend on what follows it.\<close>

lemma utf8_next_append:
  "utf8_next a s = (True, n) \<Longrightarrow> utf8_next a (s @ t) = (True, n)"
  by (cases s; cases "tl s"; cases "tl (tl s)")
    (auto simp: utf8_next.simps [of a] split: if_splits list.splits)

lemma lossy_append: "valid_utf8 s \<Longrightarrow> from_utf8_lossy (s @ t) = s @ from_utf8_lossy t"
proof (induction s rule: from_utf8_lossy.induct)
  case (2 a s)
  obtain ok n where n: "utf8_next a s = (ok, n)" by (cases "utf8_next a s")
  with "2.prems" have ok: "ok" "valid_utf8 (drop n (a # s))" by simp_all
  have len: "n \<le> length (a # s)" using utf8_next_length [OF n] by simp
  have "utf8_next a (s @ t) = (True, n)" using utf8_next_append n ok(1) by simp
  moreover have "take n (a # s @ t) = take n (a # s)"
    using len take_append [of n "a # s" t] by simp
  moreover have "drop n (a # s @ t) = drop n (a # s) @ t"
    using len drop_append [of n "a # s" t] by simp
  ultimately have "from_utf8_lossy ((a # s) @ t) = take n (a # s) @ from_utf8_lossy (drop n (a # s) @ t)"
    by simp
  also have "\<dots> = take n (a # s) @ drop n (a # s) @ from_utf8_lossy t"
    using "2.IH" [OF n [symmetric]] ok(2) by simp
  also have "\<dots> = (a # s) @ from_utf8_lossy t"
    by (metis append.assoc append_take_drop_id)
  finally show ?case .
qed simp

lemma valid_utf8_append: "valid_utf8 s \<Longrightarrow> valid_utf8 (s @ t) = valid_utf8 t"
proof (induction s rule: from_utf8_lossy.induct)
  case (2 a s)
  obtain ok n where n: "utf8_next a s = (ok, n)" by (cases "utf8_next a s")
  with "2.prems" have ok: "ok" "valid_utf8 (drop n (a # s))" by simp_all
  have len: "n \<le> length (a # s)" using utf8_next_length [OF n] by simp
  have nx: "utf8_next a (s @ t) = (True, n)" using utf8_next_append n ok(1) by simp
  have "drop n (a # s @ t) = drop n (a # s) @ t"
    using len drop_append [of n "a # s" t] by simp
  with nx have "valid_utf8 ((a # s) @ t) = valid_utf8 (drop n (a # s) @ t)" by simp
  also have "\<dots> = valid_utf8 t" using "2.IH" [OF n [symmetric]] ok(2) by simp
  finally show ?case .
qed simp

lemma valid_ascii: "\<forall>c \<in> set s. byte c < 0x80 \<Longrightarrow> valid_utf8 s"
  by (induction s) (auto simp: utf8_next.simps)

lemma valid_replacement: "valid_utf8 (replacement @ s) = valid_utf8 s"
proof (rule valid_utf8_append)
  show "valid_utf8 replacement"
    by (simp add: replacement_def utf8_next.simps byte_def cont_def second3_def)
qed

text \<open>The output is always well-formed.\<close>

lemma utf8_next_take: "utf8_next a s = (True, n) \<Longrightarrow> valid_utf8 (take n (a # s) @ u) = valid_utf8 u"
proof -
  assume n: "utf8_next a s = (True, n)"
  then have "utf8_next a (take (n - 1) s @ u) = (True, n) \<and> 0 < n \<and> n \<le> Suc (length s)"
    using utf8_next_pos [OF n] utf8_next_length [OF n]
    by (cases s; cases "tl s"; cases "tl (tl s)")
      (auto simp: utf8_next.simps [of a] split: if_splits list.splits)
  then show ?thesis
    by (cases n) (auto simp: min_def)
qed

lemma lossy_is_valid: "valid_utf8 (from_utf8_lossy s)"
proof (induction s rule: from_utf8_lossy.induct)
  case (2 a s)
  obtain ok n where n: "utf8_next a s = (ok, n)" by (cases "utf8_next a s")
  have "valid_utf8 (from_utf8_lossy (drop n (a # s)))" using "2.IH" [OF n [symmetric]] .
  with n show ?case
    by (cases ok) (simp_all add: utf8_next_take valid_replacement)
qed simp


section \<open>Checked conversion\<close>

text \<open>
  \<open>String::from_utf8\<close>: the bytes themselves, or where they go wrong: the index of the first
  ill-formed part, and its length unless the text ends in the middle of a sequence.
\<close>

record utf8_error =
  valid_up_to :: nat
  error_len :: "nat option"

function utf8_check :: "nat \<Rightarrow> string \<Rightarrow> utf8_error option" where
  "utf8_check i [] = None"
| "utf8_check i (a # s) =
     (case utf8_next a s of (ok, n) \<Rightarrow>
        if ok then utf8_check (i + n) (drop n (a # s))
        else Some \<lparr>valid_up_to = i,
          error_len = (if 0xC2 \<le> byte a \<and> byte a \<le> 0xF4 \<and> n = Suc (length s) then None else Some n)\<rparr>)"
  by pat_completeness auto
termination
  by (relation "measure (length \<circ> snd)") (auto dest!: sym [THEN utf8_next_pos])

definition from_utf8 :: "bytes \<Rightarrow> (utf8_error, string) res" where
  "from_utf8 bs = (case utf8_check 0 bs of None \<Rightarrow> Ok bs | Some e \<Rightarrow> Err e)"

definition utf8_error_text :: "utf8_error \<Rightarrow> string" where
  "utf8_error_text e = (case error_len e of
       Some n \<Rightarrow> ''invalid utf-8 sequence of '' @ show_nat n @ '' bytes from index '' @ show_nat (valid_up_to e)
     | None \<Rightarrow> ''incomplete utf-8 byte sequence from index '' @ show_nat (valid_up_to e))"

lemma utf8_check_None: "utf8_check i s = None \<longleftrightarrow> valid_utf8 s"
  by (induction i s rule: utf8_check.induct) (auto split: prod.splits)

lemma from_utf8_Inr: "from_utf8 bs = Inr s \<longleftrightarrow> s = bs \<and> valid_utf8 bs"
  using utf8_check_None [of 0 bs] by (auto simp: from_utf8_def split: option.splits)

end
