(* ===== verification/Systemd.thy ===== *)
theory Systemd
  imports Utf8
begin

text \<open>
  The outside of the host helper (\<open>src/src/helper.rs\<close>, first part): the traits
  \<open>SystemdControl\<close> and \<open>ServerCheck\<close> as records of calls, and their real implementations,
  which run \<open>systemctl\<close>, \<open>systemd-run\<close> and \<open>curl\<close>. Running a program is a call to the
  operating system (the parameter \<open>run\<close>): it may fail to start, or give an exit status and
  the bytes of its two outputs.
\<close>

record cmd_output =
  cmd_success :: bool
  cmd_stdout :: bytes
  cmd_stderr :: bytes

type_synonym 'e run_command = "string \<Rightarrow> string list \<Rightarrow> ('e, (string, cmd_output) res) ext_call"

record 'e systemd_control =
  show_unit :: "string \<Rightarrow> ('e, (string, string \<rightharpoonup> string) res) ext_call"
  is_active :: "string \<Rightarrow> ('e, (string, bool) res) ext_call"
  start_unit :: "string \<Rightarrow> ('e, (string, unit) res) ext_call"
  stop_unit :: "string \<Rightarrow> ('e, (string, unit) res) ext_call"
  replace_transient_unit :: "string \<Rightarrow> string \<Rightarrow> string list \<Rightarrow> ('e, (string, unit) res) ext_call"

record 'e server_check =
  get_text :: "string \<Rightarrow> ('e, (string, string) res) ext_call"

text \<open>The default methods of the trait.\<close>

definition stop_unit_default :: "string \<Rightarrow> ('e, (string, unit) res) ext_call" where
  "stop_unit_default unit e = (Err ''stop_unit not implemented'', 0, e)"

definition replace_transient_unit_default ::
  "string \<Rightarrow> string \<Rightarrow> string list \<Rightarrow> ('e, (string, unit) res) ext_call" where
  "replace_transient_unit_default unit description args e =
     (Err ''replace_transient_unit not implemented'', 0, e)"

section \<open>Parsing the properties of a unit\<close>

definition insert_property :: "(string \<rightharpoonup> string) \<Rightarrow> string \<Rightarrow> (string \<rightharpoonup> string)" where
  "insert_property m line = (case split_once line (CHR ''='') of None \<Rightarrow> m
     | Some (key, value) \<Rightarrow> m(key \<mapsto> value))"

definition parse_systemctl_output :: "bytes \<Rightarrow> (string, string \<rightharpoonup> string) res" where
  "parse_systemctl_output bs = (case from_utf8 bs of
       Inl e \<Rightarrow> Err (''invalid UTF-8 in systemctl output: '' @ utf8_error_text e)
     | Inr text \<Rightarrow> Ok (foldl insert_property Map.empty (rust_lines text)))"

section \<open>The real implementations\<close>

definition on_output ::
  "('e, (string, cmd_output) res) ext_call \<Rightarrow> string \<Rightarrow> (cmd_output \<Rightarrow> (string, 'a) res)
   \<Rightarrow> ('e, (string, 'a) res) ext_call" where
  \<comment> \<open>the program did not start, or its output is looked at\<close>
  "on_output c failed f e = (case c e of
       (Inl err, d, e) \<Rightarrow> (Err (failed @ err), d, e)
     | (Inr output, d, e) \<Rightarrow> (f output, d, e))"

definition or_stderr :: "string \<Rightarrow> 'a \<Rightarrow> cmd_output \<Rightarrow> (string, 'a) res" where
  "or_stderr failed v output = (if cmd_success output then Ok v
     else Err (failed @ from_utf8_lossy (cmd_stderr output)))"

definition real_show_unit :: "'e run_command \<Rightarrow> string \<Rightarrow> ('e, (string, string \<rightharpoonup> string) res) ext_call" where
  "real_show_unit run unit =
     on_output (run ''systemctl'' [''--user'', ''show'', unit, ''--property=ActiveState'',
         ''--property=SubState'', ''--property=Description''])
       ''failed to run systemctl: ''
       (\<lambda>output. if \<not> cmd_success output
          then Err (''systemctl show failed: '' @ from_utf8_lossy (cmd_stderr output))
          else parse_systemctl_output (cmd_stdout output))"

definition real_is_active :: "'e run_command \<Rightarrow> string \<Rightarrow> ('e, (string, bool) res) ext_call" where
  "real_is_active run unit =
     on_output (run ''systemctl'' [''--user'', ''is-active'', unit])
       ''failed to run systemctl: '' (\<lambda>output. Ok (cmd_success output))"

definition real_start_unit :: "'e run_command \<Rightarrow> string \<Rightarrow> ('e, (string, unit) res) ext_call" where
  "real_start_unit run unit =
     on_output (run ''systemctl'' [''--user'', ''start'', unit])
       ''failed to run systemctl: '' (or_stderr ''systemctl start failed: '' ())"

definition real_stop_unit :: "'e run_command \<Rightarrow> string \<Rightarrow> ('e, (string, unit) res) ext_call" where
  "real_stop_unit run unit =
     on_output (run ''systemctl'' [''--user'', ''stop'', unit])
       ''failed to run systemctl: '' (or_stderr ''systemctl stop failed: '' ())"

definition real_replace_transient_unit ::
  "'e run_command \<Rightarrow> string \<Rightarrow> string \<Rightarrow> string list \<Rightarrow> ('e, (string, unit) res) ext_call" where
  "real_replace_transient_unit run unit description args =
     on_output (run ''systemd-run''
         ([''--user'', ''--unit'', unit, ''--replace'', ''--description'', description, ''--collect''] @ args))
       ''failed to run systemd-run: '' (or_stderr ''systemd-run failed: '' ())"

definition real_systemd :: "'e run_command \<Rightarrow> 'e systemd_control" where
  "real_systemd run = \<lparr>show_unit = real_show_unit run, is_active = real_is_active run,
     start_unit = real_start_unit run, stop_unit = real_stop_unit run,
     replace_transient_unit = real_replace_transient_unit run\<rparr>"

definition curl_http :: "'e run_command \<Rightarrow> 'e server_check" where
  "curl_http run = \<lparr>get_text = (\<lambda>url.
     on_output (run ''curl'' [''-sf'', url]) ''failed to run curl: ''
       (\<lambda>output. if cmd_success output
          then (case from_utf8 (cmd_stdout output) of
                  Inr s \<Rightarrow> Ok s | Inl e \<Rightarrow> Err (''invalid UTF-8: '' @ utf8_error_text e))
          else Err (''curl failed: '' @ from_utf8_lossy (cmd_stderr output))))\<rparr>"

definition build_server_url :: "u16 \<Rightarrow> string \<Rightarrow> string" where
  "build_server_url port path = ''http://127.0.0.1:'' @ show_nat (unat port) @ path"

section \<open>Lemmas\<close>

lemma map_add_upd_rev: "m(k \<mapsto> v) ++ map_of (rev kvs) = m ++ map_of (rev kvs @ [(k, v)])"
  by (rule ext) (simp add: map_add_def map_of_append split: option.split)

lemma foldl_insert_property:
  assumes "\<And>k v. (k, v) \<in> set kvs \<Longrightarrow> CHR ''='' \<notin> set k"
  shows "foldl insert_property m (map (\<lambda>(k, v). k @ CHR ''='' # v) kvs) = m ++ map_of (rev kvs)"
  using assms
proof (induction kvs arbitrary: m)
  case Nil
  then show ?case by simp
next
  case (Cons kv kvs)
  obtain k v where kv: "kv = (k, v)" by (cases kv)
  with Cons.prems have "CHR ''='' \<notin> set k" by auto
  then have "insert_property m (k @ CHR ''='' # v) = m(k \<mapsto> v)"
    by (simp add: insert_property_def split_once_append)
  moreover have "foldl insert_property (m(k \<mapsto> v)) (map (\<lambda>(k, v). k @ CHR ''='' # v) kvs)
      = m(k \<mapsto> v) ++ map_of (rev kvs)"
    by (rule Cons.IH) (use Cons.prems in auto)
  moreover have "m(k \<mapsto> v) ++ map_of (rev kvs) = m ++ map_of (rev (kv # kvs))"
    by (simp only: kv map_add_upd_rev rev.simps)
  ultimately show ?case by (simp only: kv list.map foldl_Cons prod.case)
qed

lemma rust_lines_unlines:
  assumes "\<And>l. l \<in> set ls \<Longrightarrow> CHR 0x0A \<notin> set l \<and> CHR 0x0D \<notin> set l"
  shows "rust_lines (concat (map (\<lambda>l. l @ [CHR 0x0A]) ls)) = ls"
proof -
  have "split_char (CHR 0x0A) (concat (map (\<lambda>l. l @ [CHR 0x0A]) ls)) = ls @ [[]]"
    using assms by (induction ls) (auto simp: split_char_append)
  moreover have "strip_cr l = l" if "l \<in> set ls" for l
  proof -
    have "l \<noteq> [] \<longrightarrow> last l \<noteq> CHR 0x0D" using assms [OF that] last_in_set [of l] by metis
    then show ?thesis by (auto simp: strip_cr_def strip_suffix_char_def split: if_splits)
  qed
  then have "map strip_cr ls = ls" by (simp add: map_idI)
  ultimately show ?thesis by (simp add: rust_lines_def)
qed

section \<open>Properties\<close>

definition render_properties :: "(string \<times> string) list \<Rightarrow> bytes" where
  "render_properties kvs = concat (map (\<lambda>l. l @ [CHR 0x0A]) (map (\<lambda>(k, v). k @ CHR ''='' # v) kvs))"

text \<open>
  C39: The properties that \<open>systemctl show\<close> prints are read back. A list of properties, one
  \<open>key=value\<close> line each (keys without \<open>=\<close>, values with any further ones, no line breaks), in
  UTF-8, is parsed as the map of those properties, the last one winning for a repeated key.
\<close>

theorem systemctl_output_roundtrip:
  assumes "\<forall>(k, v)\<in>set kvs. CHR ''='' \<notin> set k \<and> CHR 0x0A \<notin> set (k @ v) \<and> CHR 0x0D \<notin> set (k @ v)"
    and "valid_utf8 (render_properties kvs)"
  shows "parse_systemctl_output (render_properties kvs) = Ok (map_of (rev kvs))"
proof -
  let ?ls = "map (\<lambda>(k, v). k @ CHR ''='' # v) kvs"
  have "from_utf8 (render_properties kvs) = Inr (render_properties kvs)"
    using assms(2) by (simp add: from_utf8_Inr)
  moreover have "rust_lines (render_properties kvs) = ?ls"
    unfolding render_properties_def by (rule rust_lines_unlines) (use assms(1) in auto)
  moreover have "foldl insert_property Map.empty ?ls = Map.empty ++ map_of (rev kvs)"
    by (rule foldl_insert_property) (use assms(1) in auto)
  ultimately show ?thesis by (simp add: parse_systemctl_output_def)
qed

theorem systemctl_output_roundtrip_witness:
  "parse_systemctl_output (render_properties [(''ActiveState'', ''active''), (''Description'', ''a=b'')])
     = Ok (map_of (rev [(''ActiveState'', ''active''), (''Description'', ''a=b'')]))"
proof -
  have "valid_utf8 (render_properties [(''ActiveState'', ''active''), (''Description'', ''a=b'')])"
    by code_simp
  then show ?thesis by (intro systemctl_output_roundtrip) simp_all
qed

end
