(* ===== verification/Http_Error.thy ===== *)
theory Http_Error
  imports Rust_Text
begin

text \<open>
  \<open>src/src/http_error.rs\<close>, and the shape of JSON values and HTTP responses. JSON text
  itself is read and written by \<open>serde_json\<close>, which is not part of the repository:
  where the program parses or prints, the parser and printer are parameters. The value
  type has the constructors of \<open>serde_json::Value\<close>; a number is the internal
  \<open>PosInt\<close>, \<open>NegInt\<close> or \<open>Float\<close> (its 64 bits), and an object is the list of its members.
\<close>

datatype number = PosInt u64 | NegInt "64 word" | Float "64 word"

datatype json =
    JNull
  | JBool bool
  | JNumber number
  | JString string
  | JArray "json list"
  | JObject "(string \<times> json) list"

definition json_get :: "json \<Rightarrow> string \<Rightarrow> json" where
  \<comment> \<open>\<open>value[key]\<close> on a value: \<open>Null\<close> where the value is no object or has no such member\<close>
  "json_get v k = (case v of JObject ms \<Rightarrow> unwrap_or JNull (map_of ms k) | _ \<Rightarrow> JNull)"

definition json_as_array :: "json \<Rightarrow> json list option" where
  "json_as_array v = (case v of JArray xs \<Rightarrow> Some xs | _ \<Rightarrow> None)"

definition json_as_str :: "json \<Rightarrow> string option" where
  "json_as_str v = (case v of JString s \<Rightarrow> Some s | _ \<Rightarrow> None)"

definition json_is_null :: "json \<Rightarrow> bool" where
  "json_is_null v = (v = JNull)"

text \<open>\<open>get_mut\<close> followed by an assignment: the member's value is replaced in place.\<close>

primrec set_member :: "string \<Rightarrow> json \<Rightarrow> (string \<times> json) list \<Rightarrow> (string \<times> json) list" where
  "set_member k v [] = []"
| "set_member k v (m # ms) = (if fst m = k then (k, v) # ms else m # set_member k v ms)"

lemma map_of_set_member:
  "map_of (set_member k v ms) x = (if x = k \<and> map_of ms k \<noteq> None then Some v else map_of ms x)"
  by (induction ms) auto

lemma set_member_keys: "map fst (set_member k v ms) = map fst ms"
  by (induction ms) auto

datatype body = JsonBody json | TextBody string | StreamBody "(string, bytes) res list"

record response =
  rs_status :: nat
  rs_content_type :: string
  rs_retry_after :: "string option"
  rs_body :: body

definition error_json :: "string \<Rightarrow> string \<Rightarrow> json" where
  "error_json code message = JObject [(''error'', JObject
     [(''message'', JString message), (''type'', JString code),
      (''param'', JNull), (''code'', JString code)])]"

text \<open>
  \<open>openai_error\<close>. The \<open>Retry-After\<close> text is parsed as a header value by the \<open>http\<close>
  crate (the parameter \<open>hv\<close>); the \<open>expect\<close> on that parse is the \<open>None\<close> (a panic).
\<close>

definition openai_error ::
  "(string \<Rightarrow> string option) \<Rightarrow> nat \<Rightarrow> string \<Rightarrow> string \<Rightarrow> string option \<Rightarrow> response option" where
  "openai_error hv status code message retry_after =
     (let response = \<lparr>rs_status = status, rs_content_type = ''application/json'',
                      rs_retry_after = None, rs_body = JsonBody (error_json code message)\<rparr>
      in case retry_after of
           None \<Rightarrow> Some response
         | Some v \<Rightarrow> (case hv v of None \<Rightarrow> None
             | Some h \<Rightarrow> Some (response\<lparr>rs_retry_after := Some h\<rparr>)))"

text \<open>The error type a client reads in the body.\<close>

definition error_type :: "response \<Rightarrow> string option" where
  "error_type r = (case rs_body r of JsonBody v \<Rightarrow> json_as_str (json_get (json_get v ''error'') ''type'')
     | _ \<Rightarrow> None)"

definition error_message :: "response \<Rightarrow> string option" where
  "error_message r = (case rs_body r of JsonBody v \<Rightarrow> json_as_str (json_get (json_get v ''error'') ''message'')
     | _ \<Rightarrow> None)"

lemma openai_error_no_retry [simp]:
  "openai_error hv st code msg None = Some \<lparr>rs_status = st, rs_content_type = ''application/json'',
     rs_retry_after = None, rs_body = JsonBody (error_json code msg)\<rparr>"
  by (simp add: openai_error_def)

lemma openai_error_fields:
  assumes "openai_error hv st code msg ra = Some r"
  shows "rs_status r = st" "error_type r = Some code" "error_message r = Some msg"
    "rs_retry_after r = Option.bind ra hv"
  using assms
  by (auto simp: openai_error_def error_type_def error_message_def error_json_def json_get_def
      json_as_str_def Let_def split: option.splits)

end
