(* ===== verification/Helper.thy ===== *)
theory Helper
  imports Systemd Http_Error
begin

text \<open>
  The host helper (\<open>src/src/helper.rs\<close>, \<open>Helper\<close>): it starts the unit of a target, waits
  for its server, checks which model the server reports, and keeps the sleep inhibitor.
  The helper is a record of its configuration and its two services; every method runs in a
  world with a monotonic clock. \<open>serde_json::from_str\<close> is the parameter \<open>parse\<close>. A method
  that computes a deadline gives \<open>None\<close> where the addition to the clock overflows (a panic).
\<close>

section \<open>Data\<close>

datatype helper_status = HsOk | HsMismatch | HsError
datatype target = TChat | TEmbeddings

definition as_str :: "target \<Rightarrow> string" where
  "as_str t = (case t of TChat \<Rightarrow> ''chat'' | TEmbeddings \<Rightarrow> ''embeddings'')"

definition from_str :: "string \<Rightarrow> (string, target) res" where
  "from_str s = (if s = ''chat'' then Ok TChat
     else if s = ''embeddings'' then Ok TEmbeddings
     else Err (''unknown target '' @ [CHR 0x27] @ s @ [CHR 0x27] @ '', expected ''
        @ [CHR 0x27] @ ''chat'' @ [CHR 0x27] @ '' or '' @ [CHR 0x27] @ ''embeddings'' @ [CHR 0x27]))"

record unit_info =
  ui_unit_name :: string
  ui_active_state :: string
  ui_sub_state :: string
  ui_description :: string

record model_info =
  mi_model_alias :: string
  mi_model_path :: string
  mi_serving :: bool
  mi_ready :: bool
  mi_reported_id :: "string option"

record status_response =
  sr_status :: helper_status
  sr_message :: string
  sr_llama_server :: "unit_info option"
  sr_inhibit_holder :: "unit_info option"
  sr_active_model :: "model_info option"
  sr_llama_server_embeddings :: "unit_info option"
  sr_active_model_embeddings :: "model_info option"

record ensure_started_response =
  er_status :: helper_status
  er_message :: string
  er_model_alias :: string
  er_model_path :: string
  er_startup_triggered :: bool
  er_server_ready :: bool
  er_model_verified :: bool
  er_llama_server :: "unit_info option"

record lease_acquire_response =
  la_status :: helper_status
  la_message :: string
  la_inhibit_holder :: "unit_info option"
  la_ttl_secs :: u64
  la_renewed :: bool

record lease_release_response =
  lr_status :: helper_status
  lr_message :: string
  lr_inhibit_holder :: "unit_info option"

record lease_inspect_response =
  li_status :: helper_status
  li_message :: string
  li_inhibit_holder :: "unit_info option"

section \<open>Configuration\<close>

record helper_config =
  llama_server_unit :: string
  inhibit_holder_unit :: string
  llama_server_port :: u16
  llama_server_embeddings_unit :: string
  llama_server_embeddings_port :: u16
  server_start_timeout_secs :: u64

definition helper_config_default :: helper_config where
  "helper_config_default = \<lparr>llama_server_unit = ''llama-server'',
     inhibit_holder_unit = ''llm-wake-proxy-inhibit'', llama_server_port = 8080,
     llama_server_embeddings_unit = ''llama-server-embeddings'',
     llama_server_embeddings_port = 8081, server_start_timeout_secs = 60\<rparr>"

definition helper_config_from_env :: "(string \<rightharpoonup> string) \<Rightarrow> helper_config" where
  "helper_config_from_env e =
     \<lparr>llama_server_unit = unwrap_or ''llama-server'' (e ''LLAMA_SERVER_UNIT''),
      inhibit_holder_unit = unwrap_or ''llm-wake-proxy-inhibit'' (e ''INHIBIT_HOLDER_UNIT''),
      llama_server_port = unwrap_or 8080 (Option.bind (e ''LLAMA_SERVER_PORT'') parse_u16),
      llama_server_embeddings_unit =
        unwrap_or ''llama-server-embeddings'' (e ''LLAMA_SERVER_EMBEDDINGS_UNIT''),
      llama_server_embeddings_port =
        unwrap_or 8081 (Option.bind (e ''LLAMA_SERVER_EMBEDDINGS_PORT'') parse_u16),
      server_start_timeout_secs =
        unwrap_or 60 (Option.bind (e ''SERVER_START_TIMEOUT_SECS'') parse_u64)\<rparr>"

definition unit_for :: "helper_config \<Rightarrow> target \<Rightarrow> string" where
  "unit_for c t = (case t of TChat \<Rightarrow> llama_server_unit c
     | TEmbeddings \<Rightarrow> llama_server_embeddings_unit c)"

definition port_for :: "helper_config \<Rightarrow> target \<Rightarrow> u16" where
  "port_for c t = (case t of TChat \<Rightarrow> llama_server_port c
     | TEmbeddings \<Rightarrow> llama_server_embeddings_port c)"

record 'e helper =
  h_config :: helper_config
  h_sys :: "'e systemd_control"
  h_http :: "'e server_check"

definition helper_new :: "'e run_command \<Rightarrow> helper_config \<Rightarrow> 'e helper" where
  "helper_new run c = \<lparr>h_config = c, h_sys = real_systemd run, h_http = curl_http run\<rparr>"

section \<open>Looking at units and servers\<close>

definition unit_info_of :: "string \<Rightarrow> (string \<rightharpoonup> string) \<Rightarrow> unit_info" where
  "unit_info_of unit props = \<lparr>ui_unit_name = unit,
     ui_active_state = unwrap_or ''unknown'' (props ''ActiveState''),
     ui_sub_state = unwrap_or ''unknown'' (props ''SubState''),
     ui_description = unwrap_or [] (props ''Description'')\<rparr>"

definition collect_unit_info :: "'e helper \<Rightarrow> string \<Rightarrow> 'e world \<Rightarrow> unit_info option \<times> 'e world" where
  "collect_unit_info h unit w = (case call (show_unit (h_sys h) unit) w of
       (Inr props, w) \<Rightarrow> (Some (unit_info_of unit props), w)
     | (Inl e, w) \<Rightarrow> (Some \<lparr>ui_unit_name = unit, ui_active_state = ''error'',
                           ui_sub_state = e, ui_description = []\<rparr>, w))"

definition is_server_alive :: "'e helper \<Rightarrow> u16 \<Rightarrow> 'e world \<Rightarrow> bool \<times> 'e world" where
  "is_server_alive h port w =
     (case call (get_text (h_http h) (build_server_url port ''/v1/models'')) w of
        (r, w) \<Rightarrow> (is_ok r, w))"

definition reported_model_id :: "json \<Rightarrow> string option" where
  "reported_model_id v = Option.bind (json_as_array (json_get v ''data''))
     (\<lambda>arr. case arr of [] \<Rightarrow> None | first # _ \<Rightarrow> json_as_str (json_get first ''id''))"

definition check_model_identity ::
  "(string \<Rightarrow> (string, json) res) \<Rightarrow> 'e helper \<Rightarrow> u16 \<Rightarrow> 'e world
   \<Rightarrow> (string, string option) res \<times> 'e world" where
  "check_model_identity parse h port w =
     (case call (get_text (h_http h) (build_server_url port ''/v1/models'')) w of
        (Inl e, w) \<Rightarrow> (Err e, w)
      | (Inr text, w) \<Rightarrow> (case parse text of
            Inl e \<Rightarrow> (Err (''failed to parse models response: '' @ e), w)
          | Inr v \<Rightarrow> (Ok (reported_model_id v), w)))"

definition active_model_for ::
  "(string \<Rightarrow> (string, json) res) \<Rightarrow> 'e helper \<Rightarrow> u16 \<Rightarrow> 'e world
   \<Rightarrow> model_info option \<times> 'e world" where
  "active_model_for parse h port w =
     (case is_server_alive h port w of
        (False, w) \<Rightarrow> (None, w)
      | (True, w) \<Rightarrow> (case check_model_identity parse h port w of
            (Inr reported_id, w) \<Rightarrow>
              (Some \<lparr>mi_model_alias = unwrap_or [] reported_id, mi_model_path = unwrap_or [] reported_id,
                     mi_serving = True, mi_ready = True, mi_reported_id = None\<rparr>, w)
          | (Inl _, w) \<Rightarrow>
              (Some \<lparr>mi_model_alias = [], mi_model_path = [], mi_serving = True,
                     mi_ready = False, mi_reported_id = None\<rparr>, w)))"

definition status ::
  "(string \<Rightarrow> (string, json) res) \<Rightarrow> 'e helper \<Rightarrow> 'e world \<Rightarrow> status_response \<times> 'e world" where
  "status parse h w =
     (case collect_unit_info h (llama_server_unit (h_config h)) w of (llama, w) \<Rightarrow>
      case collect_unit_info h (inhibit_holder_unit (h_config h)) w of (inhibit, w) \<Rightarrow>
      case active_model_for parse h (llama_server_port (h_config h)) w of (model, w) \<Rightarrow>
      case collect_unit_info h (llama_server_embeddings_unit (h_config h)) w of (llama_emb, w) \<Rightarrow>
      case active_model_for parse h (llama_server_embeddings_port (h_config h)) w of (model_emb, w) \<Rightarrow>
        (\<lparr>sr_status = HsOk, sr_message = ''current host unit state'', sr_llama_server = llama,
          sr_inhibit_holder = inhibit, sr_active_model = model,
          sr_llama_server_embeddings = llama_emb, sr_active_model_embeddings = model_emb\<rparr>, w))"

section \<open>Waiting for a server\<close>

text \<open>\<open>Instant::now() + Duration\<close>: the seconds of the clock are an \<open>i64\<close>.\<close>

definition instant_add_secs :: "nat \<Rightarrow> u64 \<Rightarrow> nat option" where
  "instant_add_secs at secs =
     (if at div 1000 + unat secs < 2 ^ 63 then Some (at + 1000 * unat secs) else None)"

function poll_server :: "'e helper \<Rightarrow> u16 \<Rightarrow> nat \<Rightarrow> 'e world \<Rightarrow> bool \<times> 'e world" where
  "poll_server h port deadline w =
     (if clock w < deadline
      then (case is_server_alive h port w of
              (True, w') \<Rightarrow> (True, w')
            | (False, w') \<Rightarrow> poll_server h port deadline (sleep_ms 500 w'))
      else (False, w))"
  by pat_completeness auto

lemma is_server_alive_clock: "is_server_alive h port w = (b, w') \<Longrightarrow> clock w \<le> clock w'"
  by (auto simp: is_server_alive_def dest: clock_call split: prod.splits)

termination poll_server
  by (relation "measure (\<lambda>(h, port, deadline, w). deadline - clock w)")
     (auto dest!: sym [THEN is_server_alive_clock])

declare poll_server.simps [simp del]

definition wait_for_server :: "'e helper \<Rightarrow> u16 \<Rightarrow> u64 \<Rightarrow> 'e world \<Rightarrow> (bool \<times> 'e world) option" where
  "wait_for_server h port timeout_secs w = (case instant_add_secs (clock w) timeout_secs of
       None \<Rightarrow> None
     | Some deadline \<Rightarrow> Some (poll_server h port deadline w))"

section \<open>Starting a model\<close>

definition unit_info_or ::
  "'e helper \<Rightarrow> string \<Rightarrow> string \<Rightarrow> string \<Rightarrow> string \<Rightarrow> 'e world \<Rightarrow> unit_info \<times> 'e world" where
  \<comment> \<open>\<open>collect_unit_info(unit).unwrap_or(...)\<close>\<close>
  "unit_info_or h unit active_state sub_state description w =
     (case collect_unit_info h unit w of (info, w) \<Rightarrow>
        (unwrap_or \<lparr>ui_unit_name = unit, ui_active_state = active_state,
                    ui_sub_state = sub_state, ui_description = description\<rparr> info, w))"

definition mismatch_message :: "string \<Rightarrow> string \<Rightarrow> string" where
  "mismatch_message model_path reported_id =
     ''expected model path '' @ [CHR 0x27] @ model_path @ [CHR 0x27] @ '', but server reports ''
       @ [CHR 0x27] @ reported_id @ [CHR 0x27]"

definition path_matches :: "string \<Rightarrow> string \<Rightarrow> bool" where
  "path_matches reported_id model_path =
     (contains_str reported_id model_path \<or> contains_str model_path reported_id)"

text \<open>The part after the server has answered: which model does it report?\<close>

definition verify_model ::
  "(string \<Rightarrow> (string, json) res) \<Rightarrow> 'e helper \<Rightarrow> string \<Rightarrow> u16 \<Rightarrow> string \<Rightarrow> string \<Rightarrow> bool
   \<Rightarrow> 'e world \<Rightarrow> ensure_started_response \<times> 'e world" where
  "verify_model parse h unit port model_alias model_path startup_triggered w =
     (let response = (\<lambda>st msg verified info.
            \<lparr>er_status = st, er_message = msg, er_model_alias = model_alias,
             er_model_path = model_path, er_startup_triggered = startup_triggered,
             er_server_ready = True, er_model_verified = verified, er_llama_server = Some info\<rparr>)
      in case check_model_identity parse h port w of
           (Inr (Some reported_id), w) \<Rightarrow>
             (case unit_info_or h unit ''active'' ''running'' [] w of (info, w) \<Rightarrow>
                if path_matches reported_id model_path
                then (response HsOk
                        (if startup_triggered then ''model started and verified successfully''
                         else ''model is already running and ready'') True info, w)
                else (response HsMismatch (mismatch_message model_path reported_id) False info, w))
         | (Inr None, w) \<Rightarrow>
             (case unit_info_or h unit ''active'' ''running'' [] w of (info, w) \<Rightarrow>
                (response HsError ''server responded but returned no model identifiers'' False info, w))
         | (Inl e, w) \<Rightarrow>
             (case unit_info_or h unit ''unknown'' ''model_identity_check_error'' e w of (info, w) \<Rightarrow>
                (response HsError (''model identity check failed: '' @ e) False info, w)))"

definition start_failed_response ::
  "string \<Rightarrow> string \<Rightarrow> string \<Rightarrow> string \<Rightarrow> ensure_started_response" where
  "start_failed_response unit model_alias model_path e =
     \<lparr>er_status = HsError, er_message = ''failed to start llama-server: '' @ e,
      er_model_alias = model_alias, er_model_path = model_path, er_startup_triggered = False,
      er_server_ready = False, er_model_verified = False,
      er_llama_server = Some \<lparr>ui_unit_name = unit, ui_active_state = ''failed'',
        ui_sub_state = ''startup_error'', ui_description = e\<rparr>\<rparr>"

definition not_ready_response ::
  "helper_config \<Rightarrow> string \<Rightarrow> string \<Rightarrow> bool \<Rightarrow> unit_info \<Rightarrow> ensure_started_response" where
  "not_ready_response c model_alias model_path startup_triggered info =
     \<lparr>er_status = HsError,
      er_message = ''llama-server did not become ready within ''
        @ show_nat (unat (server_start_timeout_secs c)) @ '' seconds'',
      er_model_alias = model_alias, er_model_path = model_path,
      er_startup_triggered = startup_triggered, er_server_ready = False,
      er_model_verified = False, er_llama_server = Some info\<rparr>"

text \<open>Is the unit up, and if it is not, can it be started? (\<open>Inr b\<close>: \<open>b\<close> if it was started now)\<close>

definition start_if_inactive ::
  "'e helper \<Rightarrow> string \<Rightarrow> 'e world \<Rightarrow> (string, bool) res \<times> 'e world" where
  "start_if_inactive h unit w =
     (case call (is_active (h_sys h) unit) w of (r, w) \<Rightarrow>
        if (case r of Inr active \<Rightarrow> active | Inl _ \<Rightarrow> False) then (Ok False, w)
        else (case call (start_unit (h_sys h) unit) w of
                (Inr _, w) \<Rightarrow> (Ok True, w)
              | (Inl e, w) \<Rightarrow> (Err e, w)))"

definition ensure_started ::
  "(string \<Rightarrow> (string, json) res) \<Rightarrow> 'e helper \<Rightarrow> target \<Rightarrow> string \<Rightarrow> string \<Rightarrow> 'e world
   \<Rightarrow> (ensure_started_response \<times> 'e world) option" where
  "ensure_started parse h t model_alias model_path w =
     (let unit = unit_for (h_config h) t; port = port_for (h_config h) t in
      case start_if_inactive h unit w of
        (Inl e, w) \<Rightarrow> Some (start_failed_response unit model_alias model_path e, w)
      | (Inr startup_triggered, w) \<Rightarrow>
          (case wait_for_server h port (server_start_timeout_secs (h_config h)) w of
             None \<Rightarrow> None
           | Some (False, w) \<Rightarrow>
               (case unit_info_or h unit ''unknown'' ''server_not_responding'' [] w of (info, w) \<Rightarrow>
                  Some (not_ready_response (h_config h) model_alias model_path startup_triggered info, w))
           | Some (True, w) \<Rightarrow>
               Some (verify_model parse h unit port model_alias model_path startup_triggered w)))"

section \<open>The sleep inhibitor\<close>

definition inhibit_args :: "u64 \<Rightarrow> string list" where
  "inhibit_args ttl_secs = [''systemd-inhibit'', ''--what=sleep'', ''--who=llm-wake-proxy'',
     ''--why=Keep awake for active proxy session'', ''sleep'', show_nat (unat ttl_secs)]"

definition lease_acquire :: "'e helper \<Rightarrow> u64 \<Rightarrow> 'e world \<Rightarrow> lease_acquire_response \<times> 'e world" where
  "lease_acquire h ttl w =
     (let ttl_secs = clamp_u64 ttl 60 86400; holder = inhibit_holder_unit (h_config h) in
      case call (is_active (h_sys h) holder) w of (r, w) \<Rightarrow>
        let was_active = unwrap_or False (result_ok r) in
        case call (replace_transient_unit (h_sys h) holder ''llm-wake-proxy inhibit holder''
                     (inhibit_args ttl_secs)) w of
          (Inr _, w) \<Rightarrow>
            (case collect_unit_info h holder w of (unit, w) \<Rightarrow>
               if \<not> unwrap_or False (map_option (\<lambda>u. ui_active_state u = ''active'') unit)
               then (\<lparr>la_status = HsError,
                      la_message = ''lease was created but the inhibit unit is not active'',
                      la_inhibit_holder = unit, la_ttl_secs = ttl_secs, la_renewed = False\<rparr>, w)
               else (\<lparr>la_status = HsOk,
                      la_message = (if was_active then ''lease renewed'' else ''lease acquired''),
                      la_inhibit_holder = unit, la_ttl_secs = ttl_secs, la_renewed = was_active\<rparr>, w))
        | (Inl e, w) \<Rightarrow>
            (\<lparr>la_status = HsError, la_message = ''failed to acquire lease: '' @ e,
              la_inhibit_holder = None, la_ttl_secs = ttl_secs, la_renewed = False\<rparr>, w))"

definition lease_release :: "'e helper \<Rightarrow> 'e world \<Rightarrow> lease_release_response \<times> 'e world" where
  "lease_release h w = (case call (stop_unit (h_sys h) (inhibit_holder_unit (h_config h))) w of
       (Inr _, w) \<Rightarrow> (case collect_unit_info h (inhibit_holder_unit (h_config h)) w of (unit, w) \<Rightarrow>
          (\<lparr>lr_status = HsOk, lr_message = ''lease released'', lr_inhibit_holder = unit\<rparr>, w))
     | (Inl e, w) \<Rightarrow>
          (\<lparr>lr_status = HsError, lr_message = ''failed to release lease: '' @ e,
            lr_inhibit_holder = None\<rparr>, w))"

definition lease_inspect :: "'e helper \<Rightarrow> 'e world \<Rightarrow> lease_inspect_response \<times> 'e world" where
  "lease_inspect h w = (case call (show_unit (h_sys h) (inhibit_holder_unit (h_config h))) w of
       (Inr props, w) \<Rightarrow>
          (\<lparr>li_status = HsOk, li_message = ''current lease state'',
            li_inhibit_holder = Some (unit_info_of (inhibit_holder_unit (h_config h)) props)\<rparr>, w)
     | (Inl e, w) \<Rightarrow>
          (\<lparr>li_status = HsError, li_message = ''failed to inspect lease: '' @ e,
            li_inhibit_holder = None\<rparr>, w))"

section \<open>Lemmas\<close>

lemma collect_unit_info_Some:
  "collect_unit_info h unit w = (info, w') \<Longrightarrow> \<exists>u. info = Some u \<and> ui_unit_name u = unit"
  by (auto simp: collect_unit_info_def unit_info_of_def split: prod.splits sum.splits)

lemma unit_info_or_name:
  "unit_info_or h unit a b c w = (info, w') \<Longrightarrow> ui_unit_name info = unit"
  by (auto simp: unit_info_or_def dest!: collect_unit_info_Some split: prod.splits)

lemma verify_model_cases:
  assumes "verify_model parse h unit port alias path started w = (r, w')"
  obtains id w1 where "check_model_identity parse h port w = (Inr (Some id), w1)"
      "path_matches id path" "er_status r = HsOk" "er_model_verified r"
    | id w1 where "check_model_identity parse h port w = (Inr (Some id), w1)"
      "\<not> path_matches id path" "er_status r = HsMismatch" "\<not> er_model_verified r"
    | "er_status r = HsError" "\<not> er_model_verified r"
      "\<forall>id w1. check_model_identity parse h port w \<noteq> (Inr (Some id), w1)"
  using assms
  by (auto simp: verify_model_def Let_def split: prod.splits sum.splits option.splits if_splits)

lemma verify_model_fields:
  assumes "verify_model parse h unit port alias path started w = (r, w')"
  shows "er_model_alias r = alias \<and> er_model_path r = path \<and> er_server_ready r
    \<and> er_startup_triggered r = started \<and> (\<exists>u. er_llama_server r = Some u \<and> ui_unit_name u = unit)"
  using assms
  by (auto simp: verify_model_def Let_def dest: unit_info_or_name
      split: prod.splits sum.splits option.splits if_splits)

lemma poll_server_True:
  assumes "poll_server h port deadline w = (True, w')"
  shows "\<exists>w1. clock w \<le> clock w1 \<and> clock w1 < deadline \<and> is_server_alive h port w1 = (True, w')"
  using assms
proof (induction h port deadline w rule: poll_server.induct)
  case (1 h port deadline w)
  then have less: "clock w < deadline" by (auto simp: poll_server.simps [of h port _ w] split: if_splits)
  obtain b w1 where alive: "is_server_alive h port w = (b, w1)" by (cases "is_server_alive h port w")
  show ?case
  proof (cases b)
    case True
    with "1.prems" less alive show ?thesis by (auto simp: poll_server.simps [of h port _ w])
  next
    case False
    with "1.prems" less alive have "poll_server h port deadline (sleep_ms 500 w1) = (True, w')"
      by (simp add: poll_server.simps [of h port _ w])
    with "1.IH" [OF less alive [symmetric]] False obtain w2
      where "clock (sleep_ms 500 w1) \<le> clock w2" "clock w2 < deadline"
        "is_server_alive h port w2 = (True, w')" by blast
    moreover from this(1) is_server_alive_clock [OF alive] have "clock w \<le> clock w2" by simp
    ultimately show ?thesis by blast
  qed
qed

lemma is_server_alive_takes:
  assumes "\<And>e. fst (snd (get_text (h_http h) (build_server_url port ''/v1/models'') e)) \<le> d"
  shows "is_server_alive h port w = (b, w1) \<Longrightarrow> clock w1 \<le> clock w + d"
  using assms [of "env w"] by (auto simp: is_server_alive_def call_def split: prod.splits)

lemma poll_server_stops:
  assumes "\<And>e. fst (snd (get_text (h_http h) (build_server_url port ''/v1/models'') e)) \<le> d"
  shows "poll_server h port deadline w = (b, w') \<Longrightarrow>
    clock w' \<le> max (clock w) (deadline + d + 500) \<and> (b \<or> deadline \<le> clock w')"
  using assms
proof (induction h port deadline w rule: poll_server.induct)
  case (1 h port deadline w)
  show ?case
  proof (cases "clock w < deadline")
    case less: True
    obtain b1 w1 where alive: "is_server_alive h port w = (b1, w1)" by (cases "is_server_alive h port w")
    have t: "clock w1 \<le> clock w + d"
      using is_server_alive_takes [OF "1.prems"(2) alive] .
    show ?thesis
    proof (cases b1)
      case True
      with "1.prems"(1) less alive t show ?thesis
        by (auto simp: poll_server.simps [of h port _ w])
    next
      case False
      with "1.prems"(1) less alive have "poll_server h port deadline (sleep_ms 500 w1) = (b, w')"
        by (simp add: poll_server.simps [of h port _ w])
      with "1.IH" [OF less alive [symmetric]] False "1.prems"(2) t less
      show ?thesis by fastforce
    qed
  next
    case False
    with "1.prems"(1) show ?thesis by (simp add: poll_server.simps [of h port _ w])
  qed
qed

lemma start_if_inactive_clock:
  "start_if_inactive h unit w = (r, w') \<Longrightarrow> clock w \<le> clock w'"
  by (auto simp: start_if_inactive_def dest!: clock_call split: prod.splits sum.splits if_splits)

lemma path_matches_Nil: "path_matches [] path"
  by (simp add: path_matches_def)

text \<open>How a response with the status \<open>ok\<close> comes about, and the shape of every response.\<close>

lemma ensure_started_cases:
  assumes "ensure_started parse h t alias path w = Some (r, w')"
  obtains e w1 where "start_if_inactive h (unit_for (h_config h) t) w = (Inl e, w1)"
      "r = start_failed_response (unit_for (h_config h) t) alias path e"
    | started w1 w2 info where "start_if_inactive h (unit_for (h_config h) t) w = (Inr started, w1)"
      "r = not_ready_response (h_config h) alias path started info"
      "ui_unit_name info = unit_for (h_config h) t"
    | started w1 w2 where "start_if_inactive h (unit_for (h_config h) t) w = (Inr started, w1)"
      "wait_for_server h (port_for (h_config h) t) (server_start_timeout_secs (h_config h)) w1
         = Some (True, w2)"
      "verify_model parse h (unit_for (h_config h) t) (port_for (h_config h) t) alias path started w2
         = (r, w')"
  using assms
  by (auto simp: ensure_started_def Let_def dest: unit_info_or_name
      split: prod.splits sum.splits option.splits bool.splits)

lemma ensure_started_verified:
  assumes "ensure_started parse h t alias path w = Some (r, w')"
  shows "er_status r = HsOk \<longleftrightarrow> er_model_verified r"
  using assms
proof (cases rule: ensure_started_cases)
  case (3 started w1 w2)
  from 3(3) show ?thesis by (rule verify_model_cases) auto
qed (auto simp: start_failed_response_def not_ready_response_def)

section \<open>Properties\<close>

text \<open>
  An example host for the witnesses: the unit is active or not, the server answers with the
  text \<open>mid\<close> after as many failing polls as the environment counts, and the reader takes a
  whole text as the identifier of the first model.
\<close>

definition example_sys :: "bool \<Rightarrow> nat systemd_control" where
  "example_sys active = \<lparr>
     show_unit = (\<lambda>u e. (Ok [''ActiveState'' \<mapsto> ''active''], 4, e)),
     is_active = (\<lambda>u e. (Ok active, 3, e)),
     start_unit = (\<lambda>u e. (Ok (), 20, e)),
     stop_unit = (\<lambda>u e. (Ok (), 20, e)),
     replace_transient_unit = (\<lambda>u d a e. (Ok (), 30, e))\<rparr>"

definition example_http :: "string \<Rightarrow> nat server_check" where
  "example_http mid = \<lparr>get_text = (\<lambda>url e. (if e = 0 then Ok mid else Err ''refused'', 10, e - 1))\<rparr>"

definition example_helper :: "bool \<Rightarrow> string \<Rightarrow> nat helper" where
  "example_helper active mid =
     \<lparr>h_config = helper_config_default, h_sys = example_sys active, h_http = example_http mid\<rparr>"

definition example_parse :: "string \<Rightarrow> (string, json) res" where
  "example_parse text = Ok (JObject [(''data'', JArray [JObject [(''id'', JString text)]])])"

lemmas example_defs = example_sys_def example_http_def example_helper_def example_parse_def
  helper_config_default_def

lemma poll_server_step:
  "clock w < deadline \<Longrightarrow> poll_server h port deadline w =
     (case is_server_alive h port w of
        (True, w') \<Rightarrow> (True, w')
      | (False, w') \<Rightarrow> poll_server h port deadline (sleep_ms 500 w'))"
  by (simp add: poll_server.simps [of h port _ w])

lemmas ensure_started_eval = ensure_started_def Let_def example_defs start_if_inactive_def call_def
  wait_for_server_def instant_add_secs_def poll_server_step is_server_alive_def sleep_ms_def
  verify_model_def check_model_identity_def reported_model_id_def json_get_def json_as_array_def
  json_as_str_def path_matches_def unit_info_or_def collect_unit_info_def
  unit_info_of_def unit_for_def port_for_def

text \<open>
  C12: Every answer of \<open>ensure_started\<close> keeps its promises: the status is \<open>ok\<close> exactly when
  the model was verified; a verified model and a mismatch both mean a server that answered;
  the answer names the alias and path it was asked for and describes the unit of the
  target; and an \<open>ok\<close> answer is backed by a server that, at some moment of this call, named
  a first model whose identifier contains the expected path or is contained in it.
\<close>

theorem ensure_started_contract:
  assumes "ensure_started parse h t alias path w = Some (r, w')"
  shows "(er_status r = HsOk \<longleftrightarrow> er_model_verified r)
    \<and> (er_model_verified r \<or> er_status r = HsMismatch \<longrightarrow> er_server_ready r)
    \<and> er_model_alias r = alias \<and> er_model_path r = path
    \<and> (\<exists>u. er_llama_server r = Some u \<and> ui_unit_name u = unit_for (h_config h) t)
    \<and> (er_status r = HsOk \<longrightarrow> (\<exists>w1 w2 id.
          check_model_identity parse h (port_for (h_config h) t) w1 = (Ok (Some id), w2)
          \<and> path_matches id path))"
  using assms
proof (cases rule: ensure_started_cases)
  case (3 started w1 w2)
  from 3(3) show ?thesis
    by (rule verify_model_cases) (use verify_model_fields [OF 3(3)] in auto)
qed (auto simp: start_failed_response_def not_ready_response_def)

theorem ensure_started_contract_witness:
  "case ensure_started example_parse (example_helper False ''m.gguf'') TChat ''m'' ''/models/m.gguf''
          \<lparr>clock = 0, env = 2\<rparr> of
     None \<Rightarrow> False
   | Some (r, w') \<Rightarrow> er_status r = HsOk \<and> er_model_verified r \<and> er_startup_triggered r"
proof -
  have "ensure_started example_parse (example_helper False ''m.gguf'') TChat ''m'' ''/models/m.gguf''
      \<lparr>clock = 0, env = 2\<rparr> =
    Some (\<lparr>er_status = HsOk, er_message = ''model started and verified successfully'',
        er_model_alias = ''m'', er_model_path = ''/models/m.gguf'', er_startup_triggered = True,
        er_server_ready = True, er_model_verified = True,
        er_llama_server = Some \<lparr>ui_unit_name = ''llama-server'', ui_active_state = ''active'',
          ui_sub_state = ''unknown'', ui_description = []\<rparr>\<rparr>, \<lparr>clock = 1067, env = 0\<rparr>)"
    by (simp add: ensure_started_eval)
  with ensure_started_contract [OF this] show ?thesis by simp
qed

text \<open>
  A unit that is already active is not started again: where \<open>is_active\<close> says so, the
  answer and the final world are the same whatever \<open>start_unit\<close> would do.
\<close>

theorem active_unit_not_started:
  assumes "\<exists>d e. is_active (h_sys h) (unit_for (h_config h) t) (env w) = (Ok True, d, e)"
  shows "ensure_started parse (h\<lparr>h_sys := (h_sys h)\<lparr>start_unit := f\<rparr>\<rparr>) t alias path w
       = ensure_started parse h t alias path w"
proof -
  let ?h = "h\<lparr>h_sys := (h_sys h)\<lparr>start_unit := f\<rparr>\<rparr>"
  have unit: "collect_unit_info ?h u = collect_unit_info h u" for u
    by (rule ext) (simp add: collect_unit_info_def)
  have alive: "is_server_alive ?h port = is_server_alive h port" for port
    by (rule ext) (simp add: is_server_alive_def)
  have poll: "poll_server ?h port dl v = poll_server h port dl v" for port dl v
    by (induction h port dl v rule: poll_server.induct)
       (subst (1 2) poll_server.simps, simp add: is_server_alive_def split: prod.splits bool.splits)
  have info: "unit_info_or ?h = unit_info_or h"
    by (intro ext) (simp add: unit_info_or_def unit)
  have ident: "check_model_identity parse ?h = check_model_identity parse h"
    by (intro ext) (simp add: check_model_identity_def)
  have verify: "verify_model parse ?h = verify_model parse h"
    unfolding verify_model_def info ident ..
  from assms have start: "start_if_inactive ?h (unit_for (h_config h) t) w
      = start_if_inactive h (unit_for (h_config h) t) w"
    by (auto simp: start_if_inactive_def call_def)
  have cfg: "h_config ?h = h_config h" by simp
  show ?thesis
    unfolding ensure_started_def Let_def cfg start wait_for_server_def poll info verify ..
qed

theorem active_unit_not_started_witness:
  "ensure_started example_parse
     ((example_helper True ''m'')\<lparr>h_sys := (example_sys True)\<lparr>start_unit := (\<lambda>u e. (Err ''boom'', 1, 9))\<rparr>\<rparr>)
     TChat ''m'' ''m'' \<lparr>clock = 0, env = 0\<rparr>
   = ensure_started example_parse (example_helper True ''m'') TChat ''m'' ''m'' \<lparr>clock = 0, env = 0\<rparr>"
proof -
  have sys: "h_sys (example_helper True ''m'') = example_sys True"
    by (simp add: example_helper_def)
  have "\<exists>d e. is_active (h_sys (example_helper True ''m''))
      (unit_for (h_config (example_helper True ''m'')) TChat)
      (env \<lparr>clock = 0, env = 0\<rparr>) = (Ok True, d, e)"
    by (simp add: example_defs)
  from active_unit_not_started [OF this] show ?thesis by (simp add: sys)
qed

text \<open>
  What the verdict is when nothing moves: for an active unit whose server keeps answering
  with a text that reads as the JSON value \<open>v\<close>, and a positive timeout that the clock can
  hold, the status is a function of the identifier of the first model.
\<close>

definition verdict :: "string option \<Rightarrow> string \<Rightarrow> helper_status" where
  "verdict reported path = (case reported of
       Some mid \<Rightarrow> if path_matches mid path then HsOk else HsMismatch
     | None \<Rightarrow> HsError)"

lemma verify_model_verdict:
  assumes "\<forall>e. \<exists>d e'. get_text (h_http h) (build_server_url port ''/v1/models'') e = (Ok doc, d, e')"
    and "parse doc = Ok v"
  shows "er_status (fst (verify_model parse h unit port alias path started w))
       = verdict (reported_model_id v) path"
proof -
  obtain d e' where "get_text (h_http h) (build_server_url port ''/v1/models'') (env w) = (Ok doc, d, e')"
    using assms(1) by blast
  with assms(2) show ?thesis
    by (simp add: verify_model_def check_model_identity_def call_def verdict_def Let_def
        split: option.split prod.split)
qed

text \<open>
  C35: The verdict on a running server. An active unit whose server answers at once is judged
  by the identifier of the first model it lists: no identifier is an error, an identifier
  that contains the expected path or is contained in it is \<open>ok\<close>, any other is a mismatch;
  and nothing was started. In particular the empty identifier verifies every path.
\<close>

theorem active_unit_verdict:
  assumes "\<exists>d e. is_active (h_sys h) (unit_for (h_config h) t) (env w) = (Ok True, d, e)"
    and "\<forall>e. \<exists>d e'. get_text (h_http h) (build_server_url (port_for (h_config h) t) ''/v1/models'') e
             = (Ok doc, d, e')"
    and "parse doc = Ok v"
    and "0 < server_start_timeout_secs (h_config h)"
    and "clock (snd (call (is_active (h_sys h) (unit_for (h_config h) t)) w)) div 1000
           + unat (server_start_timeout_secs (h_config h)) < 2 ^ 63"
  shows "\<exists>r w'. ensure_started parse h t alias path w = Some (r, w')
    \<and> er_status r = verdict (reported_model_id v) path \<and> \<not> er_startup_triggered r
    \<and> (reported_model_id v = Some [] \<longrightarrow> er_status r = HsOk)"
proof -
  let ?u = "unit_for (h_config h) t" and ?p = "port_for (h_config h) t"
  obtain d e where act: "is_active (h_sys h) ?u (env w) = (Ok True, d, e)"
    using assms(1) by blast
  let ?w1 = "\<lparr>clock = clock w + d, env = e\<rparr>"
  obtain d2 e2 where got: "get_text (h_http h) (build_server_url ?p ''/v1/models'') e = (Ok doc, d2, e2)"
    using assms(2) by blast
  let ?w2 = "\<lparr>clock = clock w + d + d2, env = e2\<rparr>"
  have start: "start_if_inactive h ?u w = (Ok False, ?w1)"
    by (simp add: start_if_inactive_def call_def act)
  have alive: "is_server_alive h ?p ?w1 = (True, ?w2)"
    by (simp add: is_server_alive_def call_def got)
  have "0 < unat (server_start_timeout_secs (h_config h))"
    using assms(4) by (simp add: unat_gt_0)
  moreover have "instant_add_secs (clock ?w1) (server_start_timeout_secs (h_config h))
      = Some (clock ?w1 + 1000 * unat (server_start_timeout_secs (h_config h)))"
    using assms(5) by (simp add: instant_add_secs_def call_def act)
  ultimately have wait: "wait_for_server h ?p (server_start_timeout_secs (h_config h)) ?w1 = Some (True, ?w2)"
    by (simp add: wait_for_server_def poll_server_step alive)
  obtain r w' where ver: "verify_model parse h ?u ?p alias path False ?w2 = (r, w')"
    by (cases "verify_model parse h ?u ?p alias path False ?w2")
  have "ensure_started parse h t alias path w = Some (r, w')"
    by (simp add: ensure_started_def start wait ver)
  moreover have "er_status r = verdict (reported_model_id v) path"
    using verify_model_verdict [where h = h and port = ?p and doc = doc and parse = parse and v = v, OF assms(2,3),
      of ?u "alias" path False ?w2] ver by simp
  moreover have "\<not> er_startup_triggered r" using verify_model_fields [OF ver] by simp
  ultimately show ?thesis by (auto simp: verdict_def path_matches_Nil)
qed

definition steady_http :: "string \<Rightarrow> nat server_check" where
  "steady_http mid = \<lparr>get_text = (\<lambda>url e. (Ok mid, 10, e))\<rparr>"

theorem active_unit_verdict_witness:
  "(\<exists>r w'. ensure_started example_parse ((example_helper True [])\<lparr>h_http := steady_http []\<rparr>) TChat
      ''m'' ''/models/m.gguf'' \<lparr>clock = 0, env = 0\<rparr> = Some (r, w') \<and> er_status r = HsOk)
   \<and> verdict (Some ''other'') ''/models/m.gguf'' = HsMismatch"
proof -
  let ?h = "(example_helper True [])\<lparr>h_http := steady_http []\<rparr>" and ?w = "\<lparr>clock = 0, env = 0\<rparr>"
  let ?v = "JObject [(''data'', JArray [JObject [(''id'', JString [])]])]"
  have 1: "\<exists>d e. is_active (h_sys ?h) (unit_for (h_config ?h) TChat) (env ?w) = (Ok True, d, e)"
    by (simp add: example_defs)
  have 2: "\<forall>e. \<exists>d e'. get_text (h_http ?h) (build_server_url (port_for (h_config ?h) TChat) ''/v1/models'') e
      = (Ok [], d, e')"
    by (simp add: steady_http_def)
  have 3: "example_parse [] = Ok ?v" by (simp add: example_defs)
  have 4: "0 < server_start_timeout_secs (h_config ?h)" by (simp add: example_defs)
  have 5: "clock (snd (call (is_active (h_sys ?h) (unit_for (h_config ?h) TChat)) ?w)) div 1000
      + unat (server_start_timeout_secs (h_config ?h)) < 2 ^ 63"
    by (simp add: example_defs call_def)
  have mid: "reported_model_id ?v = Some []"
    by (simp add: reported_model_id_def json_get_def json_as_array_def json_as_str_def)
  have "verdict (Some ''other'') ''/models/m.gguf'' = HsMismatch" by code_simp
  with active_unit_verdict [where h = ?h and t = TChat and w = ?w and doc = "[]" and v = ?v
      and parse = example_parse, OF 1 2 3 4 5, of "''m''" "''/models/m.gguf''"] mid show ?thesis by blast
qed

text \<open>
  C29: Waiting for a server ends. The wait panics exactly when the deadline does not fit the
  clock; otherwise it returns; a positive answer is a poll that began before the deadline and
  succeeded; a negative one is given only after the deadline; and where one poll takes at most
  \<open>d\<close> milliseconds the wait is over at most \<open>d + 500\<close> milliseconds after the deadline.
\<close>

theorem wait_for_server_bounded:
  assumes "\<And>e. fst (snd (get_text (h_http h) (build_server_url port ''/v1/models'') e)) \<le> d"
  shows "case wait_for_server h port secs w of
      None \<Rightarrow> 2 ^ 63 \<le> clock w div 1000 + unat secs
    | Some (found, w') \<Rightarrow>
        clock w div 1000 + unat secs < 2 ^ 63
        \<and> clock w' \<le> clock w + 1000 * unat secs + d + 500
        \<and> (found \<or> clock w + 1000 * unat secs \<le> clock w')
        \<and> (found \<longrightarrow> (\<exists>w1. clock w \<le> clock w1 \<and> clock w1 < clock w + 1000 * unat secs
              \<and> is_server_alive h port w1 = (True, w')))"
proof (cases "instant_add_secs (clock w) secs")
  case None
  then show ?thesis by (simp add: wait_for_server_def instant_add_secs_def split: if_splits)
next
  case (Some deadline)
  then have dl: "deadline = clock w + 1000 * unat secs" "clock w div 1000 + unat secs < 2 ^ 63"
    by (auto simp: instant_add_secs_def split: if_splits)
  obtain b w' where poll: "poll_server h port deadline w = (b, w')"
    by (cases "poll_server h port deadline w")
  have "clock w' \<le> max (clock w) (deadline + d + 500) \<and> (b \<or> deadline \<le> clock w')"
    using assms poll by (rule poll_server_stops)
  moreover have "b \<Longrightarrow> \<exists>w1. clock w \<le> clock w1 \<and> clock w1 < deadline \<and> is_server_alive h port w1 = (True, w')"
    using poll_server_True poll by simp
  ultimately show ?thesis using Some dl poll by (simp add: wait_for_server_def)
qed

theorem wait_for_server_bounded_witness:
  "case wait_for_server (example_helper True ''m'') 8080 2 \<lparr>clock = 0, env = 9\<rparr> of
     None \<Rightarrow> False
   | Some (found, w') \<Rightarrow> \<not> found \<and> 2000 \<le> clock w' \<and> clock w' \<le> 2510"
proof -
  have "wait_for_server (example_helper True ''m'') 8080 2 \<lparr>clock = 0, env = 9\<rparr>
      = Some (False, \<lparr>clock = 2040, env = 5\<rparr>)"
    by (simp add: ensure_started_eval poll_server.simps [of _ _ _ "\<lparr>clock = 2040, env = 5\<rparr>"])
  moreover have "fst (snd (get_text (h_http (example_helper True ''m'')) url e)) \<le> 10" for url e
    by (simp add: example_defs)
  note wait_for_server_bounded [OF this, of "\<lparr>clock = 0, env = 9\<rparr>" 2]
  ultimately show ?thesis by simp
qed

text \<open>
  C38: A lease lasts between a minute and a day: the time asked for is clamped to that range
  and reported, and it is what the holder is started with; a lease is granted only if the
  holder's unit was seen active afterwards, and only a granted lease is called renewed.
\<close>

theorem lease_acquire_contract:
  "case lease_acquire h ttl w of (r, w') \<Rightarrow>
     60 \<le> la_ttl_secs r \<and> la_ttl_secs r \<le> 86400
     \<and> la_ttl_secs r = (if ttl < 60 then 60 else if 86400 < ttl then 86400 else ttl)
     \<and> la_status r \<noteq> HsMismatch
     \<and> (la_status r = HsOk) = (\<exists>u. la_inhibit_holder r = Some u \<and> ui_active_state u = ''active'')
     \<and> (la_renewed r \<and> la_status r = HsOk) = la_renewed r
     \<and> r = fst (lease_acquire (h\<lparr>h_sys := (h_sys h)\<lparr>replace_transient_unit := (\<lambda>u m args.
             if args = inhibit_args (la_ttl_secs r) then replace_transient_unit (h_sys h) u m args
             else (\<lambda>e. (Err ''wrong'', 0, e)))\<rparr>\<rparr>) ttl w)"
proof -
  obtain r w' where r: "lease_acquire h ttl w = (r, w')" by (cases "lease_acquire h ttl w")
  let ?ttl = "clamp_u64 ttl 60 86400"
  have bounds: "60 \<le> ?ttl \<and> ?ttl \<le> 86400" by (rule clamp_u64_bounds) simp
  have ttl: "la_ttl_secs r = ?ttl"
    using r by (auto simp: lease_acquire_def Let_def split: prod.splits sum.splits if_splits)
  have st: "la_status r \<noteq> HsMismatch
      \<and> (la_status r = HsOk) = (\<exists>u. la_inhibit_holder r = Some u \<and> ui_active_state u = ''active'')
      \<and> (la_renewed r \<and> la_status r = HsOk) = la_renewed r"
    using r by (auto simp: lease_acquire_def Let_def dest: collect_unit_info_Some
        split: prod.splits sum.splits if_splits)
  let ?h = "h\<lparr>h_sys := (h_sys h)\<lparr>replace_transient_unit := (\<lambda>u m args.
             if args = inhibit_args (la_ttl_secs r) then replace_transient_unit (h_sys h) u m args
             else (\<lambda>e. (Err ''wrong'', 0, e)))\<rparr>\<rparr>"
  have "collect_unit_info ?h = collect_unit_info h"
    by (intro ext) (simp add: collect_unit_info_def)
  then have "lease_acquire ?h ttl w = lease_acquire h ttl w"
    using ttl by (simp add: lease_acquire_def Let_def cong: prod.case_cong sum.case_cong)
  with r have same: "r = fst (lease_acquire ?h ttl w)" by simp
  have "la_ttl_secs r = (if ttl < 60 then 60 else if 86400 < ttl then 86400 else ttl)"
    using ttl by (simp add: clamp_u64_def)
  moreover have "60 \<le> la_ttl_secs r" "la_ttl_secs r \<le> 86400" using ttl bounds by simp_all
  ultimately show ?thesis unfolding r prod.case using st same by blast
qed

end
