(* ===== verification/Helper_Main.thy ===== *)
theory Helper_Main
  imports Helper
begin

text \<open>
  The helper's command line (\<open>src/src/bin/helper.rs\<close>): the arguments are looked at, one
  method of the helper runs, its response is printed as one line of JSON on the standard
  output (here the response itself; \<open>serde_json\<close> prints it) and the exit code tells success.
  \<open>hr_stderr\<close> holds the lines this file prints on the standard error (the progress lines of
  \<open>helper.rs\<close> go there as well and are left out). A panic of the helper exits with 101.
\<close>

datatype helper_output =
    OStatus status_response
  | OEnsure ensure_started_response
  | OAcquire lease_acquire_response
  | ORelease lease_release_response
  | OInspect lease_inspect_response

record helper_run =
  hr_stdout :: "helper_output option"
  hr_stderr :: "string list"
  hr_exit :: nat

definition arg_get :: "string list \<Rightarrow> nat \<Rightarrow> string option" where
  "arg_get args i = (if i < length args then Some (args ! i) else None)"

definition exit_for_status :: "helper_status \<Rightarrow> string option \<Rightarrow> string list \<times> nat" where
  "exit_for_status st stderr_msg = (case st of HsOk \<Rightarrow> ([], 0)
     | _ \<Rightarrow> ((case stderr_msg of None \<Rightarrow> [] | Some msg \<Rightarrow> [msg]), 1))"

definition default_ttl :: u64 where "default_ttl = 900"

definition parse_ttl_arg :: "string list \<Rightarrow> nat \<Rightarrow> string list \<times> u64" where
  "parse_ttl_arg args pos = (case arg_get args pos of
       None \<Rightarrow> ([], default_ttl)
     | Some flag \<Rightarrow>
         if flag = ''--ttl'' then
           (case arg_get args (pos + 1) of
              Some v \<Rightarrow> (case parse_u64 v of
                  Some ttl \<Rightarrow> ([], ttl)
                | None \<Rightarrow> ([''Warning: --ttl value '' @ [CHR 0x27] @ v @ [CHR 0x27]
                     @ '' is not a valid number, using default 900''], default_ttl))
            | None \<Rightarrow> ([''Warning: --ttl requires a value, using default 900''], default_ttl))
         else ([''Warning: unexpected argument '' @ [CHR 0x27] @ flag @ [CHR 0x27]
                 @ '', use --ttl <secs>''], default_ttl))"

definition ensure_usage :: "string list" where
  "ensure_usage = [''Usage: helper ensure-started <chat|embeddings> <model-alias>'', [],
     ''Environment:'',
     ''  EXPECTED_MODEL_PATH    Path to verify against running server'',
     ''  LLAMA_SERVER_UNIT      systemd unit name (default: llama-server)'',
     ''  LLAMA_SERVER_PORT      Port for server health check (default: 8080)'',
     ''  LLAMA_SERVER_EMBEDDINGS_UNIT  systemd unit name (default: llama-server-embeddings)'',
     ''  LLAMA_SERVER_EMBEDDINGS_PORT  Port for embeddings server health check (default: 8081)'',
     ''  SERVER_START_TIMEOUT_SECS  How long to wait for server (default: 60)'']"

definition lease_usage :: "string list" where
  "lease_usage = [''Usage: helper lease <acquire|release|inspect>'', [],
     ''  acquire [--ttl <secs>]    Create or renew inhibit lease'',
     ''  release                  Stop inhibit lease'',
     ''  inspect                  Show current lease state'', [],
     ''Environment:'',
     ''  INHIBIT_HOLDER_UNIT    systemd unit name (default: llm-wake-proxy-inhibit)'']"

definition main_usage :: "string list" where
  "main_usage = [''Usage:'',
     ''  helper status                              Show host unit and model status'',
     ''  helper ensure-started <chat|embeddings> <alias>  Start and verify model server'',
     ''  helper lease <acquire|release|inspect>     Manage inhibit lease'', [],
     ''Environment:'',
     ''  EXPECTED_MODEL_PATH    Path to the model file for verification'',
     ''  LLAMA_SERVER_UNIT      systemd unit name (default: llama-server)'',
     ''  INHIBIT_HOLDER_UNIT    systemd unit name (default: llm-wake-proxy-inhibit)'',
     ''  LLAMA_SERVER_PORT      Port for server health check (default: 8080)'',
     ''  LLAMA_SERVER_EMBEDDINGS_UNIT  systemd unit name (default: llama-server-embeddings)'',
     ''  LLAMA_SERVER_EMBEDDINGS_PORT  Port for embeddings server health check (default: 8081)'',
     ''  SERVER_START_TIMEOUT_SECS  How long to wait for server (default: 60)'']"

definition refused :: "string list \<Rightarrow> helper_run" where
  "refused err = \<lparr>hr_stdout = None, hr_stderr = err, hr_exit = 1\<rparr>"

definition answered :: "helper_output \<Rightarrow> string list \<times> nat \<Rightarrow> helper_run" where
  "answered out e = \<lparr>hr_stdout = Some out, hr_stderr = fst e, hr_exit = snd e\<rparr>"

definition panicked :: helper_run where
  "panicked = \<lparr>hr_stdout = None, hr_stderr = [], hr_exit = 101\<rparr>"

definition ensure_exit :: "ensure_started_response \<Rightarrow> string list \<times> nat" where
  "ensure_exit r = (case er_status r of
       HsOk \<Rightarrow> ([], 0)
     | HsMismatch \<Rightarrow> ([''Model mismatch: '' @ er_message r], 1)
     | HsError \<Rightarrow> ([''Error: '' @ er_message r], 1))"

definition run_ensure_started ::
  "(string \<Rightarrow> (string, json) res) \<Rightarrow> 'e helper \<Rightarrow> string list \<Rightarrow> (string \<rightharpoonup> string) \<Rightarrow> 'e world
   \<Rightarrow> helper_run \<times> 'e world" where
  "run_ensure_started parse h args vars w =
     (case map_option from_str (arg_get args 2) of
        Some (Inl e) \<Rightarrow> (refused (e # ensure_usage), w)
      | None \<Rightarrow> (refused ensure_usage, w)
      | Some (Inr target) \<Rightarrow>
          (case arg_get args 3 of
             None \<Rightarrow> (refused ensure_usage, w)
           | Some model_alias \<Rightarrow>
               (case opt_filter (\<lambda>path. path \<noteq> []) (vars ''EXPECTED_MODEL_PATH'') of
                  None \<Rightarrow> (refused [''EXPECTED_MODEL_PATH must be set for ensure-started''], w)
                | Some model_path \<Rightarrow>
                    (case ensure_started parse h target model_alias model_path w of
                       None \<Rightarrow> (panicked, w)
                     | Some (response, w) \<Rightarrow>
                         (answered (OEnsure response) (ensure_exit response), w)))))"

definition run_lease :: "'e helper \<Rightarrow> string list \<Rightarrow> 'e world \<Rightarrow> helper_run \<times> 'e world" where
  "run_lease h args w =
     (let lease_cmd = arg_get args 2 in
      if lease_cmd = Some ''acquire'' then
        (case parse_ttl_arg args 3 of (warnings, ttl) \<Rightarrow>
         case lease_acquire h ttl w of (response, w) \<Rightarrow>
         case exit_for_status (la_status response) (Some (la_message response)) of (err, code) \<Rightarrow>
           (answered (OAcquire response) (warnings @ err, code), w))
      else if lease_cmd = Some ''release'' then
        (case lease_release h w of (response, w) \<Rightarrow>
           (answered (ORelease response) (exit_for_status (lr_status response) (Some (lr_message response))), w))
      else if lease_cmd = Some ''inspect'' then
        (case lease_inspect h w of (response, w) \<Rightarrow>
           (answered (OInspect response) (exit_for_status (li_status response) None), w))
      else (refused lease_usage, w))"

definition helper_main ::
  "(string \<Rightarrow> (string, json) res) \<Rightarrow> 'e run_command \<Rightarrow> string list \<Rightarrow> (string \<rightharpoonup> string) \<Rightarrow> 'e world
   \<Rightarrow> helper_run \<times> 'e world" where
  "helper_main parse run args vars w =
     (let h = helper_new run (helper_config_from_env vars); subcommand = arg_get args 1 in
      if subcommand = Some ''status'' then
        (case status parse h w of (response, w) \<Rightarrow>
           (answered (OStatus response) (exit_for_status (sr_status response) None), w))
      else if subcommand = Some ''ensure-started'' then run_ensure_started parse h args vars w
      else if subcommand = Some ''lease'' then run_lease h args w
      else (refused main_usage, w))"

section \<open>Properties\<close>

text \<open>Did the run do what it was asked, as far as the response says?\<close>

definition output_ok :: "helper_output \<Rightarrow> bool" where
  "output_ok out = (case out of OStatus r \<Rightarrow> sr_status r = HsOk | OEnsure r \<Rightarrow> er_status r = HsOk
     | OAcquire r \<Rightarrow> la_status r = HsOk | ORelease r \<Rightarrow> lr_status r = HsOk
     | OInspect r \<Rightarrow> li_status r = HsOk)"

lemma exit_for_status_code: "snd (exit_for_status st msg) = 0 \<longleftrightarrow> st = HsOk"
  by (simp add: exit_for_status_def split: helper_status.split)

lemma ensure_exit_code: "snd (ensure_exit r) = 0 \<longleftrightarrow> er_status r = HsOk"
  by (simp add: ensure_exit_def split: helper_status.split)

lemma run_lease_exit:
  "run_lease h args w = (r, w') \<Longrightarrow> hr_exit r = 0 \<longleftrightarrow> (\<exists>out. hr_stdout r = Some out \<and> output_ok out)"
  using exit_for_status_code
  by (auto simp: run_lease_def Let_def answered_def refused_def output_ok_def
      split: prod.splits if_splits)
     (metis snd_conv)+

lemma run_ensure_started_exit:
  "run_ensure_started parse h args vars w = (r, w') \<Longrightarrow>
     hr_exit r = 0 \<longleftrightarrow> (\<exists>out. hr_stdout r = Some out \<and> output_ok out)"
  by (auto simp: run_ensure_started_def answered_def refused_def panicked_def output_ok_def ensure_exit_code
      split: prod.splits option.splits sum.splits)

text \<open>
  C30: The exit code of the helper. It is 0 exactly when the run printed a response and the
  status of that response is \<open>ok\<close>; so a mismatch, an error, a usage mistake and a panic all
  fail, and a successful \<open>ensure-started\<close> has printed a verified model.
\<close>

theorem helper_exit_code:
  "case helper_main parse run args vars w of (r, w') \<Rightarrow>
     (hr_exit r = 0) = (\<exists>out. hr_stdout r = Some out \<and> output_ok out)
     \<and> (\<forall>er. (hr_exit r = 0 \<and> hr_stdout r = Some (OEnsure er)) =
          (hr_stdout r = Some (OEnsure er) \<and> er_model_verified er))"
proof -
  obtain r w' where r: "helper_main parse run args vars w = (r, w')"
    by (cases "helper_main parse run args vars w")
  let ?h = "helper_new run (helper_config_from_env vars)"
  have code: "(hr_exit r = 0) = (\<exists>out. hr_stdout r = Some out \<and> output_ok out)"
    using r run_lease_exit [of ?h args w r w'] run_ensure_started_exit [of parse ?h args vars w r w']
    by (auto simp: helper_main_def Let_def answered_def refused_def output_ok_def exit_for_status_code
        split: prod.splits if_splits)
  have "(er_status er = HsOk) = er_model_verified er" if "hr_stdout r = Some (OEnsure er)" for er
  proof -
    have "\<exists>t al path w'. ensure_started parse ?h t al path w = Some (er, w')"
      using r that
      by (auto simp: helper_main_def run_ensure_started_def run_lease_def Let_def answered_def
          refused_def panicked_def split: prod.splits option.splits sum.splits if_splits) blast
    then show ?thesis using ensure_started_verified by blast
  qed
  with code r show ?thesis by (auto simp: output_ok_def)
qed

end
