(* ===== verification/Lifecycle.thy ===== *)
theory Lifecycle
  imports Prelude
begin

text \<open>
  \<open>src/src/lifecycle.rs\<close>, the operations of one task at a time: the backend status, the
  traits the manager is built on (as records of calls to the outside), one observation of
  the host (\<open>observe_once\<close>), the bootstrap bookkeeping, the background bootstrap loop, the
  wait for its result and \<open>ensure_backend\<close>. The interleaving of many requests with the
  background task is the subject of \<open>Lifecycle_System\<close>, which uses the same pieces.
\<close>

section \<open>Data\<close>

datatype lifecycle_state = LsCold | LsWarming | LsReady | LsError
datatype capability_state = CsReady | CsDegraded
datatype tunnel_state = TsDown | TsConnecting | TsReady
datatype unit_state = UsUnknown | UsInactive | UsActivating | UsActive | UsFailed
datatype lifecycle_request = Chat | Embeddings
datatype lifecycle_error = LifecycleError (le_message: string)

type_synonym timestamp = u64

record backend_status =
  bs_lifecycle :: lifecycle_state
  bs_chat :: capability_state
  bs_embeddings :: capability_state
  bs_embeddings_reason :: "string option"
  bs_tunnel :: tunnel_state
  bs_last_wake_attempt_at :: "timestamp option"
  bs_lease_expires_at :: "timestamp option"
  bs_llama_server_unit :: unit_state
  bs_inhibit_unit :: unit_state

definition backend_status_default :: backend_status where
  "backend_status_default = \<lparr>bs_lifecycle = LsCold, bs_chat = CsReady, bs_embeddings = CsReady,
     bs_embeddings_reason = None, bs_tunnel = TsDown, bs_last_wake_attempt_at = None,
     bs_lease_expires_at = None, bs_llama_server_unit = UsUnknown, bs_inhibit_unit = UsUnknown\<rparr>"

record observed_backend_state =
  ob_lifecycle :: lifecycle_state
  ob_chat :: capability_state
  ob_embeddings :: capability_state
  ob_embeddings_reason :: "string option"
  ob_error :: "string option"
  ob_llama_server_unit :: unit_state
  ob_inhibit_unit :: unit_state

datatype lifecycle_decision =
    DReady backend_status
  | DWarming backend_status u64
  | DFailed backend_status lifecycle_error

primrec decision_status :: "lifecycle_decision \<Rightarrow> backend_status" where
  "decision_status (DReady s) = s"
| "decision_status (DWarming s r) = s"
| "decision_status (DFailed s e) = s"

text \<open>
  The traits \<open>WakeRequester\<close>, \<open>SshReadinessProbe\<close>, \<open>HelperRpc\<close>, \<open>TunnelOwner\<close> and \<open>Clock\<close>.
\<close>

record 'e ports =
  request_wake :: "lifecycle_request \<Rightarrow> ('e, (lifecycle_error, unit) res) ext_call"
  is_ready :: "('e, (lifecycle_error, bool) res) ext_call"
  observe_backend :: "lifecycle_request \<Rightarrow> ('e, (lifecycle_error, observed_backend_state) res) ext_call"
  ensure_tunnel :: "('e, (lifecycle_error, tunnel_state) res) ext_call"
  now :: "'e world \<Rightarrow> timestamp"

record lifecycle_timing =
  cold_wait_budget_secs :: u64
  hard_boot_deadline_secs :: u64
  bootstrap_poll_interval_millis :: u64
  retry_after_secs :: u64

text \<open>
  \<open>LifecycleTiming::default\<close> reads the environment (a map, as in \<open>Config\<close>); a value that
  does not parse is replaced by the default, and zero is accepted. \<open>parse\<close> is the
  \<open>u64\<close> parser of the standard library.
\<close>

definition read_env_or :: "(string \<Rightarrow> u64 option) \<Rightarrow> (string \<rightharpoonup> string) \<Rightarrow> string \<Rightarrow> u64 \<Rightarrow> u64" where
  "read_env_or parse e name dflt = unwrap_or dflt (Option.bind (e name) parse)"

definition timing_default :: "(string \<Rightarrow> u64 option) \<Rightarrow> (string \<rightharpoonup> string) \<Rightarrow> lifecycle_timing" where
  "timing_default parse e =
     \<lparr>cold_wait_budget_secs = read_env_or parse e ''COLD_WAIT_BUDGET_SECS'' 90,
      hard_boot_deadline_secs = read_env_or parse e ''HARD_BOOT_DEADLINE_SECS'' 300,
      bootstrap_poll_interval_millis = read_env_or parse e ''BOOTSTRAP_POLL_INTERVAL_MS'' 1000,
      retry_after_secs = read_env_or parse e ''RETRY_AFTER_SECS'' 10\<rparr>"

record bootstrap_state =
  bt_active :: bool
  bt_last_error :: "lifecycle_error option"
  bt_observe_request :: lifecycle_request

definition bootstrap_default :: bootstrap_state where
  "bootstrap_default = \<lparr>bt_active = False, bt_last_error = None, bt_observe_request = Chat\<rparr>"

text \<open>
  The mutable part of \<open>LifecycleCore\<close>: the value of the watch channel with the number of
  values sent on it, and the bootstrap state behind its mutex.
\<close>

record core =
  co_status :: backend_status
  co_version :: nat
  co_bootstrap :: bootstrap_state

definition core_new :: "backend_status \<Rightarrow> core" where
  "core_new initial = \<lparr>co_status = initial, co_version = 0, co_bootstrap = bootstrap_default\<rparr>"

section \<open>Small functions\<close>

definition should_request_wake :: "lifecycle_state \<Rightarrow> bool" where
  "should_request_wake l = (l \<in> {LsCold, LsReady, LsError})"

definition backend_is_ready :: "backend_status \<Rightarrow> bool" where
  "backend_is_ready s = (bs_lifecycle s = LsReady \<and> bs_tunnel s = TsReady)"

definition request_priority :: "lifecycle_request \<Rightarrow> u8" where
  "request_priority r = (case r of Chat \<Rightarrow> 0 | Embeddings \<Rightarrow> 1)"

text \<open>The derived order of the requests is the one of their priorities.\<close>

instantiation lifecycle_request :: linorder
begin

definition less_eq_lifecycle_request :: "lifecycle_request \<Rightarrow> lifecycle_request \<Rightarrow> bool" where
  "less_eq_lifecycle_request r s = (request_priority r \<le> request_priority s)"

definition less_lifecycle_request :: "lifecycle_request \<Rightarrow> lifecycle_request \<Rightarrow> bool" where
  "less_lifecycle_request r s = (request_priority r < request_priority s)"

instance
  by standard (auto simp: less_eq_lifecycle_request_def less_lifecycle_request_def request_priority_def
      split: lifecycle_request.splits)

end

definition bootstrap_wait_status :: "backend_status \<Rightarrow> bool \<Rightarrow> backend_status" where
  "bootstrap_wait_status s stale =
     (if stale then s\<lparr>bs_lifecycle := LsWarming, bs_tunnel := TsDown\<rparr> else s)"

definition publish :: "backend_status \<Rightarrow> core \<Rightarrow> core" where
  "publish s c = c\<lparr>co_status := s, co_version := Suc (co_version c)\<rparr>"

definition failed_status :: "backend_status \<Rightarrow> backend_status" where
  \<comment> \<open>the two assignments that precede every \<open>Failed\<close>: lifecycle \<open>Error\<close>, tunnel \<open>Down\<close>\<close>
  "failed_status s = s\<lparr>bs_lifecycle := LsError, bs_tunnel := TsDown\<rparr>"

section \<open>One observation\<close>

definition backend_error_default :: lifecycle_error where
  "backend_error_default = LifecycleError ''backend reported error state''"

text \<open>The branch of \<open>observe_once\<close> where SSH does not answer yet.\<close>

definition observe_unreachable ::
  "'e ports \<Rightarrow> lifecycle_timing \<Rightarrow> lifecycle_request option \<Rightarrow> backend_status \<Rightarrow> core \<Rightarrow> 'e world
   \<Rightarrow> lifecycle_decision \<times> core \<times> 'e world" where
  "observe_unreachable P tm wake_request status c w =
     (let warming = (\<lambda>st c w.
            let st = st\<lparr>bs_lifecycle := LsWarming, bs_tunnel := TsDown\<rparr>
            in (DWarming st (retry_after_secs tm), publish st c, w))
      in case opt_filter (\<lambda>_. should_request_wake (bs_lifecycle status)) wake_request of
           None \<Rightarrow> warming status c w
         | Some r \<Rightarrow>
             (let st = status\<lparr>bs_last_wake_attempt_at := Some (now P w), bs_tunnel := TsDown\<rparr>
              in case call (request_wake P r) w of
                   (Inl error, w) \<Rightarrow> (DFailed (st\<lparr>bs_lifecycle := LsError\<rparr>) error, c, w)
                 | (Inr _, w) \<Rightarrow> warming st c w))"

definition apply_observed :: "observed_backend_state \<Rightarrow> backend_status \<Rightarrow> backend_status" where
  "apply_observed o' s = s\<lparr>bs_lifecycle := ob_lifecycle o', bs_chat := ob_chat o',
     bs_embeddings := ob_embeddings o', bs_embeddings_reason := ob_embeddings_reason o',
     bs_llama_server_unit := ob_llama_server_unit o', bs_inhibit_unit := ob_inhibit_unit o'\<rparr>"

text \<open>The last part of \<open>observe_once\<close>: the backend is up, the tunnel is ensured.\<close>

definition observe_tunnel ::
  "'e ports \<Rightarrow> lifecycle_timing \<Rightarrow> backend_status \<Rightarrow> core \<Rightarrow> 'e world
   \<Rightarrow> lifecycle_decision \<times> core \<times> 'e world" where
  "observe_tunnel P tm status c w =
     (case call (ensure_tunnel P) w of
        (Inl error, w) \<Rightarrow> (DFailed (failed_status status) error, c, w)
      | (Inr t, w) \<Rightarrow>
          (let st = status\<lparr>bs_tunnel := t\<rparr>;
               st = (if t \<noteq> TsReady then st\<lparr>bs_lifecycle := LsWarming\<rparr> else st)
           in (if bs_lifecycle st = LsReady \<and> bs_tunnel st = TsReady then DReady st
               else DWarming st (retry_after_secs tm), publish st c, w)))"

definition observe_once ::
  "'e ports \<Rightarrow> lifecycle_timing \<Rightarrow> lifecycle_request option \<Rightarrow> lifecycle_request \<Rightarrow> backend_status
   \<Rightarrow> core \<Rightarrow> 'e world \<Rightarrow> lifecycle_decision \<times> core \<times> 'e world" where
  "observe_once P tm wake_request observe_request status c w =
     (case call (is_ready P) w of
        (Inl error, w) \<Rightarrow> (DFailed (failed_status status) error, c, w)
      | (Inr ssh_ready, w) \<Rightarrow>
          if \<not> ssh_ready then observe_unreachable P tm wake_request status c w
          else (case call (observe_backend P observe_request) w of
             (Inl error, w) \<Rightarrow> (DFailed (failed_status status) error, c, w)
           | (Inr observed, w) \<Rightarrow>
               (let st = apply_observed observed status in
                if bs_lifecycle st = LsError then
                  (DFailed (st\<lparr>bs_tunnel := TsDown\<rparr>)
                     (LifecycleError (unwrap_or ''backend reported error state'' (ob_error observed))),
                   c, w)
                else if bs_lifecycle st \<noteq> LsReady then
                  (let st = st\<lparr>bs_tunnel := TsDown\<rparr>
                   in (DWarming st (retry_after_secs tm), publish st c, w))
                else observe_tunnel P tm st c w)))"

section \<open>Bootstrap bookkeeping\<close>

definition start_or_join_bootstrap :: "lifecycle_request \<Rightarrow> core \<Rightarrow> bool \<times> core" where
  "start_or_join_bootstrap request c =
     (let b = co_bootstrap c; should_start = \<not> bt_active b;
          b = (if should_start
               then b\<lparr>bt_active := True, bt_last_error := None, bt_observe_request := request\<rparr>
               else if request_priority (bt_observe_request b) < request_priority request
               then b\<lparr>bt_observe_request := request\<rparr> else b)
      in (should_start, c\<lparr>co_bootstrap := b\<rparr>))"

lemma max_request: "max q r = (if request_priority q < request_priority r then r else q)"
  by (cases q; cases r) (auto simp: max_def less_eq_lifecycle_request_def request_priority_def)

lemma join_observes_max:
  assumes "bt_active (co_bootstrap c)"
  shows "start_or_join_bootstrap r c = (False, c\<lparr>co_bootstrap := (co_bootstrap c)
    \<lparr>bt_observe_request := max (bt_observe_request (co_bootstrap c)) r\<rparr>\<rparr>)"
  using assms
  by (simp add: start_or_join_bootstrap_def Let_def max_request)

definition finish_bootstrap :: "backend_status \<Rightarrow> lifecycle_error option \<Rightarrow> core \<Rightarrow> core" where
  "finish_bootstrap s error c =
     (let c = c\<lparr>co_bootstrap := (co_bootstrap c)\<lparr>bt_last_error := error\<rparr>\<rparr>;
          c = publish s c
      in c\<lparr>co_bootstrap := (co_bootstrap c)\<lparr>bt_active := False\<rparr>\<rparr>)"

section \<open>The background bootstrap\<close>

definition bootstrap_deadline :: "'e ports \<Rightarrow> lifecycle_timing \<Rightarrow> core \<Rightarrow> 'e world \<Rightarrow> nat" where
  "bootstrap_deadline P tm c w =
     (let n = now P w;
          wake_started_at = unwrap_or n (bs_last_wake_attempt_at (co_status c));
          hard_deadline_at = sat_add wake_started_at (hard_boot_deadline_secs tm)
      in clock w + 1000 * unat (sat_sub hard_deadline_at n))"

definition deadline_error :: lifecycle_error where
  "deadline_error = LifecycleError ''backend did not become ready before the boot deadline''"

definition boot_expired :: "core \<Rightarrow> core" where
  "boot_expired c = finish_bootstrap (failed_status (co_status c)) (Some deadline_error) c"

text \<open>
  The loop, undefined if it never ends. The calls of the ports return here; that the program
  bounds none of them is the subject of \<open>hung_call_outlives_deadline\<close> (\<open>Lifecycle_System\<close>). Code
  takes no time but at its pauses and calls, so a loop without a pause over calls that take none
  would not end: see \<open>probe_takes_time\<close>.
\<close>

partial_function (option) bootstrap_loop ::
  "'e ports \<Rightarrow> lifecycle_timing \<Rightarrow> nat \<Rightarrow> core \<Rightarrow> 'e world \<Rightarrow> (core \<times> 'e world) option" where
  "bootstrap_loop P tm deadline c w =
     (if deadline \<le> clock w then Some (boot_expired c, w)
      else
        let w = (if bootstrap_poll_interval_millis tm = 0 then w
                 else sleep_ms (unat (bootstrap_poll_interval_millis tm)) w) in
        if deadline \<le> clock w then Some (boot_expired c, w)
        else
          case observe_once P tm None (bt_observe_request (co_bootstrap c)) (co_status c) c w of
            (decision, c, w) \<Rightarrow>
              (case decision of
                 DReady st \<Rightarrow> Some (finish_bootstrap st None c, w)
               | DFailed st error \<Rightarrow> Some (finish_bootstrap st (Some error) c, w)
               | DWarming st r \<Rightarrow> bootstrap_loop P tm deadline c w))"

definition start_bootstrap ::
  "'e ports \<Rightarrow> lifecycle_timing \<Rightarrow> core \<Rightarrow> 'e world \<Rightarrow> (core \<times> 'e world) option" where
  "start_bootstrap P tm c w = bootstrap_loop P tm (bootstrap_deadline P tm c w) c w"

section \<open>Waiting for the bootstrap\<close>

text \<open>
  One turn of the waiting loop reads the status, the bootstrap state and the time (a view);
  it decides, or goes back to waiting for the next change of the channel.
\<close>

record wait_view =
  wv_status :: backend_status
  wv_active :: bool
  wv_last_error :: "lifecycle_error option"
  wv_now :: nat

definition stale_view :: "wait_view \<Rightarrow> bool" where
  "stale_view v = (wv_active v \<and> bs_lifecycle (wv_status v) \<noteq> LsWarming)"

definition wait_check :: "lifecycle_timing \<Rightarrow> nat \<Rightarrow> wait_view \<Rightarrow> lifecycle_decision option" where
  "wait_check tm wait_deadline v =
     (let stale = stale_view v; status = wv_status v in
      if \<not> stale \<and> backend_is_ready status then Some (DReady status)
      else if \<not> stale \<and> bs_lifecycle status = LsError
        then Some (DFailed status (unwrap_or backend_error_default (wv_last_error v)))
      else if wait_deadline \<le> wv_now v
        then Some (DWarming (bootstrap_wait_status status stale) (retry_after_secs tm))
      else None)"

text \<open>
  The whole wait, given the views the task gets (one per change of the channel) and the
  status it borrows at the end if its time runs out before another change. The view of the
  first turn is always there; running out of views is the timeout.
\<close>

fun wait_loop :: "lifecycle_timing \<Rightarrow> nat \<Rightarrow> wait_view \<Rightarrow> wait_view list \<Rightarrow> backend_status \<Rightarrow> lifecycle_decision" where
  "wait_loop tm wait_deadline v [] final =
     (case wait_check tm wait_deadline v of Some d \<Rightarrow> d
      | None \<Rightarrow> DWarming (bootstrap_wait_status final (stale_view v)) (retry_after_secs tm))"
| "wait_loop tm wait_deadline v (v' # vs) final =
     (case wait_check tm wait_deadline v of Some d \<Rightarrow> d
      | None \<Rightarrow> wait_loop tm wait_deadline v' vs final)"

text \<open>
  What happens around a waiting task (the background bootstrap, other requests): the views
  it gets, the last status, and the state when the wait is over.
\<close>

type_synonym 'e surroundings =
  "bool \<Rightarrow> core \<Rightarrow> 'e world \<Rightarrow> (wait_view \<times> wait_view list \<times> backend_status) \<times> core \<times> 'e world"

definition wait_for_ready_or_timeout ::
  "lifecycle_timing \<Rightarrow> 'e surroundings \<Rightarrow> bool \<Rightarrow> core \<Rightarrow> 'e world
   \<Rightarrow> lifecycle_decision \<times> core \<times> 'e world" where
  "wait_for_ready_or_timeout tm around spawned c w =
     (case around spawned c w of ((v, vs, final), c', w') \<Rightarrow>
        (wait_loop tm (clock w + 1000 * unat (cold_wait_budget_secs tm)) v vs final, c', w'))"

section \<open>The orchestrator's operations\<close>

definition ensure_backend ::
  "'e ports \<Rightarrow> lifecycle_timing \<Rightarrow> 'e surroundings \<Rightarrow> lifecycle_request \<Rightarrow> core \<times> 'e world
   \<Rightarrow> lifecycle_decision \<times> core \<times> 'e world" where
  "ensure_backend P tm around request cw =
     (case cw of (c, w) \<Rightarrow>
      (let initial_status = co_status c; bootstrap_active = bt_active (co_bootstrap c) in
       if \<not> bootstrap_active \<and> backend_is_ready initial_status then (DReady initial_status, c, w)
       else
         (case start_or_join_bootstrap request c of (should_start, c) \<Rightarrow>
          if \<not> should_start then wait_for_ready_or_timeout tm around False c w
          else
            (case observe_once P tm (Some request) (bt_observe_request (co_bootstrap c))
                    initial_status c w of
               (decision, c, w) \<Rightarrow>
                 (case decision of
                    DReady st \<Rightarrow> (DReady st, finish_bootstrap (co_status c) None c, w)
                  | DFailed st error \<Rightarrow> (DFailed st error, finish_bootstrap st (Some error) c, w)
                  | DWarming st r \<Rightarrow> wait_for_ready_or_timeout tm around True c w)))))"

definition degrade_embeddings :: "string \<Rightarrow> core \<Rightarrow> core" where
  "degrade_embeddings reason c =
     publish ((co_status c)\<lparr>bs_embeddings := CsDegraded, bs_embeddings_reason := Some reason\<rparr>) c"

definition mark_warming :: "core \<Rightarrow> core" where
  "mark_warming c = publish ((co_status c)\<lparr>bs_lifecycle := LsWarming, bs_tunnel := TsDown\<rparr>) c"


section \<open>Coherence: ready exactly when the tunnel is\<close>

definition coherent :: "backend_status \<Rightarrow> bool" where
  "coherent s = ((bs_lifecycle s = LsReady) = (bs_tunnel s = TsReady))"

lemma coherent_ready: "coherent s \<Longrightarrow> backend_is_ready s \<longleftrightarrow> bs_lifecycle s = LsReady"
  by (auto simp: coherent_def backend_is_ready_def)

lemma coherent_updates [simp]:
  "coherent (failed_status s)"
  "coherent (s\<lparr>bs_lifecycle := LsWarming, bs_tunnel := TsDown\<rparr>)"
  "coherent (s\<lparr>bs_embeddings := c, bs_embeddings_reason := r\<rparr>) = coherent s"
  "coherent backend_status_default"
  by (simp_all add: coherent_def failed_status_def backend_status_default_def)

lemma coherent_bootstrap_wait_status: "coherent s \<Longrightarrow> coherent (bootstrap_wait_status s b)"
  by (simp add: bootstrap_wait_status_def)

lemma publish_simps [simp]:
  "co_status (publish s c) = s" "co_bootstrap (publish s c) = co_bootstrap c"
  "co_version (publish s c) = Suc (co_version c)"
  by (simp_all add: publish_def)

lemma finish_bootstrap_simps [simp]:
  "co_status (finish_bootstrap s e c) = s"
  "bt_active (co_bootstrap (finish_bootstrap s e c)) = False"
  "bt_last_error (co_bootstrap (finish_bootstrap s e c)) = e"
  "bt_observe_request (co_bootstrap (finish_bootstrap s e c)) = bt_observe_request (co_bootstrap c)"
  by (simp_all add: finish_bootstrap_def)

lemma failed_status_simps [simp]:
  "bs_lifecycle (failed_status s) = LsError" "bs_tunnel (failed_status s) = TsDown"
  "bs_lease_expires_at (failed_status s) = bs_lease_expires_at s"
  "bs_last_wake_attempt_at (failed_status s) = bs_last_wake_attempt_at s"
  by (simp_all add: failed_status_def)

section \<open>What an observation does\<close>

text \<open>
  The shape every decision has: a ready one is ready and is what was published, a warming
  one was published and is not ready, a failed one is an error and nothing was published.
\<close>

definition decision_ok :: "lifecycle_timing \<Rightarrow> lifecycle_decision \<Rightarrow> core \<Rightarrow> core \<Rightarrow> bool" where
  "decision_ok tm d c c' = (case d of
     DReady s \<Rightarrow> backend_is_ready s \<and> c' = publish s c
   | DWarming s r \<Rightarrow> bs_lifecycle s \<notin> {LsReady, LsError} \<and> bs_tunnel s \<noteq> TsReady
                     \<and> r = retry_after_secs tm \<and> c' = publish s c
   | DFailed s e \<Rightarrow> bs_lifecycle s = LsError \<and> bs_tunnel s = TsDown \<and> c' = c)"

lemmas observe_defs = observe_unreachable_def observe_tunnel_def observe_once_def

lemma observe_unreachable_ok:
  "observe_unreachable P tm wr s c w = (d, c', w') \<Longrightarrow> decision_ok tm d c c'"
  by (auto simp: observe_unreachable_def decision_ok_def Let_def
      split: option.splits prod.splits sum.splits)

lemma observe_tunnel_ok:
  "bs_lifecycle s = LsReady \<Longrightarrow> observe_tunnel P tm s c w = (d, c', w') \<Longrightarrow> decision_ok tm d c c'"
  by (auto simp: observe_tunnel_def decision_ok_def backend_is_ready_def Let_def
      split: option.splits prod.splits sum.splits if_splits)

lemma observe_once_ok:
  assumes "observe_once P tm wr r s c w = (d, c', w')"
  shows "decision_ok tm d c c'"
  using assms unfolding observe_once_def
  by (auto simp: Let_def decision_ok_def [of _ "DFailed _ _"] decision_ok_def [of _ "DWarming _ _"]
      split: prod.splits sum.splits if_splits
      intro: observe_unreachable_ok observe_tunnel_ok)

lemma decision_ok_coherent: "decision_ok tm d c c' \<Longrightarrow> coherent (decision_status d)"
  by (cases d) (auto simp: decision_ok_def coherent_def backend_is_ready_def)

lemma decision_ok_core: "decision_ok tm d c c' \<Longrightarrow> coherent (co_status c) \<Longrightarrow> coherent (co_status c')"
  using decision_ok_coherent [of tm d c c'] by (cases d) (auto simp: decision_ok_def)

lemma decision_ok_bootstrap: "decision_ok tm d c c' \<Longrightarrow> co_bootstrap c' = co_bootstrap c"
  by (cases d) (auto simp: decision_ok_def)

lemma observe_once_bootstrap:
  "observe_once P tm wr r s c w = (d, c', w') \<Longrightarrow> co_bootstrap c' = co_bootstrap c"
  by (rule decision_ok_bootstrap [OF observe_once_ok])

lemma observe_once_clock:
  assumes "observe_once P tm wr r s c w = (d, c', w')"
  shows "clock w \<le> clock w'"
proof -
  have tun: "clock w1 \<le> clock w2" if "observe_tunnel P tm s c w1 = (d, c', w2)" for s c w1 w2 d c'
    using that clock_call [of "ensure_tunnel P" w1]
    by (auto simp: observe_tunnel_def Let_def split: prod.splits sum.splits)
  have unr: "clock w1 \<le> clock w2" if "observe_unreachable P tm wr s c w1 = (d, c', w2)" for s c w1 w2 d c'
    using that clock_call [of "request_wake P r" w1 for r]
    by (auto simp: observe_unreachable_def Let_def split: prod.splits sum.splits option.splits)
  show ?thesis
    using assms clock_call [of "is_ready P" w] clock_call [of "observe_backend P r"]
    by (fastforce simp: observe_once_def Let_def split: prod.splits sum.splits if_splits
        dest: tun unr intro: order_trans)
qed

lemma observe_once_lease:
  assumes "observe_once P tm wr r s c w = (d, c', w')"
  shows "bs_lease_expires_at (decision_status d) = bs_lease_expires_at s"
  using assms
  by (auto simp: observe_defs apply_observed_def Let_def split: prod.splits sum.splits if_splits option.splits)

section \<open>When a wake request is sent\<close>

text \<open>
  Nothing of the result depends on the wake requester: no wake request is made.
\<close>

lemma observe_no_wake:
  assumes "wr = None \<or> bs_lifecycle s = LsWarming"
  shows "observe_once (P\<lparr>request_wake := f\<rparr>) tm wr r s c w = observe_once P tm wr r s c w"
  using assms
  by (auto simp: observe_defs should_request_wake_def Let_def opt_filter_def
      split: prod.splits sum.splits option.splits)

lemma ports_restore: "(P\<lparr>request_wake := f\<rparr>)\<lparr>request_wake := request_wake P\<rparr> = P"
  by simp


section \<open>The bootstrap loop\<close>

text \<open>The clock after the pause between two polls.\<close>

definition after_pause :: "lifecycle_timing \<Rightarrow> 'e world \<Rightarrow> 'e world" where
  "after_pause tm w = (if bootstrap_poll_interval_millis tm = 0 then w
     else sleep_ms (unat (bootstrap_poll_interval_millis tm)) w)"

lemma clock_after_pause: "clock (after_pause tm w) = clock w + unat (bootstrap_poll_interval_millis tm)"
  by (simp add: after_pause_def)

lemma bootstrap_loop_unfold:
  "bootstrap_loop P tm dl c w =
     (if dl \<le> clock w then Some (boot_expired c, w)
      else if dl \<le> clock (after_pause tm w) then Some (boot_expired c, after_pause tm w)
      else case observe_once P tm None (bt_observe_request (co_bootstrap c)) (co_status c) c (after_pause tm w) of
            (decision, c, w) \<Rightarrow>
              (case decision of
                 DReady st \<Rightarrow> Some (finish_bootstrap st None c, w)
               | DFailed st error \<Rightarrow> Some (finish_bootstrap st (Some error) c, w)
               | DWarming st r \<Rightarrow> bootstrap_loop P tm dl c w))"
  by (subst bootstrap_loop.simps) (simp add: after_pause_def Let_def)

text \<open>
  Each turn takes time if there is a pause, or else if the readiness probe does (a probe opens
  a connection; only its rounding to milliseconds could hide that).
\<close>

definition probe_takes_time :: "'e ports \<Rightarrow> bool" where
  "probe_takes_time P = (\<forall>w. clock w < clock (snd (call (is_ready P) w)))"

lemma observe_once_takes_time:
  assumes "probe_takes_time P" "observe_once P tm wr r s c w = (d, c', w')"
  shows "clock w < clock w'"
proof -
  have same: "observe_unreachable (P\<lparr>is_ready := f\<rparr>) = observe_unreachable P"
    "observe_tunnel (P\<lparr>is_ready := f\<rparr>) = observe_tunnel P"
    "observe_backend (P\<lparr>is_ready := f\<rparr>) = observe_backend P" for f
    by (simp_all add: fun_eq_iff observe_unreachable_def observe_tunnel_def split: option.split)
  obtain x w1 where x: "call (is_ready P) w = (x, w1)" by fastforce
  then have "clock w < clock w1" using assms(1) unfolding probe_takes_time_def by (metis snd_conv)
  moreover have "clock w1 \<le> clock w'"
  proof -
    have "\<exists>x'. observe_once (P\<lparr>is_ready := at_once x'\<rparr>) tm wr r s c w1 = (d, c', w')"
      using assms(2) x unfolding observe_once_def same by (intro exI [of _ x]) simp
    then show ?thesis using observe_once_clock by blast
  qed
  ultimately show ?thesis by simp
qed

lemma bootstrap_loop_ends:
  assumes "0 < bootstrap_poll_interval_millis tm \<or> probe_takes_time P"
  shows "\<exists>r. bootstrap_loop P tm dl c w = Some r"
proof (induction "dl - clock w" arbitrary: c w rule: less_induct)
  case less
  define w1 where "w1 = after_pause tm w"
  show ?case
  proof (cases "dl \<le> clock w \<or> dl \<le> clock w1")
    case True
    then show ?thesis by (auto simp: bootstrap_loop_unfold [of P tm dl c w] w1_def)
  next
    case False
    obtain d c2 w2 where
      obs: "observe_once P tm None (bt_observe_request (co_bootstrap c)) (co_status c) c w1 = (d, c2, w2)"
      by (metis prod_cases3)
    have "clock w < clock w1 \<or> clock w1 < clock w2"
      using assms observe_once_takes_time [OF _ obs]
      by (auto simp: w1_def clock_after_pause word_less_nat_alt)
    then have "clock w < clock w2"
      using observe_once_clock [OF obs] by (auto simp: w1_def clock_after_pause)
    with False have "dl - clock w2 < dl - clock w" by auto
    from less [OF this, of c2] False obs show ?thesis
      by (cases d) (auto simp: bootstrap_loop_unfold [of P tm dl c w] w1_def)
  qed
qed

lemma bootstrap_loop_total:
  "0 < bootstrap_poll_interval_millis tm \<Longrightarrow> \<exists>r. bootstrap_loop P tm dl c w = Some r"
  by (rule bootstrap_loop_ends) simp

text \<open>
  What a bootstrap leaves behind: nobody drives it any more, and the status is ready with no
  error, or an error with its reason.
\<close>

definition bootstrap_settled :: "core \<Rightarrow> bool" where
  "bootstrap_settled c = (\<not> bt_active (co_bootstrap c) \<and>
     (backend_is_ready (co_status c) \<and> bt_last_error (co_bootstrap c) = None
      \<or> bs_lifecycle (co_status c) = LsError \<and> bs_tunnel (co_status c) = TsDown
        \<and> bt_last_error (co_bootstrap c) \<noteq> None))"

lemma bootstrap_settled_expired: "bootstrap_settled (boot_expired c)"
  by (simp add: bootstrap_settled_def boot_expired_def)

lemma bootstrap_settled_finish:
  "decision_ok tm (DReady s) c c' \<Longrightarrow> bootstrap_settled (finish_bootstrap s None c'')"
  "decision_ok tm (DFailed s e) c c' \<Longrightarrow> bootstrap_settled (finish_bootstrap s (Some e) c'')"
  by (simp_all add: bootstrap_settled_def decision_ok_def)

text \<open>
  The induction rule of a loop that returned: the deadline passed before or after the pause,
  or an observation was made, and it ended the loop or led to another turn.
\<close>

lemma bootstrap_loop_induct:
  assumes ret: "bootstrap_loop P tm dl c w = Some cw"
    and expired: "\<And>c w. dl \<le> clock w \<Longrightarrow> Q c w (boot_expired c, w)"
    and paused: "\<And>c w. \<not> dl \<le> clock w \<Longrightarrow> dl \<le> clock (after_pause tm w) \<Longrightarrow>
      Q c w (boot_expired c, after_pause tm w)"
    and observed: "\<And>c w d c2 w2 cw. \<not> dl \<le> clock w \<Longrightarrow> \<not> dl \<le> clock (after_pause tm w) \<Longrightarrow>
      observe_once P tm None (bt_observe_request (co_bootstrap c)) (co_status c) c (after_pause tm w)
        = (d, c2, w2) \<Longrightarrow>
      (case d of DReady st \<Rightarrow> cw = (finish_bootstrap st None c2, w2)
       | DFailed st e \<Rightarrow> cw = (finish_bootstrap st (Some e) c2, w2)
       | DWarming st r \<Rightarrow> Q c2 w2 cw) \<Longrightarrow> Q c w cw"
  shows "Q c w cw"
proof -
  let ?R = "\<lambda>((((P', tm'), dl'), c), w) cw. P' = P \<longrightarrow> tm' = tm \<longrightarrow> dl' = dl \<longrightarrow> Q c w cw"
  have "?R ((((P, tm), dl), c), w) cw"
  proof (rule bootstrap_loop.raw_induct [where Pa = ?R, OF _ ret], clarify, goal_cases)
    case (1 f _ _ _ c w cw1 cw2)
    then show ?case
      using expired [of w c] paused [of w c] observed [of w c _ _ _ "(cw1, cw2)"]
      by (fastforce simp: Let_def after_pause_def
          split: if_splits prod.splits lifecycle_decision.splits)
  qed
  then show ?thesis by simp
qed

lemma bootstrap_loop_settled:
  "bootstrap_loop P tm dl c w = Some cw \<Longrightarrow> bootstrap_settled (fst cw)"
proof (erule bootstrap_loop_induct, goal_cases)
  case (3 c w d c2 w2 cw)
  from observe_once_ok [OF 3(3)] 3(4) show ?case
    by (auto split: lifecycle_decision.splits dest: bootstrap_settled_finish)
qed (simp_all add: bootstrap_settled_expired)

text \<open>The loop overshoots its deadline by one pause or one observation at most.\<close>

definition observation_within :: "'e ports \<Rightarrow> lifecycle_timing \<Rightarrow> nat \<Rightarrow> bool" where
  "observation_within P tm t = (\<forall>r s c w. clock (snd (snd (observe_once P tm None r s c w))) \<le> clock w + t)"

lemma bootstrap_loop_overshoot:
  assumes "bootstrap_loop P tm dl c w = Some cw" "observation_within P tm t"
  shows "clock (snd cw) \<le> max (clock w) (dl + max t (unat (bootstrap_poll_interval_millis tm)))"
  using assms(1)
proof (rule bootstrap_loop_induct, goal_cases)
  case (3 c w d c2 w2 cw)
  have "clock w2 \<le> clock (after_pause tm w) + t"
    using assms(2) unfolding observation_within_def by (metis 3(3) snd_conv)
  with 3(2) have "clock w2 \<le> dl + t" by simp
  with 3(4) show ?case by (auto split: lifecycle_decision.splits)
qed (auto simp: clock_after_pause)

lemma bootstrap_loop_no_wake_Some:
  "bootstrap_loop P tm dl c w = Some cw \<Longrightarrow> bootstrap_loop (P\<lparr>request_wake := g\<rparr>) tm dl c w = Some cw"
proof (erule bootstrap_loop_induct, goal_cases)
  case (3 c w d c2 w2 cw)
  then show ?case
    by (auto simp: bootstrap_loop_unfold [of "P\<lparr>request_wake := g\<rparr>" tm dl c w] observe_no_wake
        split: lifecycle_decision.splits)
qed (simp_all add: bootstrap_loop_unfold [of "P\<lparr>request_wake := g\<rparr>"])

lemma bootstrap_loop_no_wake:
  "bootstrap_loop (P\<lparr>request_wake := g\<rparr>) tm dl c w = bootstrap_loop P tm dl c w"
proof (cases "bootstrap_loop P tm dl c w")
  case (Some r)
  then show ?thesis by (simp add: bootstrap_loop_no_wake_Some)
next
  case None
  show ?thesis
  proof (rule ccontr)
    assume "bootstrap_loop (P\<lparr>request_wake := g\<rparr>) tm dl c w \<noteq> bootstrap_loop P tm dl c w"
    with None obtain r where "bootstrap_loop (P\<lparr>request_wake := g\<rparr>) tm dl c w = Some r" by auto
    from bootstrap_loop_no_wake_Some [OF this, of "request_wake P"] None show False by simp
  qed
qed

lemma start_bootstrap_no_wake:
  "start_bootstrap (P\<lparr>request_wake := g\<rparr>) tm c w = start_bootstrap P tm c w"
  by (simp add: start_bootstrap_def bootstrap_deadline_def bootstrap_loop_no_wake)

section \<open>Waiting\<close>

lemma wait_check_ready:
  "wait_check tm dl v = Some (DReady s) \<Longrightarrow> s = wv_status v \<and> backend_is_ready s \<and> \<not> wv_active v"
  by (auto simp: wait_check_def stale_view_def backend_is_ready_def Let_def split: if_splits)

lemma wait_check_failed:
  "wait_check tm dl v = Some (DFailed s e) \<Longrightarrow>
     s = wv_status v \<and> bs_lifecycle s = LsError \<and> \<not> wv_active v
     \<and> e = unwrap_or backend_error_default (wv_last_error v)"
  by (auto simp: wait_check_def stale_view_def Let_def split: if_splits)

lemma wait_loop_decides:
  "wait_loop tm dl v vs final = d \<Longrightarrow>
     (\<exists>u \<in> set (v # vs). wait_check tm dl u = Some d)
     \<or> d = DWarming (bootstrap_wait_status final (stale_view (last (v # vs)))) (retry_after_secs tm)"
  by (induction tm dl v vs final rule: wait_loop.induct) (auto split: option.splits)

lemma wait_loop_ready:
  "wait_loop tm dl v vs final = DReady s \<Longrightarrow>
     \<exists>u \<in> set (v # vs). s = wv_status u \<and> backend_is_ready s \<and> \<not> wv_active u"
  using wait_loop_decides [of tm dl v vs final "DReady s"] wait_check_ready by blast

lemma wait_loop_retry:
  "wait_loop tm dl v vs final = DWarming s r \<Longrightarrow> r = retry_after_secs tm"
  using wait_loop_decides [of tm dl v vs final "DWarming s r"]
  by (auto simp: wait_check_def Let_def split: if_splits)

section \<open>ensure_backend\<close>

lemma start_or_join_status [simp]: "start_or_join_bootstrap r c = (b, c') \<Longrightarrow> co_status c' = co_status c"
  by (auto simp: start_or_join_bootstrap_def Let_def)

lemma start_or_join_idle:
  "\<not> bt_active (co_bootstrap c) \<Longrightarrow> start_or_join_bootstrap r c =
     (True, c\<lparr>co_bootstrap := \<lparr>bt_active = True, bt_last_error = None, bt_observe_request = r\<rparr>\<rparr>)"
  by (cases "co_bootstrap c") (simp add: start_or_join_bootstrap_def Let_def)

lemma start_or_join_busy:
  "bt_active (co_bootstrap c) \<Longrightarrow> start_or_join_bootstrap r c =
     (False, c\<lparr>co_bootstrap := (co_bootstrap c)\<lparr>bt_observe_request :=
        if request_priority (bt_observe_request (co_bootstrap c)) < request_priority r then r
        else bt_observe_request (co_bootstrap c)\<rparr>\<rparr>)"
  by (simp add: start_or_join_bootstrap_def)

lemma start_or_join_starts: "fst (start_or_join_bootstrap r c) = (\<not> bt_active (co_bootstrap c))"
  by (simp add: start_or_join_bootstrap_def Let_def)

lemma ensure_backend_ready:
  assumes "ensure_backend P tm ar r (c, w) = (DReady s, c', w')"
  shows "backend_is_ready s"
  using assms
  by (auto simp: ensure_backend_def wait_for_ready_or_timeout_def Let_def decision_ok_def
      split: if_splits prod.splits lifecycle_decision.splits
      dest!: observe_once_ok dest!: wait_loop_ready)

lemma ensure_backend_retry:
  assumes "ensure_backend P tm ar r (c, w) = (DWarming s n, c', w')"
  shows "n = retry_after_secs tm"
  using assms
  by (auto simp: ensure_backend_def wait_for_ready_or_timeout_def Let_def
      split: if_splits prod.splits lifecycle_decision.splits dest: wait_loop_retry)

lemma ensure_backend_fast:
  "\<not> bt_active (co_bootstrap c) \<Longrightarrow> backend_is_ready (co_status c) \<Longrightarrow>
   ensure_backend P tm ar r (c, w) = (DReady (co_status c), c, w)"
  by (simp add: ensure_backend_def)

lemma mark_warming_simps [simp]:
  "bs_lifecycle (co_status (mark_warming c)) = LsWarming"
  "bs_tunnel (co_status (mark_warming c)) = TsDown"
  "co_bootstrap (mark_warming c) = co_bootstrap c"
  by (simp_all add: mark_warming_def)

lemma degrade_embeddings_simps [simp]:
  "bs_lifecycle (co_status (degrade_embeddings r c)) = bs_lifecycle (co_status c)"
  "bs_tunnel (co_status (degrade_embeddings r c)) = bs_tunnel (co_status c)"
  "bs_embeddings (co_status (degrade_embeddings r c)) = CsDegraded"
  "bs_embeddings_reason (co_status (degrade_embeddings r c)) = Some r"
  "co_bootstrap (degrade_embeddings r c) = co_bootstrap c"
  by (simp_all add: degrade_embeddings_def)

lemma coherent_mark [simp]: "coherent (co_status (mark_warming c))"
  and coherent_degrade [simp]: "coherent (co_status (degrade_embeddings r c)) = coherent (co_status c)"
  by (simp_all add: coherent_def)


section \<open>Properties\<close>

text \<open>
  Concrete ports for the witnesses: a host that is asleep (SSH does not answer, wake packets
  are accepted), and the default timing.
\<close>

definition sleeping_ports :: "unit ports" where
  "sleeping_ports = \<lparr>request_wake = (\<lambda>_ e. (Inr (), 1, e)), is_ready = (\<lambda>e. (Inr False, 2, e)),
     observe_backend = (\<lambda>_ e. (Inl (LifecycleError ''no route''), 1, e)),
     ensure_tunnel = (\<lambda>e. (Inl (LifecycleError ''no route''), 1, e)), now = (\<lambda>_. 1000)\<rparr>"

definition example_world :: "unit world" where
  "example_world = \<lparr>clock = 0, env = ()\<rparr>"

definition no_surroundings :: "'e surroundings" where
  "no_surroundings spawned c w =
     ((\<lparr>wv_status = co_status c, wv_active = bt_active (co_bootstrap c),
        wv_last_error = bt_last_error (co_bootstrap c), wv_now = clock w\<rparr>, [], co_status c), c, w)"

definition default_timing :: lifecycle_timing where
  "default_timing = timing_default (\<lambda>_. None) (\<lambda>_. None)"

text \<open>
  C34: One observation of the host (\<open>observe_once\<close>) always ends in one of three shapes: ready,
  with lifecycle and tunnel both ready and exactly that status published; warming, with neither
  the tunnel nor the lifecycle ready, the configured retry delay, and that status published; or
  failed, with lifecycle \<open>Error\<close>, tunnel \<open>Down\<close> and nothing published. Nothing else of the core
  changes.
\<close>

theorem observe_once_contract:
  "case observe_once P tm wake_request observe_request status c w of
     (DReady s, c', w') \<Rightarrow> bs_lifecycle s = LsReady \<and> bs_tunnel s = TsReady \<and> c' = publish s c
   | (DWarming s r, c', w') \<Rightarrow> bs_lifecycle s \<notin> {LsReady, LsError} \<and> bs_tunnel s \<noteq> TsReady
       \<and> r = retry_after_secs tm \<and> c' = publish s c
   | (DFailed s e, c', w') \<Rightarrow> bs_lifecycle s = LsError \<and> bs_tunnel s = TsDown \<and> c' = c"
proof -
  obtain d c' w' where eq: "observe_once P tm wake_request observe_request status c w = (d, c', w')"
    by (metis prod_cases3)
  from observe_once_ok [OF eq] eq show ?thesis
    by (cases d) (auto simp: decision_ok_def backend_is_ready_def)
qed

text \<open>
  C27: After \<open>mark_warming\<close> (the orchestrator's reaction to an unreachable backend) the next
  \<open>ensure_backend\<close> and the bootstrap it may spawn send no wake request: their results do not
  depend on the wake requester at all. A sleeping host is therefore not woken by the retry.
\<close>

theorem mark_warming_never_wakes:
  "ensure_backend (P\<lparr>request_wake := f\<rparr>) tm ar r (mark_warming c, w) = ensure_backend P tm ar r (mark_warming c, w)
   \<and> start_bootstrap (P\<lparr>request_wake := f\<rparr>) tm c' w' = start_bootstrap P tm c' w'"
proof
  show "ensure_backend (P\<lparr>request_wake := f\<rparr>) tm ar r (mark_warming c, w)
      = ensure_backend P tm ar r (mark_warming c, w)"
    unfolding ensure_backend_def by (simp add: Let_def observe_no_wake cong: if_cong)
  show "start_bootstrap (P\<lparr>request_wake := f\<rparr>) tm c' w' = start_bootstrap P tm c' w'"
    by (rule start_bootstrap_no_wake)
qed

text \<open>
  C26: When no bootstrap runs, the status is not ready and not \<open>Warming\<close>, and SSH does not
  answer, \<open>ensure_backend\<close> sends exactly one wake request for the caller's kind, at the time
  the clock then shows; if the request is accepted the task publishes \<open>Warming\<close> with that time
  and goes on to wait with the bootstrap active, and if it is refused the caller gets the
  failure, the status is \<open>Error\<close> and the bootstrap is over.
\<close>

theorem cold_request_wakes:
  assumes idle: "\<not> bt_active (co_bootstrap c)"
    and cold: "bs_lifecycle (co_status c) \<noteq> LsWarming" "\<not> backend_is_ready (co_status c)"
    and down: "call (is_ready P) w = (Inr False, w1)"
    and sent: "call (request_wake P r) w1 = (res, w2)"
  defines "started \<equiv> c\<lparr>co_bootstrap := \<lparr>bt_active = True, bt_last_error = None, bt_observe_request = r\<rparr>\<rparr>"
    and "woken \<equiv> (co_status c)\<lparr>bs_last_wake_attempt_at := Some (now P w1), bs_tunnel := TsDown\<rparr>"
  shows "ensure_backend P tm ar r (c, w) =
     (case res of
        Inr _ \<Rightarrow> wait_for_ready_or_timeout tm ar True (publish (woken\<lparr>bs_lifecycle := LsWarming, bs_tunnel := TsDown\<rparr>) started) w2
      | Inl error \<Rightarrow> (DFailed (woken\<lparr>bs_lifecycle := LsError\<rparr>) error,
          finish_bootstrap (woken\<lparr>bs_lifecycle := LsError\<rparr>) (Some error) started, w2))"
proof -
  have "should_request_wake (bs_lifecycle (co_status c))"
    using cold(1) by (cases "bs_lifecycle (co_status c)") (simp_all add: should_request_wake_def)
  then show ?thesis
    using idle cold(2) down sent
    by (cases res)
      (simp_all add: ensure_backend_def start_or_join_idle observe_once_def observe_unreachable_def
        started_def woken_def Let_def)
qed

lemma cold_request_wakes_witness:
  "ensure_backend sleeping_ports default_timing no_surroundings Chat
     (core_new backend_status_default, example_world) =
   wait_for_ready_or_timeout default_timing no_surroundings True
     (publish (backend_status_default\<lparr>bs_last_wake_attempt_at := Some 1000, bs_tunnel := TsDown,
        bs_lifecycle := LsWarming\<rparr>)
       ((core_new backend_status_default)\<lparr>co_bootstrap :=
          \<lparr>bt_active = True, bt_last_error = None, bt_observe_request = Chat\<rparr>\<rparr>))
     \<lparr>clock = 3, env = ()\<rparr>"
  using cold_request_wakes [of "core_new backend_status_default" sleeping_ports example_world
      "\<lparr>clock = 2, env = ()\<rparr>" Chat "Inr ()" "\<lparr>clock = 3, env = ()\<rparr>" default_timing no_surroundings]
  by (simp add: core_new_def bootstrap_default_def backend_status_default_def backend_is_ready_def
      sleeping_ports_def example_world_def call_def)

text \<open>
  C11: If the calls to the host return and a turn of its loop takes time (the poll interval is
  positive, or else the readiness probe takes a millisecond), the background bootstrap ends,
  whatever the host answers, and leaves the manager settled: the bootstrap is released, and the
  published status is either ready (with a ready tunnel and no error) or \<open>Error\<close> with the tunnel
  down and a reason. If no observation takes longer than \<open>t\<close>, it has ended by its deadline, up
  to \<open>t\<close> or one poll interval. (The program bounds no call: \<open>hung_call_outlives_deadline\<close> of
  \<open>Lifecycle_System\<close>.)
\<close>

theorem bootstrap_ends_settled:
  assumes "0 < bootstrap_poll_interval_millis tm \<or> probe_takes_time P"
  shows "\<exists>c' w'. start_bootstrap P tm c w = Some (c', w') \<and> \<not> bt_active (co_bootstrap c') \<and>
     (backend_is_ready (co_status c') \<and> bt_last_error (co_bootstrap c') = None
      \<or> bs_lifecycle (co_status c') = LsError \<and> bs_tunnel (co_status c') = TsDown
        \<and> bt_last_error (co_bootstrap c') \<noteq> None)
     \<and> (\<forall>t. observation_within P tm t \<longrightarrow>
          clock w' \<le> bootstrap_deadline P tm c w + max t (unat (bootstrap_poll_interval_millis tm)))"
proof -
  let ?dl = "bootstrap_deadline P tm c w"
  obtain cw where cw: "bootstrap_loop P tm ?dl c w = Some cw" using bootstrap_loop_ends [OF assms] by blast
  have "clock w \<le> ?dl" by (simp add: bootstrap_deadline_def Let_def)
  then have "clock (snd cw) \<le> ?dl + max t (unat (bootstrap_poll_interval_millis tm))"
    if "observation_within P tm t" for t
    using bootstrap_loop_overshoot [OF cw that] by (simp add: max_absorb2 trans_le_add1)
  with bootstrap_loop_settled [OF cw] cw show ?thesis
    by (cases cw) (auto simp: start_bootstrap_def bootstrap_settled_def)
qed

lemma bootstrap_ends_settled_witness:
  "\<exists>c' w'. start_bootstrap sleeping_ports default_timing (core_new backend_status_default) example_world
     = Some (c', w') \<and> \<not> bt_active (co_bootstrap c')"
proof -
  have "0 < bootstrap_poll_interval_millis default_timing \<or> probe_takes_time sleeping_ports"
    by (simp add: default_timing_def timing_default_def read_env_or_def)
  from bootstrap_ends_settled [OF this, of "core_new backend_status_default" example_world]
  show ?thesis by blast
qed

text \<open>
  The boot deadline counts from the recorded wake attempt, not from the start of this
  bootstrap: if the last wake lies a whole hard deadline or more in the past, the background
  bootstrap fails at once with the deadline error, without a single poll.
\<close>
theorem old_wake_expires_at_once:
  assumes "bs_last_wake_attempt_at (co_status c) = Some t"
    and "unat t + unat (hard_boot_deadline_secs tm) \<le> unat (now P w)"
  shows "start_bootstrap P tm c w =
     Some (finish_bootstrap ((co_status c)\<lparr>bs_lifecycle := LsError, bs_tunnel := TsDown\<rparr>)
       (Some (LifecycleError ''backend did not become ready before the boot deadline'')) c, w)"
proof -
  have "unat (sat_sub (sat_add t (hard_boot_deadline_secs tm)) (now P w)) = 0"
    using assms(2) by (simp add: unat_sat_sub unat_sat_add)
  then have "bootstrap_deadline P tm c w = clock w"
    using assms(1) by (simp add: bootstrap_deadline_def)
  then show ?thesis
    by (simp add: start_bootstrap_def bootstrap_loop_unfold boot_expired_def failed_status_def deadline_error_def)
qed

lemma old_wake_expires_at_once_witness:
  "let c = core_new (backend_status_default\<lparr>bs_lifecycle := LsWarming, bs_last_wake_attempt_at := Some 700\<rparr>) in
   start_bootstrap sleeping_ports default_timing c example_world =
     Some (finish_bootstrap ((co_status c)\<lparr>bs_lifecycle := LsError, bs_tunnel := TsDown\<rparr>)
       (Some (LifecycleError ''backend did not become ready before the boot deadline'')) c, example_world)"
  unfolding Let_def
  by (rule old_wake_expires_at_once [where t = 700])
    (simp_all add: core_new_def backend_status_default_def default_timing_def timing_default_def
      read_env_or_def sleeping_ports_def)

text \<open>
  A request that is told the backend is ready is told so about a status whose lifecycle and
  tunnel are both ready, on every path of \<open>ensure_backend\<close> (the fast path, its own observation,
  or the wait for somebody else's bootstrap), whatever happens around it.
\<close>

theorem ensure_backend_ready_is_ready:
  assumes "ensure_backend P tm ar r (c, w) = (DReady s, c', w')"
  shows "bs_lifecycle s = LsReady \<and> bs_tunnel s = TsReady"
  using ensure_backend_ready [OF assms] by (simp add: backend_is_ready_def)

lemma ensure_backend_ready_is_ready_witness:
  "let s = backend_status_default\<lparr>bs_lifecycle := LsReady, bs_tunnel := TsReady\<rparr> in
   ensure_backend sleeping_ports default_timing no_surroundings Chat (core_new s, example_world)
     = (DReady s, core_new s, example_world) \<and> bs_lifecycle s = LsReady \<and> bs_tunnel s = TsReady"
proof -
  let ?s = "backend_status_default\<lparr>bs_lifecycle := LsReady, bs_tunnel := TsReady\<rparr>"
  have eq: "ensure_backend sleeping_ports default_timing no_surroundings Chat (core_new ?s, example_world)
     = (DReady ?s, core_new ?s, example_world)"
    by (simp add: ensure_backend_def core_new_def bootstrap_default_def backend_is_ready_def Let_def)
  from ensure_backend_ready_is_ready [OF eq] eq show ?thesis by simp
qed

text \<open>
  A waiting request never returns on a stale view: while a bootstrap is active it gets
  neither a ready nor a failed decision from the status the bootstrap has yet to replace; once
  the bootstrap is over, a ready status gives \<open>Ready\<close> and an error gives \<open>Failed\<close> with the
  bootstrap's reason.
\<close>
theorem wait_ignores_stale_views:
  "wait_check tm dl v = (if wv_active v
     then (if dl \<le> wv_now v
           then Some (DWarming ((wv_status v)\<lparr>bs_lifecycle := LsWarming,
                  bs_tunnel := (if bs_lifecycle (wv_status v) = LsWarming then bs_tunnel (wv_status v) else TsDown)\<rparr>)
                  (retry_after_secs tm))
           else None)
     else if backend_is_ready (wv_status v) then Some (DReady (wv_status v))
     else if bs_lifecycle (wv_status v) = LsError
       then Some (DFailed (wv_status v) (unwrap_or (LifecycleError ''backend reported error state'') (wv_last_error v)))
     else if dl \<le> wv_now v then Some (DWarming (wv_status v) (retry_after_secs tm))
     else None)"
  by (auto simp: wait_check_def stale_view_def backend_is_ready_def bootstrap_wait_status_def
      backend_error_default_def Let_def)

text \<open>
  Requests that join a running bootstrap only raise what it observes: after any number of
  them joined, the bootstrap observes the request of the highest priority among the one it was
  observing and the joiners, it stays active, and nothing else of the manager has changed.
\<close>

theorem joiners_raise_observed_request:
  assumes "bt_active (co_bootstrap c)"
  shows "fold (\<lambda>r c. snd (start_or_join_bootstrap r c)) rs c =
    c\<lparr>co_bootstrap := (co_bootstrap c)
      \<lparr>bt_observe_request := fold max rs (bt_observe_request (co_bootstrap c))\<rparr>\<rparr>"
  using assms
proof (induction rs arbitrary: c)
  case Nil
  then show ?case by simp
next
  case (Cons r rs)
  let ?c = "c\<lparr>co_bootstrap := (co_bootstrap c)\<lparr>bt_observe_request := max (bt_observe_request (co_bootstrap c)) r\<rparr>\<rparr>"
  have "fold (\<lambda>r c. snd (start_or_join_bootstrap r c)) (r # rs) c
      = fold (\<lambda>r c. snd (start_or_join_bootstrap r c)) rs ?c"
    using join_observes_max [OF Cons.prems] by simp
  also have "\<dots> = ?c\<lparr>co_bootstrap := (co_bootstrap ?c)
      \<lparr>bt_observe_request := fold max rs (bt_observe_request (co_bootstrap ?c))\<rparr>\<rparr>"
    by (rule Cons.IH) (use Cons.prems in simp)
  finally show ?case by (simp add: max.commute)
qed

lemma joiners_raise_observed_request_witness:
  "bt_observe_request (co_bootstrap (fold (\<lambda>r c. snd (start_or_join_bootstrap r c)) [Chat, Embeddings, Chat]
      (snd (start_or_join_bootstrap Chat (core_new backend_status_default))))) = Embeddings"
proof -
  let ?c = "snd (start_or_join_bootstrap Chat (core_new backend_status_default))"
  have act: "bt_active (co_bootstrap ?c)" "bt_observe_request (co_bootstrap ?c) = Chat"
    by (simp_all add: start_or_join_bootstrap_def core_new_def bootstrap_default_def Let_def)
  have "fold max [Chat, Embeddings, Chat] Chat = Embeddings"
    by (simp add: max_def less_eq_lifecycle_request_def request_priority_def)
  with joiners_raise_observed_request [OF act(1), of "[Chat, Embeddings, Chat]"] act(2) show ?thesis
    by simp
qed

end
