(* ===== verification/Host.thy ===== *)
theory Host
  imports Helper_Main Lifecycle "HOL-Library.Multiset"
begin

text \<open>
  The proxy's side of the host (\<open>src/src/host.rs\<close>): the implementations of the four ports of
  the lifecycle. The Wake-on-LAN packet goes out on a UDP socket, readiness is a TCP
  connection to the SSH port, the helper is run over \<open>ssh\<close>, and the tunnel is an \<open>ssh\<close>
  child process. Sockets and processes are calls to the operating system; the reader of the
  helper's JSON (\<open>serde_json\<close>) is a parameter.
\<close>

section \<open>Wake-on-LAN\<close>

record 'e udp =
  udp_bind :: "string \<Rightarrow> ('e, (string, unit) res) ext_call"
  udp_set_broadcast :: "bool \<Rightarrow> ('e, (string, unit) res) ext_call"
  udp_send_to :: "u8 list \<Rightarrow> string \<Rightarrow> ('e, (string, unit) res) ext_call"

record wol_wake_requester =
  wol_mac :: "u8 list"
  wol_broadcast :: string
  wol_port :: u16

definition magic_packet :: "u8 list \<Rightarrow> u8 list" where
  "magic_packet mac = replicate 6 0xFF @ concat (replicate 16 mac)"

definition wol_request_wake ::
  "'e udp \<Rightarrow> wol_wake_requester \<Rightarrow> lifecycle_request \<Rightarrow> 'e world
   \<Rightarrow> (lifecycle_error, unit) res \<times> 'e world" where
  "wol_request_wake os wol request w =
     (case call (udp_bind os ''0.0.0.0:0'') w of
        (Inl e, w) \<Rightarrow> (Err (LifecycleError (''WOL bind failed: '' @ e)), w)
      | (Inr _, w) \<Rightarrow>
     (case call (udp_set_broadcast os True) w of
        (Inl e, w) \<Rightarrow> (Err (LifecycleError (''WOL broadcast failed: '' @ e)), w)
      | (Inr _, w) \<Rightarrow>
     (case call (udp_send_to os (magic_packet (wol_mac wol))
             (wol_broadcast wol @ '':'' @ show_nat (unat (wol_port wol)))) w of
        (Inl e, w) \<Rightarrow> (Err (LifecycleError (''WOL send failed: '' @ e)), w)
      | (Inr _, w) \<Rightarrow> (Ok (), w))))"

section \<open>SSH readiness\<close>

record ssh_tcp_probe =
  probe_host :: string
  probe_port :: u16

definition ssh_is_ready ::
  "(string \<Rightarrow> ('e, (string, unit) res) ext_call) \<Rightarrow> ssh_tcp_probe
   \<Rightarrow> ('e, (lifecycle_error, bool) res) ext_call" where
  "ssh_is_ready connect p e =
     (case with_timeout 10000 (connect (probe_host p @ '':'' @ show_nat (unat (probe_port p)))) e of
        (Some (Inr _), d, e) \<Rightarrow> (Ok True, d, e)
      | (_, d, e) \<Rightarrow> (Ok False, d, e))"

section \<open>The helper over SSH\<close>

record ssh_helper_rpc =
  rpc_ssh_user :: string
  rpc_ssh_host :: string
  rpc_helper_path :: string
  rpc_model_path :: string
  rpc_model_alias :: string
  rpc_ssh_key_path :: string
  rpc_target :: target

record helper_json =
  read_ensure :: "string \<Rightarrow> (string, ensure_started_response) res"
  read_status :: "string \<Rightarrow> (string, status_response) res"

definition ssh_args :: "ssh_helper_rpc \<Rightarrow> string list \<Rightarrow> string list" where
  "ssh_args rpc args =
     [''-o'', ''ConnectTimeout=10'', ''-o'', ''BatchMode=yes'', ''-o'', ''StrictHostKeyChecking=accept-new'',
      ''-i'', rpc_ssh_key_path rpc, rpc_ssh_user rpc @ ''@'' @ rpc_ssh_host rpc] @ args"

definition run_helper_cmd ::
  "'e run_command \<Rightarrow> ssh_helper_rpc \<Rightarrow> string list \<Rightarrow> ('e, (lifecycle_error, string) res) ext_call" where
  "run_helper_cmd run rpc args e =
     (case run ''ssh'' (ssh_args rpc args) e of
        (Inl err, d, e) \<Rightarrow> (Err (LifecycleError (''ssh failed: '' @ err)), d, e)
      | (Inr output, d, e) \<Rightarrow>
          ((if cmd_success output
            then (case from_utf8 (cmd_stdout output) of
                    Inr text \<Rightarrow> Ok text
                  | Inl err \<Rightarrow> Err (LifecycleError (''invalid UTF-8 from helper: '' @ utf8_error_text err)))
            else Err (LifecycleError (''helper command failed: '' @ from_utf8_lossy (cmd_stderr output)))),
           d, e))"

definition map_unit_state :: "string option \<Rightarrow> unit_state" where
  "map_unit_state active_state = (case active_state of
       None \<Rightarrow> UsUnknown
     | Some s \<Rightarrow> if s = ''active'' then UsActive
         else if s = ''activating'' \<or> s = ''reloading'' then UsActivating
         else if s = ''inactive'' then UsInactive
         else if s = ''failed'' \<or> s = ''error'' then UsFailed
         else UsUnknown)"

definition select_unit :: "target \<Rightarrow> status_response \<Rightarrow> unit_info option" where
  "select_unit t st = (case t of TChat \<Rightarrow> sr_llama_server st
     | TEmbeddings \<Rightarrow> sr_llama_server_embeddings st)"

definition ensure_lifecycle :: "ensure_started_response \<Rightarrow> lifecycle_state" where
  "ensure_lifecycle r = (case er_status r of
       HsOk \<Rightarrow> if er_model_verified r then LsReady else LsWarming
     | _ \<Rightarrow> LsError)"

definition ensure_command :: "ssh_helper_rpc \<Rightarrow> string list" where
  "ensure_command rpc = [''env'', ''EXPECTED_MODEL_PATH='' @ rpc_model_path rpc, rpc_helper_path rpc,
     ''ensure-started'', as_str (rpc_target rpc), rpc_model_alias rpc]"

definition observed_of_ensure :: "ensure_started_response \<Rightarrow> observed_backend_state" where
  "observed_of_ensure r =
     \<lparr>ob_lifecycle = ensure_lifecycle r, ob_chat = CsReady, ob_embeddings = CsReady,
      ob_embeddings_reason = None,
      ob_error = (case er_status r of HsOk \<Rightarrow> None | _ \<Rightarrow> Some (er_message r)),
      ob_llama_server_unit = map_unit_state (map_option ui_active_state (er_llama_server r)),
      ob_inhibit_unit = UsUnknown\<rparr>"

definition rpc_ensure_started ::
  "'e run_command \<Rightarrow> helper_json \<Rightarrow> ssh_helper_rpc
   \<Rightarrow> ('e, (lifecycle_error, observed_backend_state) res) ext_call" where
  "rpc_ensure_started run js rpc e =
     (case run_helper_cmd run rpc (ensure_command rpc) e of
        (Inl err, d, e) \<Rightarrow> (Err err, d, e)
      | (Inr output, d, e) \<Rightarrow> (case read_ensure js output of
            Inl err \<Rightarrow> (Err (LifecycleError (''failed to parse ensure-started response: '' @ err)), d, e)
          | Inr r \<Rightarrow> (Ok (observed_of_ensure r), d, e)))"

definition observed_of_status :: "target \<Rightarrow> status_response \<Rightarrow> observed_backend_state" where
  "observed_of_status t parsed =
     (let llama = map_unit_state (map_option ui_active_state (select_unit t parsed)) in
      \<lparr>ob_lifecycle = (if sr_status parsed = HsError then LsError
           else if llama = UsActive then LsReady else LsWarming),
       ob_chat = CsReady, ob_embeddings = CsReady, ob_embeddings_reason = None, ob_error = None,
       ob_llama_server_unit = llama,
       ob_inhibit_unit = map_unit_state (map_option ui_active_state (sr_inhibit_holder parsed))\<rparr>)"

definition rpc_fetch_status ::
  "'e run_command \<Rightarrow> helper_json \<Rightarrow> ssh_helper_rpc
   \<Rightarrow> ('e, (lifecycle_error, observed_backend_state) res) ext_call" where
  "rpc_fetch_status run js rpc e =
     (case run_helper_cmd run rpc [rpc_helper_path rpc, ''status''] e of
        (Inl err, d, e) \<Rightarrow> (Err err, d, e)
      | (Inr output, d, e) \<Rightarrow> (case read_status js output of
            Inl err \<Rightarrow> (Err (LifecycleError (''failed to parse status response: '' @ err)), d, e)
          | Inr parsed \<Rightarrow> (Ok (observed_of_status (rpc_target rpc) parsed), d, e)))"

definition rpc_observe_backend ::
  "'e run_command \<Rightarrow> helper_json \<Rightarrow> ssh_helper_rpc \<Rightarrow> lifecycle_request \<Rightarrow> 'e world
   \<Rightarrow> (lifecycle_error, observed_backend_state) res \<times> 'e world" where
  "rpc_observe_backend run js rpc request w =
     (case call (rpc_ensure_started run js rpc) w of
        (Inl err, w) \<Rightarrow> (Err err, w)
      | (Inr state, w) \<Rightarrow>
          if ob_lifecycle state = LsReady
          then (case call (rpc_fetch_status run js rpc) w of
                  (Inr status_state, w) \<Rightarrow>
                    (Ok (state\<lparr>ob_llama_server_unit := ob_llama_server_unit status_state,
                               ob_inhibit_unit := ob_inhibit_unit status_state\<rparr>), w)
                | (Inl _, w) \<Rightarrow> (Ok state, w))
          else (Ok state, w))"

section \<open>The tunnel\<close>

text \<open>
  A child process is a value \<open>'c\<close> of the operating system: it is spawned, asked whether it
  has exited, and killed when the program drops it (\<open>kill_on_drop\<close>). The manager owns at most
  one, behind its mutex.
\<close>

record ('c, 'e) process_os =
  spawn_ssh :: "string list \<Rightarrow> ('e, (string, 'c) res) ext_call"
  try_wait :: "'c \<Rightarrow> ('e, (string, string option) res) ext_call"
  drop_child :: "'c \<Rightarrow> 'e \<Rightarrow> 'e"

record ssh_tunnel_manager =
  tm_ssh_user :: string
  tm_ssh_host :: string
  tm_local_port :: u16
  tm_remote_port :: u16
  tm_ssh_key_path :: string

definition dropped :: "('c, 'e) process_os \<Rightarrow> 'c \<Rightarrow> 'e world \<Rightarrow> 'e world" where
  "dropped os c w = w\<lparr>env := drop_child os c (env w)\<rparr>"

definition tunnel_args :: "ssh_tunnel_manager \<Rightarrow> string list" where
  "tunnel_args m =
     [''-o'', ''ConnectTimeout=10'', ''-o'', ''BatchMode=yes'', ''-o'', ''StrictHostKeyChecking=accept-new'',
      ''-o'', ''ExitOnForwardFailure=yes'', ''-i'', tm_ssh_key_path m, ''-L'',
      ''127.0.0.1:'' @ show_nat (unat (tm_local_port m)) @ '':127.0.0.1:'' @ show_nat (unat (tm_remote_port m)),
      ''-N'', tm_ssh_user m @ ''@'' @ tm_ssh_host m]"

definition create_tunnel ::
  "('c, 'e) process_os \<Rightarrow> ssh_tunnel_manager \<Rightarrow> 'e world \<Rightarrow> (lifecycle_error, 'c) res \<times> 'e world" where
  "create_tunnel os m w =
     (case call (spawn_ssh os (tunnel_args m)) w of
        (Inl e, w) \<Rightarrow> (Err (LifecycleError (''failed to spawn SSH tunnel: '' @ e)), w)
      | (Inr child, w) \<Rightarrow>
          (case call (try_wait os child) (sleep_ms 500 w) of
             (Inr (Some st), w) \<Rightarrow>
               (Err (LifecycleError (''SSH tunnel exited immediately with status: '' @ st)), dropped os child w)
           | (Inr None, w) \<Rightarrow> (Ok child, w)
           | (Inl e, w) \<Rightarrow> (Err (LifecycleError (''failed to check tunnel: '' @ e)), dropped os child w)))"

definition replace_tunnel ::
  "('c, 'e) process_os \<Rightarrow> ssh_tunnel_manager \<Rightarrow> 'e world
   \<Rightarrow> (lifecycle_error, tunnel_state) res \<times> 'c option \<times> 'e world" where
  \<comment> \<open>with no child: a new tunnel, which becomes the manager's child if it stays up\<close>
  "replace_tunnel os m w = (case create_tunnel os m w of
       (Inr c, w) \<Rightarrow> (Ok TsReady, Some c, w)
     | (Inl e, w) \<Rightarrow> (Err e, None, w))"

definition tunnel_ensure ::
  "('c, 'e) process_os \<Rightarrow> ssh_tunnel_manager \<Rightarrow> 'c option \<Rightarrow> 'e world
   \<Rightarrow> (lifecycle_error, tunnel_state) res \<times> 'c option \<times> 'e world" where
  "tunnel_ensure os m proc w = (case proc of
       Some child \<Rightarrow>
         (case call (try_wait os child) w of
            (Inr (Some _), w) \<Rightarrow> replace_tunnel os m (dropped os child w)
          | (Inr None, w) \<Rightarrow> (Ok TsReady, Some child, w)
          | (Inl _, w) \<Rightarrow> (Ok TsDown, Some child, w))
     | None \<Rightarrow> replace_tunnel os m w)"

section \<open>Lemmas\<close>

lemma nth_concat_replicate:
  "i < n * length xs \<Longrightarrow> concat (replicate n xs) ! i = xs ! (i mod length xs)"
proof (induction n arbitrary: i)
  case 0
  then show ?case by simp
next
  case (Suc n)
  show ?case
  proof (cases "i < length xs")
    case True
    then show ?thesis by (simp add: nth_append)
  next
    case False
    with Suc have "concat (replicate n xs) ! (i - length xs) = xs ! ((i - length xs) mod length xs)"
      by simp
    with False show ?thesis by (simp add: nth_append le_mod_geq)
  qed
qed

lemma length_magic_packet: "length mac = 6 \<Longrightarrow> length (magic_packet mac) = 102"
  by (simp add: magic_packet_def length_concat sum_list_replicate)

lemma observed_ready_iff:
  "ob_lifecycle (observed_of_ensure r) = LsReady \<longleftrightarrow> er_status r = HsOk \<and> er_model_verified r"
  by (simp add: observed_of_ensure_def ensure_lifecycle_def split: helper_status.split)

lemma run_helper_cmd_Ok:
  assumes "run_helper_cmd run rpc args e = (Inr text, d, e')"
  shows "\<exists>output. run ''ssh'' (ssh_args rpc args) e = (Inr output, d, e') \<and> cmd_success output
    \<and> cmd_stdout output = text \<and> valid_utf8 text"
proof -
  obtain r d1 e1 where run: "run ''ssh'' (ssh_args rpc args) e = (r, d1, e1)"
    by (cases "run ''ssh'' (ssh_args rpc args) e")
  show ?thesis
  proof (cases r)
    case (Inl err)
    with assms run show ?thesis by (simp add: run_helper_cmd_def)
  next
    case (Inr outp)
    with assms run have "cmd_success outp" "from_utf8 (cmd_stdout outp) = Inr text" "d1 = d" "e1 = e'"
      by (auto simp: run_helper_cmd_def split: if_splits sum.splits)
    with run Inr show ?thesis by (auto simp: from_utf8_Inr)
  qed
qed

lemma rpc_observe_backend_Inr:
  assumes "call (rpc_ensure_started run js rpc) w = (Inr st, w1)"
  shows "\<exists>o' w'. rpc_observe_backend run js rpc request w = (Inr o', w')
    \<and> ob_lifecycle o' = ob_lifecycle st \<and> ob_error o' = ob_error st"
  using assms by (auto simp: rpc_observe_backend_def split: prod.split sum.split)

text \<open>
  An operating system that keeps a ledger: the children that were spawned and not dropped.
\<close>

definition ledger :: "('c, 'e) process_os \<Rightarrow> ('c, 'e \<times> 'c multiset) process_os" where
  "ledger os = \<lparr>
     spawn_ssh = (\<lambda>args (e, L). case spawn_ssh os args e of
        (Inr c, d, e) \<Rightarrow> (Ok c, d, (e, add_mset c L)) | (Inl err, d, e) \<Rightarrow> (Err err, d, (e, L))),
     try_wait = (\<lambda>c (e, L). case try_wait os c e of (r, d, e) \<Rightarrow> (r, d, (e, L))),
     drop_child = (\<lambda>c (e, L). (drop_child os c e, L - {#c#}))\<rparr>"

definition children :: "'c option \<Rightarrow> 'c multiset" where
  "children proc = (case proc of None \<Rightarrow> {#} | Some c \<Rightarrow> {#c#})"

lemma children_simps [simp]: "children None = {#}" "children (Some c) = {#c#}"
  by (simp_all add: children_def)

lemma create_tunnel_ledger:
  "create_tunnel (ledger os) m w = (r, w') \<Longrightarrow>
     snd (env w') = snd (env w) + (case r of Inl _ \<Rightarrow> {#} | Inr c \<Rightarrow> {#c#})"
  by (auto simp: create_tunnel_def ledger_def call_def dropped_def sleep_ms_def
      split: prod.splits sum.splits option.splits)

lemma create_tunnel_Ok:
  "create_tunnel os m w = (Inr c, w') \<Longrightarrow> \<exists>v. call (try_wait os c) v = (Ok None, w')"
  by (auto simp: create_tunnel_def split: prod.splits sum.splits option.splits)

lemma replace_tunnel_cases:
  assumes "replace_tunnel (ledger os) m w = (r, proc', w')"
  shows "snd (env w') = snd (env w) + children proc'
    \<and> (case r of Inr t \<Rightarrow> t = TsReady \<and> (\<exists>c v. proc' = Some c \<and> call (try_wait (ledger os) c) v = (Ok None, w'))
        | Inl _ \<Rightarrow> proc' = None)"
proof -
  obtain c w1 where c: "create_tunnel (ledger os) m w = (c, w1)" by (cases "create_tunnel (ledger os) m w")
  with assms show ?thesis
    using create_tunnel_ledger [OF c] create_tunnel_Ok [of "ledger os" m w]
    by (cases c) (auto simp: replace_tunnel_def)
qed

section \<open>Properties\<close>

text \<open>
  C21: The tunnel manager never leaks or loses an \<open>ssh\<close> child. From a state in which the live
  children are exactly the manager's, every call of \<open>ensure_tunnel\<close> leaves it so, on every
  path (the spawn fails, the child dies at once or later, its state cannot be read); and the
  answer is about that child: \<open>Ready\<close> means the manager holds a child that the last look
  found running, \<open>Down\<close> that the child it holds could not be examined, an error that there is
  no child, and \<open>Connecting\<close> is never answered.
\<close>

theorem tunnel_owns_its_children:
  "case tunnel_ensure (ledger os) m proc \<lparr>clock = t, env = (e, children proc)\<rparr> of
     (r, proc', w') \<Rightarrow> snd (env w') = children proc' \<and>
       (case r of
          Inr TsReady \<Rightarrow> \<exists>c v. proc' = Some c \<and> call (try_wait (ledger os) c) v = (Ok None, w')
        | Inr TsDown \<Rightarrow> proc' = proc \<and> proc \<noteq> None
        | Inr TsConnecting \<Rightarrow> False
        | Inl _ \<Rightarrow> proc' = None)"
proof (cases proc)
  case None
  obtain r proc' w' where r: "replace_tunnel (ledger os) m \<lparr>clock = t, env = (e, children proc)\<rparr> = (r, proc', w')"
    by (cases "replace_tunnel (ledger os) m \<lparr>clock = t, env = (e, children proc)\<rparr>")
  from None r replace_tunnel_cases [OF r] show ?thesis
    by (auto simp: tunnel_ensure_def split: sum.splits)
next
  case (Some child)
  let ?w = "\<lparr>clock = t, env = (e, children proc)\<rparr>"
  obtain st w1 where st: "call (try_wait (ledger os) child) ?w = (st, w1)"
    by (cases "call (try_wait (ledger os) child) ?w")
  then have led: "snd (env w1) = {#child#}"
    by (auto simp: call_def ledger_def Some split: prod.splits)
  show ?thesis
  proof (cases "\<exists>x. st = Inr (Some x)")
    case True
    obtain r proc' w' where r: "replace_tunnel (ledger os) m (dropped (ledger os) child w1) = (r, proc', w')"
      by (cases "replace_tunnel (ledger os) m (dropped (ledger os) child w1)")
    have "snd (env (dropped (ledger os) child w1)) = {#}"
      using led by (cases "env w1") (simp add: dropped_def ledger_def)
    with True Some r st replace_tunnel_cases [OF r] show ?thesis
      by (auto simp: tunnel_ensure_def split: sum.splits)
  next
    case False
    with Some st led show ?thesis
      by (auto simp: tunnel_ensure_def split: sum.split option.split)
  qed
qed

text \<open>
  The magic packet for a six-byte address is the 102 bytes of the protocol: six times
  \<open>0xFF\<close>, then the address sixteen times.
\<close>

theorem magic_packet_layout:
  assumes "length mac = 6"
  shows "length (magic_packet mac) = 102
    \<and> (\<forall>i<102. magic_packet mac ! i = (if i < 6 then 0xFF else mac ! (i mod 6)))"
proof -
  have "magic_packet mac ! i = mac ! (i mod 6)" if "\<not> i < 6" "i < 102" for i
  proof -
    have "magic_packet mac ! i = concat (replicate 16 mac) ! (i - 6)"
      using that by (simp only: magic_packet_def nth_append length_replicate if_False)
    also have "\<dots> = mac ! ((i - 6) mod length mac)"
      by (rule nth_concat_replicate) (use that assms in simp)
    also have "\<dots> = mac ! (i mod 6)"
      using that assms by (simp add: le_mod_geq)
    finally show ?thesis .
  qed
  moreover have "magic_packet mac ! i = 0xFF" if "i < 6" for i
    using that by (simp only: magic_packet_def nth_append length_replicate if_True nth_replicate)
  ultimately show ?thesis using length_magic_packet [OF assms] by simp
qed

theorem magic_packet_layout_witness:
  "length (magic_packet [1, 2, 3, 4, 5, 6]) = 102 \<and> magic_packet [1, 2, 3, 4, 5, 6] ! 101 = 6"
  using magic_packet_layout [of "[1, 2, 3, 4, 5, 6]"] by simp

text \<open>
  What an observation over SSH reports. It is an error exactly when the helper command
  failed or its output does not parse; otherwise the parsed answer of the helper decides:
  ready iff the answer is \<open>ok\<close> with a verified model, warming iff it is \<open>ok\<close> without one, error
  with the helper's message iff it is a mismatch or an error. The second command (\<open>status\<close>)
  can only refine the unit states, never the verdict.
\<close>

theorem observation_follows_helper:
  "case rpc_observe_backend run js rpc request w of
     (Inl _, w') \<Rightarrow>
       \<nexists>text er w1. call (run_helper_cmd run rpc (ensure_command rpc)) w = (Ok text, w1)
         \<and> read_ensure js text = Ok er
   | (Inr o', w') \<Rightarrow>
       \<exists>text er w1. call (run_helper_cmd run rpc (ensure_command rpc)) w = (Ok text, w1)
         \<and> read_ensure js text = Ok er
         \<and> ob_lifecycle o' = ensure_lifecycle er
         \<and> ob_error o' = (if er_status er = HsOk then None else Some (er_message er))"
proof -
  obtain r w1 where cmd: "call (run_helper_cmd run rpc (ensure_command rpc)) w = (r, w1)"
    by (cases "call (run_helper_cmd run rpc (ensure_command rpc)) w")
  have ens: "call (rpc_ensure_started run js rpc) w =
      ((case r of Inl err \<Rightarrow> Inl err
        | Inr output \<Rightarrow> (case read_ensure js output of
            Inl err \<Rightarrow> Inl (LifecycleError (''failed to parse ensure-started response: '' @ err))
          | Inr er \<Rightarrow> Inr (observed_of_ensure er))), w1)"
    using cmd by (auto simp: call_def rpc_ensure_started_def split: prod.splits sum.splits)
  show ?thesis
  proof (cases "\<exists>text er. r = Inr text \<and> read_ensure js text = Inr er")
    case True
    then obtain line er where t: "r = Inr line" "read_ensure js line = Inr er" by blast
    with ens rpc_observe_backend_Inr [of run js rpc w "observed_of_ensure er" w1 request]
    obtain o' w' where "rpc_observe_backend run js rpc request w = (Inr o', w')"
        "ob_lifecycle o' = ensure_lifecycle er"
        "ob_error o' = (if er_status er = HsOk then None else Some (er_message er))"
      by (auto simp: observed_of_ensure_def split: helper_status.splits)
    with cmd t show ?thesis by auto
  next
    case False
    with ens cmd show ?thesis
      by (auto simp: rpc_observe_backend_def split: sum.splits)
  qed
qed

end
