(* ===== verification/Config.thy ===== *)
theory Config
  imports Rust_Text
begin

text \<open>
  \<open>src/src/config.rs\<close>: the configuration read from the environment. The environment is a
  map from variable names to values (a variable that is unset or not Unicode is absent,
  as \<open>env::var(..).ok()\<close> has it); an \<open>expect\<close> that fails is an \<open>Err\<close> with its message.
\<close>

type_synonym environment = "string \<rightharpoonup> string"

record model_config =
  mc_alias :: string
  mc_provider_id :: string
  mc_owned_by :: string

record embeddings_backend_config =
  eb_alias :: string
  eb_provider_id :: string
  eb_owned_by :: string
  eb_model_path :: string
  eb_tunnel_local_port :: u16
  eb_remote_port :: u16

record embeddings_config =
  ec_enabled :: bool
  ec_backend :: "embeddings_backend_config option"

record warm_execution_config =
  max_active_requests :: nat
  max_queued_requests :: nat
  queue_timeout_ms :: nat

record host_config =
  hc_host :: string
  hc_ssh_user :: string
  hc_ssh_port :: u16
  hc_wol_mac :: "u8 list"
  hc_wol_broadcast :: string
  hc_wol_port :: u16
  hc_helper_path :: string
  hc_model_path :: string
  hc_ssh_key_path :: string
  hc_tunnel_local_port :: u16
  hc_remote_port :: u16

record app_config =
  ac_listen_port :: u16
  ac_model :: model_config
  ac_embeddings :: embeddings_config
  ac_warm_execution :: warm_execution_config
  ac_host :: host_config
  ac_cold_start_max_waiting :: nat

definition warm_execution_default :: warm_execution_config where
  "warm_execution_default =
     \<lparr>max_active_requests = 2, max_queued_requests = 16, queue_timeout_ms = 30000\<rparr>"

section \<open>Reading variables\<close>

text \<open>
  \<open>value.trim().is_empty()\<close>: only white space, where white space is Unicode's, in the
  UTF-8 encoding.
\<close>

fun is_blank :: "string \<Rightarrow> bool" where
  "is_blank [] = True"
| "is_blank (a # s) =
     (let n = of_char a :: nat in
      if (9 \<le> n \<and> n \<le> 13) \<or> n = 32 then is_blank s
      else (case s of [] \<Rightarrow> False
        | b # s' \<Rightarrow> (let m = of_char b :: nat in
            if n = 0xC2 then (m = 0x85 \<or> m = 0xA0) \<and> is_blank s'
            else (case s' of [] \<Rightarrow> False
              | c # s'' \<Rightarrow> (let k = of_char c :: nat in
                  ((n = 0xE1 \<and> m = 0x9A \<and> k = 0x80)
                   \<or> (n = 0xE2 \<and> m = 0x80 \<and> ((0x80 \<le> k \<and> k \<le> 0x8A) \<or> k = 0xA8 \<or> k = 0xA9 \<or> k = 0xAF))
                   \<or> (n = 0xE2 \<and> m = 0x81 \<and> k = 0x9F)
                   \<or> (n = 0xE3 \<and> m = 0x80 \<and> k = 0x80)) \<and> is_blank s'')))))"

definition read_var :: "environment \<Rightarrow> string \<Rightarrow> string option" where
  "read_var e name = opt_filter (\<lambda>value. \<not> is_blank value) (e name)"

definition read_positive_usize :: "environment \<Rightarrow> string \<Rightarrow> nat \<Rightarrow> nat" where
  "read_positive_usize e name def =
     unwrap_or def (opt_filter (\<lambda>value. 0 < value) (Option.bind (read_var e name) parse_usize))"

definition read_nonnegative_usize :: "environment \<Rightarrow> string \<Rightarrow> nat \<Rightarrow> nat" where
  "read_nonnegative_usize e name def = unwrap_or def (Option.bind (read_var e name) parse_usize)"

definition read_port :: "environment \<Rightarrow> string \<Rightarrow> u16 \<Rightarrow> u16" where
  \<comment> \<open>the inline \<open>read_var(..).and_then(|v| v.parse().ok()).unwrap_or(..)\<close> on a \<open>u16\<close> field\<close>
  "read_port e name def = unwrap_or def (Option.bind (read_var e name) parse_u16)"

definition read_string :: "environment \<Rightarrow> string \<Rightarrow> string \<Rightarrow> string" where
  \<comment> \<open>the inline \<open>read_var(..).unwrap_or_else(..)\<close>\<close>
  "read_string e name def = unwrap_or def (read_var e name)"

section \<open>MAC addresses\<close>

primrec parse_octets :: "string list \<Rightarrow> u8 list option" where
  "parse_octets [] = Some []"
| "parse_octets (p # ps) = (case parse_unsigned 16 max_u8 p of None \<Rightarrow> None
     | Some n \<Rightarrow> map_option (\<lambda>ms. of_nat n # ms) (parse_octets ps))"

definition parse_mac :: "string \<Rightarrow> u8 list option" where
  "parse_mac input = (let parts = split_char (CHR '':'') input
     in if length parts \<noteq> 6 then None else parse_octets parts)"

section \<open>The configuration\<close>

definition read_embeddings_backend :: "environment \<Rightarrow> model_config \<Rightarrow> embeddings_backend_config option" where
  "read_embeddings_backend e model = map_option (\<lambda>model_path.
     \<lparr>eb_alias = read_string e ''EMBEDDINGS_MODEL_ALIAS'' (mc_alias model @ ''-embeddings''),
      eb_provider_id = read_string e ''EMBEDDINGS_MODEL_PROVIDER_ID'' (mc_provider_id model),
      eb_owned_by = read_string e ''EMBEDDINGS_MODEL_OWNED_BY'' (mc_owned_by model),
      eb_model_path = model_path,
      eb_tunnel_local_port = read_port e ''EMBEDDINGS_TUNNEL_LOCAL_PORT'' 18081,
      eb_remote_port = read_port e ''EMBEDDINGS_LLAMA_SERVER_PORT'' 8081\<rparr>)
     (read_var e ''EMBEDDINGS_MODEL_PATH'')"

definition embeddings_enabled_flag :: "environment \<Rightarrow> bool" where
  "embeddings_enabled_flag e = unwrap_or True
     (map_option (\<lambda>value. value \<in> {''1'', ''true'', ''TRUE'', ''yes''}) (read_var e ''EMBEDDINGS_ENABLED''))"

definition expect_var :: "environment \<Rightarrow> string \<Rightarrow> (string, string) res" where
  "expect_var e name = (case read_var e name of None \<Rightarrow> Err (name @ '' must be set'') | Some v \<Rightarrow> Ok v)"

definition read_host :: "environment \<Rightarrow> (string, host_config) res" where
  "read_host e =
     (case expect_var e ''SSH_HOST'' of Inl p \<Rightarrow> Inl p | Inr host \<Rightarrow>
     (case expect_var e ''SSH_USER'' of Inl p \<Rightarrow> Inl p | Inr ssh_user \<Rightarrow>
     (case expect_var e ''WOL_MAC_ADDRESS'' of Inl p \<Rightarrow> Inl p | Inr mac_str \<Rightarrow>
     (case parse_mac mac_str of
        None \<Rightarrow> Inl ''WOL_MAC_ADDRESS must be in XX:XX:XX:XX:XX:XX format''
      | Some mac \<Rightarrow>
     (case expect_var e ''MODEL_PATH'' of Inl p \<Rightarrow> Inl p | Inr model_path \<Rightarrow>
       Inr \<lparr>hc_host = host, hc_ssh_user = ssh_user,
            hc_ssh_port = read_port e ''SSH_PORT'' 22,
            hc_wol_mac = mac,
            hc_wol_broadcast = read_string e ''WOL_BROADCAST_ADDR'' ''255.255.255.255'',
            hc_wol_port = read_port e ''WOL_PORT'' 9,
            hc_helper_path = read_string e ''HELPER_PATH'' ''/usr/local/bin/llm-wake-proxy-helper'',
            hc_model_path = model_path,
            hc_ssh_key_path = read_string e ''SSH_KEY_PATH'' ''~/.ssh/ssh-privatekey'',
            hc_tunnel_local_port = read_port e ''TUNNEL_LOCAL_PORT'' 18080,
            hc_remote_port = read_port e ''LLAMA_SERVER_PORT'' 8080\<rparr>)))))"

definition read_model :: "environment \<Rightarrow> model_config" where
  "read_model e = \<lparr>mc_alias = read_string e ''MODEL_ALIAS'' ''llm-wake-proxy'',
     mc_provider_id = read_string e ''MODEL_PROVIDER_ID'' ''llama.cpp'',
     mc_owned_by = read_string e ''MODEL_OWNED_BY'' ''llm-wake-proxy''\<rparr>"

definition from_env :: "environment \<Rightarrow> (string, app_config) res" where
  "from_env e =
     (let model = read_model e; embeddings_backend = read_embeddings_backend e model in
      case read_host e of Inl p \<Rightarrow> Inl p
      | Inr host \<Rightarrow>
         Inr \<lparr>ac_listen_port = read_port e ''PORT'' 3000,
              ac_model = model,
              ac_embeddings =
                \<lparr>ec_enabled = (embeddings_backend \<noteq> None \<or> embeddings_enabled_flag e),
                 ec_backend = embeddings_backend\<rparr>,
              ac_warm_execution =
                \<lparr>max_active_requests = read_positive_usize e ''WARM_MAX_ACTIVE_REQUESTS'' 2,
                 max_queued_requests = read_nonnegative_usize e ''WARM_MAX_QUEUED_REQUESTS'' 16,
                 queue_timeout_ms = 1000 * unat (unwrap_or 30
                   (Option.bind (read_var e ''WARM_QUEUE_TIMEOUT_SECS'') parse_u64))\<rparr>,
              ac_host = host,
              ac_cold_start_max_waiting = read_positive_usize e ''COLD_START_MAX_WAITING'' 32\<rparr>)"

section \<open>Facts about the readers\<close>

lemma read_positive_usize_pos: "0 < def \<Longrightarrow> 0 < read_positive_usize e n def"
  by (cases "Option.bind (read_var e n) parse_usize") (auto simp: read_positive_usize_def)

lemma read_nonnegative_usize_bound: "def \<le> max_u64 \<Longrightarrow> read_nonnegative_usize e n def \<le> max_u64"
  by (auto simp: read_nonnegative_usize_def parse_usize_def unwrap_or_def
      split: option.splits bind_splits dest: parse_unsigned_bound)

lemma parse_octets_length: "parse_octets ps = Some ms \<Longrightarrow> length ms = length ps"
  by (induction ps arbitrary: ms) (auto split: option.splits)

lemma parse_mac_length: "parse_mac s = Some m \<Longrightarrow> length m = 6"
  by (auto simp: parse_mac_def Let_def split: if_splits dest: parse_octets_length)

lemma read_var_not_blank: "read_var e n = Some v \<longleftrightarrow> e n = Some v \<and> \<not> is_blank v"
  by (simp add: read_var_def opt_filter_Some_iff)

lemma expect_var_Inr: "expect_var e n = Inr v \<longleftrightarrow> read_var e n = Some v"
  by (simp add: expect_var_def split: option.splits)

lemma from_env_backend_enabled:
  "from_env e = Inr c \<Longrightarrow> ec_backend (ac_embeddings c) \<noteq> None \<Longrightarrow> ec_enabled (ac_embeddings c)"
  by (auto simp: from_env_def Let_def split: sum.splits)

section \<open>Properties\<close>

definition hex_char :: "nat \<Rightarrow> char" where
  "hex_char d = char_of (if d < 10 then 48 + d else 55 + d)"

definition show_octet :: "u8 \<Rightarrow> string" where
  "show_octet b = [hex_char (unat b div 16), hex_char (unat b mod 16)]"

definition show_mac :: "u8 list \<Rightarrow> string" where
  "show_mac mac = join_with '':'' (map show_octet mac)"

lemma digit_val_hex: "d < 16 \<Longrightarrow> digit_val 16 (hex_char d) = Some d"
  by (auto simp: digit_val_def hex_char_def Let_def)

lemma hex_char_neq: "d < 16 \<Longrightarrow> hex_char d \<noteq> CHR '':'' \<and> hex_char d \<noteq> CHR ''+''"
proof -
  assume d: "d < 16"
  have "(of_char (hex_char d) :: nat) = (if d < 10 then 48 + d else 55 + d)"
    using d by (simp add: hex_char_def)
  moreover have "(of_char (CHR '':'') :: nat) = 58" "(of_char (CHR ''+'') :: nat) = 43" by simp_all
  ultimately have "(of_char (hex_char d) :: nat) \<noteq> of_char (CHR '':'')"
    "(of_char (hex_char d) :: nat) \<noteq> of_char (CHR ''+'')"
    using d by auto
  then show ?thesis by metis
qed

lemma octet_bounds: "unat (b :: u8) div 16 < 16" "unat (b :: u8) mod 16 < 16"
  using unsigned_less [where w = b and 'a = nat] by simp_all

lemma parse_show_octet: "parse_unsigned 16 max_u8 (show_octet b) = Some (unat b)"
proof -
  have "unat b < 256" using unsigned_less [where w = b and 'a = nat] by simp
  then show ?thesis
    using hex_char_neq [OF octet_bounds(1) [of b]]
    by (simp add: parse_unsigned_def show_octet_def digit_val_hex octet_bounds max_u8_def)
qed

lemma parse_octets_show: "parse_octets (map show_octet mac) = Some mac"
  by (induction mac) (simp_all add: parse_show_octet)

lemma split_show_mac:
  assumes "mac \<noteq> []"
  shows "split_char (CHR '':'') (show_mac mac) = map show_octet mac"
  unfolding show_mac_def
proof (rule split_join)
  have "CHR '':'' \<notin> set (show_octet b)" for b
    using hex_char_neq [OF octet_bounds(1) [of b]] hex_char_neq [OF octet_bounds(2) [of b]]
    by (simp add: show_octet_def) metis
  then show "\<forall>p\<in>set (map show_octet mac). CHR '':'' \<notin> set p" by simp
qed (use assms in simp)

text \<open>
  C40: MAC addresses are read as they are written. The usual text of a six-byte address (two
  hexadecimal digits per byte, colons between) is parsed as that address, and whatever text
  is accepted has six bytes; texts that are not in the documented form are accepted too, such
  as a sign or a single digit for a byte.
\<close>

theorem mac_roundtrip:
  assumes "length mac = 6"
  shows "parse_mac (show_mac mac) = Some mac
    \<and> (\<forall>s m. parse_mac s = Some m \<longrightarrow> length m = 6)
    \<and> parse_mac ''+1:2:03:4:5:f'' = Some [1, 2, 3, 4, 5, 15]"
proof -
  have "mac \<noteq> []" using assms by auto
  then have "parse_mac (show_mac mac) = Some mac"
    using assms by (simp add: parse_mac_def split_show_mac parse_octets_show)
  moreover have "parse_mac ''+1:2:03:4:5:f'' = Some [1, 2, 3, 4, 5, 15]" by code_simp
  ultimately show ?thesis using parse_mac_length by blast
qed

theorem mac_roundtrip_witness:
  "parse_mac (show_mac [0xAA, 0xBB, 0xCC, 0x0D, 0xEE, 0xFF]) = Some [0xAA, 0xBB, 0xCC, 0x0D, 0xEE, 0xFF]"
  using mac_roundtrip [of "[0xAA, 0xBB, 0xCC, 0x0D, 0xEE, 0xFF]"] by simp

text \<open>
  C36: What the environment must hold and what a configuration guarantees. Start-up panics
  exactly when one of the four required variables is missing or blank, or the MAC address
  does not parse. A configuration that is read has a six-byte address, the host, user and
  model path as they were set, positive limits for active requests and cold-start waiters,
  and, where there is an embeddings backend, embeddings enabled.
\<close>

theorem from_env_valid:
  "case from_env e of
     Inl _ \<Rightarrow> (\<exists>n\<in>{''SSH_HOST'', ''SSH_USER'', ''WOL_MAC_ADDRESS'', ''MODEL_PATH''}. read_var e n = None)
        \<or> Option.bind (read_var e ''WOL_MAC_ADDRESS'') parse_mac = None
   | Inr c \<Rightarrow> read_var e ''SSH_HOST'' = Some (hc_host (ac_host c))
        \<and> read_var e ''SSH_USER'' = Some (hc_ssh_user (ac_host c))
        \<and> read_var e ''MODEL_PATH'' = Some (hc_model_path (ac_host c))
        \<and> Option.bind (read_var e ''WOL_MAC_ADDRESS'') parse_mac = Some (hc_wol_mac (ac_host c))
        \<and> length (hc_wol_mac (ac_host c)) = 6
        \<and> 0 < max_active_requests (ac_warm_execution c) \<and> 0 < ac_cold_start_max_waiting c
        \<and> (ec_backend (ac_embeddings c) = None \<or> ec_enabled (ac_embeddings c))"
proof (cases "from_env e")
  case (Inl p)
  then obtain p' where "read_host e = Inl p'"
    by (auto simp: from_env_def Let_def split: sum.splits)
  then have "(\<exists>n\<in>{''SSH_HOST'', ''SSH_USER'', ''WOL_MAC_ADDRESS'', ''MODEL_PATH''}. read_var e n = None)
        \<or> Option.bind (read_var e ''WOL_MAC_ADDRESS'') parse_mac = None"
    by (auto simp: read_host_def expect_var_def split: sum.splits option.splits)
  with Inl show ?thesis by simp
next
  case (Inr c)
  then obtain h where h: "read_host e = Inr h" "ac_host c = h"
    by (auto simp: from_env_def Let_def split: sum.splits)
  from h(1) have "read_var e ''SSH_HOST'' = Some (hc_host h) \<and> read_var e ''SSH_USER'' = Some (hc_ssh_user h)
      \<and> read_var e ''MODEL_PATH'' = Some (hc_model_path h)
      \<and> Option.bind (read_var e ''WOL_MAC_ADDRESS'') parse_mac = Some (hc_wol_mac h)
      \<and> length (hc_wol_mac h) = 6"
    by (auto simp: read_host_def expect_var_Inr parse_mac_length split: sum.splits option.splits)
  moreover have "0 < max_active_requests (ac_warm_execution c)" "0 < ac_cold_start_max_waiting c"
    "ec_backend (ac_embeddings c) = None \<or> ec_enabled (ac_embeddings c)"
    using Inr by (auto simp: from_env_def Let_def read_positive_usize_pos split: sum.splits)
  ultimately show ?thesis using Inr h(2) by simp
qed

end
