(* ===== verification/Metrics.thy ===== *)
theory Metrics
  imports Prelude
begin

text \<open>
  \<open>src/src/metrics.rs\<close>: the eleven atomic \<open>u64\<close> counters, one increment per counter
  (\<open>fetch_add(1)\<close>, which wraps) and the snapshot that \<open>/status\<close> reports.
\<close>

record metrics =
  cold_starts :: u64
  warm_requests :: u64
  queue_full_rejections :: u64
  queue_timeouts :: u64
  wake_attempts :: u64
  wake_failures :: u64
  tunnel_drops :: u64
  embeddings_degraded :: u64
  forwarding_errors :: u64
  chat_requests :: u64
  embeddings_requests :: u64

definition metrics_default :: metrics where
  "metrics_default = \<lparr>cold_starts = 0, warm_requests = 0, queue_full_rejections = 0,
     queue_timeouts = 0, wake_attempts = 0, wake_failures = 0, tunnel_drops = 0,
     embeddings_degraded = 0, forwarding_errors = 0, chat_requests = 0,
     embeddings_requests = 0\<rparr>"

text \<open>\<open>MetricsSnapshot\<close> has the same fields; a snapshot loads each counter.\<close>

definition snapshot :: "metrics \<Rightarrow> metrics" where
  "snapshot m = \<lparr>cold_starts = cold_starts m, warm_requests = warm_requests m,
     queue_full_rejections = queue_full_rejections m, queue_timeouts = queue_timeouts m,
     wake_attempts = wake_attempts m, wake_failures = wake_failures m,
     tunnel_drops = tunnel_drops m, embeddings_degraded = embeddings_degraded m,
     forwarding_errors = forwarding_errors m, chat_requests = chat_requests m,
     embeddings_requests = embeddings_requests m\<rparr>"

definition inc_cold_starts :: "metrics \<Rightarrow> metrics" where
  "inc_cold_starts m = m\<lparr>cold_starts := cold_starts m + 1\<rparr>"

definition inc_warm_requests :: "metrics \<Rightarrow> metrics" where
  "inc_warm_requests m = m\<lparr>warm_requests := warm_requests m + 1\<rparr>"

definition inc_queue_full :: "metrics \<Rightarrow> metrics" where
  "inc_queue_full m = m\<lparr>queue_full_rejections := queue_full_rejections m + 1\<rparr>"

definition inc_queue_timeouts :: "metrics \<Rightarrow> metrics" where
  "inc_queue_timeouts m = m\<lparr>queue_timeouts := queue_timeouts m + 1\<rparr>"

definition inc_wake_attempts :: "metrics \<Rightarrow> metrics" where
  "inc_wake_attempts m = m\<lparr>wake_attempts := wake_attempts m + 1\<rparr>"

definition inc_wake_failures :: "metrics \<Rightarrow> metrics" where
  "inc_wake_failures m = m\<lparr>wake_failures := wake_failures m + 1\<rparr>"

definition inc_tunnel_drops :: "metrics \<Rightarrow> metrics" where
  "inc_tunnel_drops m = m\<lparr>tunnel_drops := tunnel_drops m + 1\<rparr>"

definition inc_embeddings_degraded :: "metrics \<Rightarrow> metrics" where
  "inc_embeddings_degraded m = m\<lparr>embeddings_degraded := embeddings_degraded m + 1\<rparr>"

definition inc_forwarding_errors :: "metrics \<Rightarrow> metrics" where
  "inc_forwarding_errors m = m\<lparr>forwarding_errors := forwarding_errors m + 1\<rparr>"

definition inc_chat_requests :: "metrics \<Rightarrow> metrics" where
  "inc_chat_requests m = m\<lparr>chat_requests := chat_requests m + 1\<rparr>"

definition inc_embeddings_requests :: "metrics \<Rightarrow> metrics" where
  "inc_embeddings_requests m = m\<lparr>embeddings_requests := embeddings_requests m + 1\<rparr>"

lemmas inc_defs = inc_cold_starts_def inc_warm_requests_def inc_queue_full_def
  inc_queue_timeouts_def inc_wake_attempts_def inc_wake_failures_def inc_tunnel_drops_def
  inc_embeddings_degraded_def inc_forwarding_errors_def inc_chat_requests_def
  inc_embeddings_requests_def

lemma snapshot_id [simp]: "snapshot m = m"
  by (simp add: snapshot_def)

end
