(* ===== verification/App_State.thy ===== *)
theory App_State
  imports Host Config Metrics
begin

text \<open>
  The shared state of the proxy (\<open>src/src/state.rs\<close>). A \<open>dyn LifecycleOrchestrator\<close> is a record
  of its operations over a store \<open>'m\<close> (the lifecycle managers behind the \<open>Arc\<close>s) and the
  world; \<open>production\<close> builds the two managers on the ports of \<open>Host\<close>, \<open>new\<close> builds one on the
  no-op ports. The counter of the cold-start semaphore says how many permits are out.
\<close>

section \<open>Orchestrator objects and the shared state\<close>

record ('m, 'e) lifecycle_ops =
  lo_status :: "'m \<Rightarrow> backend_status"
  lo_ensure_backend :: "lifecycle_request \<Rightarrow> 'm \<times> 'e world \<Rightarrow> lifecycle_decision \<times> 'm \<times> 'e world"
  lo_degrade_embeddings :: "string \<Rightarrow> 'm \<Rightarrow> 'm"
  lo_mark_warming :: "'m \<Rightarrow> 'm"

record ('m, 'e) app_state =
  as_config :: app_config
  as_chat_lifecycle :: "('m, 'e) lifecycle_ops"
  as_embeddings_lifecycle :: "('m, 'e) lifecycle_ops"
  as_managers :: 'm
  as_metrics :: metrics
  as_prev_chat_tunnel_was_ready :: bool
  as_prev_embeddings_tunnel_was_ready :: bool
  as_cold_used :: nat
  as_world :: "'e world"

definition lifecycle_for :: "('m, 'e) app_state \<Rightarrow> lifecycle_request \<Rightarrow> ('m, 'e) lifecycle_ops" where
  "lifecycle_for st kind = (case kind of Chat \<Rightarrow> as_chat_lifecycle st
     | Embeddings \<Rightarrow> as_embeddings_lifecycle st)"

definition model_alias_for :: "app_config \<Rightarrow> lifecycle_request \<Rightarrow> string" where
  "model_alias_for c kind = (case kind of Chat \<Rightarrow> mc_alias (ac_model c)
     | Embeddings \<Rightarrow> unwrap_or (mc_alias (ac_model c)) (map_option eb_alias (ec_backend (ac_embeddings c))))"

definition tunnel_port_for :: "app_config \<Rightarrow> lifecycle_request \<Rightarrow> u16" where
  "tunnel_port_for c kind = (case kind of Chat \<Rightarrow> hc_tunnel_local_port (ac_host c)
     | Embeddings \<Rightarrow> unwrap_or (hc_tunnel_local_port (ac_host c))
         (map_option eb_tunnel_local_port (ec_backend (ac_embeddings c))))"

definition is_cold :: "('m, 'e) app_state \<Rightarrow> lifecycle_request \<Rightarrow> bool" where
  "is_cold st kind = (bs_lifecycle (lo_status (lifecycle_for st kind) (as_managers st)) = LsCold)"

definition check_tunnel_drop ::
  "('m, 'e) app_state \<Rightarrow> lifecycle_request \<Rightarrow> tunnel_state \<Rightarrow> bool \<times> ('m, 'e) app_state" where
  "check_tunnel_drop st kind current_tunnel = (case kind of
       Chat \<Rightarrow> (as_prev_chat_tunnel_was_ready st \<and> current_tunnel \<noteq> TsReady,
                st\<lparr>as_prev_chat_tunnel_was_ready := (current_tunnel = TsReady)\<rparr>)
     | Embeddings \<Rightarrow> (as_prev_embeddings_tunnel_was_ready st \<and> current_tunnel \<noteq> TsReady,
                st\<lparr>as_prev_embeddings_tunnel_was_ready := (current_tunnel = TsReady)\<rparr>))"

text \<open>\<open>Semaphore::new\<close> panics (\<open>None\<close>) above \<open>usize::MAX >> 3\<close>; \<open>try_acquire_owned\<close> and the drop.\<close>

definition semaphore_new :: "nat \<Rightarrow> nat option" where
  "semaphore_new n = (if n < 2 ^ 61 then Some n else None)"

definition cold_acquire :: "nat \<Rightarrow> nat \<Rightarrow> nat option" where
  "cold_acquire max_waiting used = (if used < max_waiting then Some (Suc used) else None)"

definition cold_release :: "nat \<Rightarrow> nat" where
  "cold_release used = used - 1"

interpretation cold_start: bounded_pool "ac_cold_start_max_waiting cfg" "\<lambda>u::nat. u"
    "cold_acquire (ac_cold_start_max_waiting cfg)" cold_release
  for cfg :: "'a app_config_scheme"
  by unfold_locales (auto simp: cold_acquire_def cold_release_def split: if_splits)

section \<open>The ports of production\<close>

text \<open>
  What the ports use of the operating system, and the environment the managers run in: the
  outside and the two children the tunnel managers own.
\<close>

record ('c, 'e) host_os =
  ho_udp :: "'e udp"
  ho_connect :: "string \<Rightarrow> ('e, (string, unit) res) ext_call"
  ho_run :: "'e run_command"
  ho_json :: helper_json
  ho_process :: "('c, 'e) process_os"
  ho_time :: "'e world \<Rightarrow> timestamp"

record ('c, 'e) proxy_env =
  pe_os :: 'e
  pe_chat_child :: "'c option"
  pe_embeddings_child :: "'c option"

definition on_os :: "('e, 'r) ext_call \<Rightarrow> (('c, 'e) proxy_env, 'r) ext_call" where
  "on_os f pe = (case f (pe_os pe) of (r, d, e) \<Rightarrow> (r, d, pe\<lparr>pe_os := e\<rparr>))"

definition tunnel_call ::
  "('c, 'e) process_os \<Rightarrow> ssh_tunnel_manager \<Rightarrow> target
   \<Rightarrow> (('c, 'e) proxy_env, (lifecycle_error, tunnel_state) res) ext_call" where
  "tunnel_call os m t pe =
     (case tunnel_ensure os m (case t of TChat \<Rightarrow> pe_chat_child pe | TEmbeddings \<Rightarrow> pe_embeddings_child pe)
             \<lparr>clock = 0, env = pe_os pe\<rparr> of
        (r, child, w) \<Rightarrow> (r, clock w,
          (case t of TChat \<Rightarrow> pe\<lparr>pe_os := env w, pe_chat_child := child\<rparr>
           | TEmbeddings \<Rightarrow> pe\<lparr>pe_os := env w, pe_embeddings_child := child\<rparr>)))"

definition production_ports ::
  "('c, 'e) host_os \<Rightarrow> wol_wake_requester \<Rightarrow> ssh_tcp_probe \<Rightarrow> ssh_helper_rpc \<Rightarrow> ssh_tunnel_manager
   \<Rightarrow> ('c, 'e) proxy_env ports" where
  "production_ports os wake ssh rpc tunnel = \<lparr>
     request_wake = (\<lambda>r. on_os (as_call (wol_request_wake (ho_udp os) wake r))),
     is_ready = on_os (ssh_is_ready (ho_connect os) ssh),
     observe_backend = (\<lambda>r. on_os (as_call (rpc_observe_backend (ho_run os) (ho_json os) rpc r))),
     ensure_tunnel = tunnel_call (ho_process os) tunnel (rpc_target rpc),
     now = (\<lambda>w. ho_time os \<lparr>clock = clock w, env = pe_os (env w)\<rparr>)\<rparr>"

definition wake_of :: "host_config \<Rightarrow> wol_wake_requester" where
  "wake_of h = \<lparr>wol_mac = hc_wol_mac h, wol_broadcast = hc_wol_broadcast h, wol_port = hc_wol_port h\<rparr>"

definition probe_of :: "host_config \<Rightarrow> ssh_tcp_probe" where
  "probe_of h = \<lparr>probe_host = hc_host h, probe_port = hc_ssh_port h\<rparr>"

definition rpc_of :: "host_config \<Rightarrow> string \<Rightarrow> string \<Rightarrow> target \<Rightarrow> ssh_helper_rpc" where
  "rpc_of h model_path model_alias t = \<lparr>rpc_ssh_user = hc_ssh_user h, rpc_ssh_host = hc_host h,
     rpc_helper_path = hc_helper_path h, rpc_model_path = model_path, rpc_model_alias = model_alias,
     rpc_ssh_key_path = hc_ssh_key_path h, rpc_target = t\<rparr>"

definition tunnel_of :: "host_config \<Rightarrow> u16 \<Rightarrow> u16 \<Rightarrow> ssh_tunnel_manager" where
  "tunnel_of h local_port remote_port = \<lparr>tm_ssh_user = hc_ssh_user h, tm_ssh_host = hc_host h,
     tm_local_port = local_port, tm_remote_port = remote_port, tm_ssh_key_path = hc_ssh_key_path h\<rparr>"

text \<open>\<open>NoopWakeRequester\<close>, \<open>NoopSshReadinessProbe\<close>, \<open>NoopHelperRpc\<close>, \<open>NoopTunnelOwner\<close>, with the clock.\<close>

definition noop_ports :: "('e world \<Rightarrow> timestamp) \<Rightarrow> 'e ports" where
  "noop_ports time = \<lparr>
     request_wake = (\<lambda>r e. (Ok (), 0, e)),
     is_ready = (\<lambda>e. (Ok False, 0, e)),
     observe_backend = (\<lambda>r e. (Ok \<lparr>ob_lifecycle = LsWarming, ob_chat = CsReady, ob_embeddings = CsReady,
        ob_embeddings_reason = None, ob_error = None, ob_llama_server_unit = UsUnknown,
        ob_inhibit_unit = UsUnknown\<rparr>, 0, e)),
     ensure_tunnel = (\<lambda>e. (Ok TsDown, 0, e)),
     now = time\<rparr>"

section \<open>Managers as orchestrator objects\<close>

record managers =
  mg_chat :: core
  mg_embeddings :: core

definition chat_ops ::
  "'e ports \<Rightarrow> lifecycle_timing \<Rightarrow> 'e surroundings \<Rightarrow> (managers, 'e) lifecycle_ops" where
  "chat_ops P tm around = \<lparr>
     lo_status = (\<lambda>m. co_status (mg_chat m)),
     lo_ensure_backend = (\<lambda>r (m, w). case ensure_backend P tm around r (mg_chat m, w) of
        (d, c, w) \<Rightarrow> (d, m\<lparr>mg_chat := c\<rparr>, w)),
     lo_degrade_embeddings = (\<lambda>reason m. m\<lparr>mg_chat := degrade_embeddings reason (mg_chat m)\<rparr>),
     lo_mark_warming = (\<lambda>m. m\<lparr>mg_chat := mark_warming (mg_chat m)\<rparr>)\<rparr>"

definition embeddings_ops ::
  "'e ports \<Rightarrow> lifecycle_timing \<Rightarrow> 'e surroundings \<Rightarrow> (managers, 'e) lifecycle_ops" where
  "embeddings_ops P tm around = \<lparr>
     lo_status = (\<lambda>m. co_status (mg_embeddings m)),
     lo_ensure_backend = (\<lambda>r (m, w). case ensure_backend P tm around r (mg_embeddings m, w) of
        (d, c, w) \<Rightarrow> (d, m\<lparr>mg_embeddings := c\<rparr>, w)),
     lo_degrade_embeddings = (\<lambda>reason m. m\<lparr>mg_embeddings := degrade_embeddings reason (mg_embeddings m)\<rparr>),
     lo_mark_warming = (\<lambda>m. m\<lparr>mg_embeddings := mark_warming (mg_embeddings m)\<rparr>)\<rparr>"

definition managers_default :: managers where
  "managers_default = \<lparr>mg_chat = core_new backend_status_default,
     mg_embeddings = core_new backend_status_default\<rparr>"

definition assemble ::
  "app_config \<Rightarrow> (managers, 'e) lifecycle_ops \<Rightarrow> (managers, 'e) lifecycle_ops \<Rightarrow> 'e world
   \<Rightarrow> (managers, 'e) app_state option" where
  \<comment> \<open>the fields both constructors fill alike; either semaphore may panic\<close>
  "assemble config chat embeddings w =
     (case semaphore_new (max_active_requests (ac_warm_execution config)) of None \<Rightarrow> None
      | Some _ \<Rightarrow>
     (case semaphore_new (ac_cold_start_max_waiting config) of None \<Rightarrow> None
      | Some _ \<Rightarrow> Some \<lparr>as_config = config, as_chat_lifecycle = chat, as_embeddings_lifecycle = embeddings,
          as_managers = managers_default, as_metrics = metrics_default,
          as_prev_chat_tunnel_was_ready = False, as_prev_embeddings_tunnel_was_ready = False,
          as_cold_used = 0, as_world = w\<rparr>))"

definition app_state_new ::
  "('e world \<Rightarrow> timestamp) \<Rightarrow> lifecycle_timing \<Rightarrow> 'e surroundings \<Rightarrow> app_config \<Rightarrow> 'e world
   \<Rightarrow> (managers, 'e) app_state option" where
  "app_state_new time tm around config w =
     assemble config (chat_ops (noop_ports time) tm around) (chat_ops (noop_ports time) tm around) w"

definition production ::
  "('c, 'e) host_os \<Rightarrow> lifecycle_timing \<Rightarrow> ('c, 'e) proxy_env surroundings \<Rightarrow> app_config
   \<Rightarrow> ('c, 'e) proxy_env world \<Rightarrow> (managers, ('c, 'e) proxy_env) app_state option" where
  "production os tm around config w =
     (let h = ac_host config; wake = wake_of h; ssh = probe_of h;
          chat = chat_ops (production_ports os wake ssh
            (rpc_of h (hc_model_path h) (mc_alias (ac_model config)) TChat)
            (tunnel_of h (hc_tunnel_local_port h) (hc_remote_port h))) tm around;
          embeddings = (case ec_backend (ac_embeddings config) of
              Some backend \<Rightarrow> embeddings_ops (production_ports os wake ssh
                (rpc_of h (eb_model_path backend) (eb_alias backend) TEmbeddings)
                (tunnel_of h (eb_tunnel_local_port backend) (eb_remote_port backend))) tm around
            | None \<Rightarrow> chat)
      in assemble config chat embeddings w)"

section \<open>Properties\<close>

text \<open>
  However the requests take and drop them, there are never more cold-start permits out
  than the configured limit (\<open>True\<close> takes one, \<open>False\<close> drops one).
\<close>

theorem cold_permits_bounded:
  "fold (\<lambda>b u. if b then (case cold_acquire (ac_cold_start_max_waiting cfg) u of None \<Rightarrow> u | Some v \<Rightarrow> v)
      else cold_release u) history 0 \<le> ac_cold_start_max_waiting cfg"
  by (rule cold_start.run_bound) simp

text \<open>
  Start-up panics on limits that the configuration accepts: \<open>production\<close> gives a state
  exactly when both the limit of active requests and the one of cold-start waiters are below
  \<open>2 ^ 61\<close> (tokio's maximum of permits), while a configuration can hold any positive \<open>usize\<close>.
\<close>

theorem production_starts_iff:
  "(production os tm around config w \<noteq> None) =
    (max_active_requests (ac_warm_execution config) < 2 ^ 61 \<and> ac_cold_start_max_waiting config < 2 ^ 61)"
  by (simp add: production_def assemble_def semaphore_new_def Let_def)

definition chat_ports ::
  "('c, 'e) host_os \<Rightarrow> app_config \<Rightarrow> ('c, 'e) proxy_env ports" where
  "chat_ports os config = (let h = ac_host config in
     production_ports os (wake_of h) (probe_of h)
       (rpc_of h (hc_model_path h) (mc_alias (ac_model config)) TChat)
       (tunnel_of h (hc_tunnel_local_port h) (hc_remote_port h)))"

text \<open>
  The configured SSH port is only probed. In production the readiness check connects to
  the configured port, but the helper's commands and the tunnel run \<open>ssh\<close> with the same
  arguments whatever that port is, and so use the default one.
\<close>

theorem ssh_port_only_probed:
  "let config' = config\<lparr>ac_host := (ac_host config)\<lparr>hc_ssh_port := port\<rparr>\<rparr> in
     observe_backend (chat_ports os config') = observe_backend (chat_ports os config)
     \<and> ensure_tunnel (chat_ports os config') = ensure_tunnel (chat_ports os config)
     \<and> request_wake (chat_ports os config') = request_wake (chat_ports os config)
     \<and> is_ready (chat_ports os config') = on_os (ssh_is_ready (ho_connect os)
          \<lparr>probe_host = hc_host (ac_host config), probe_port = port\<rparr>)"
  by (simp add: chat_ports_def production_ports_def wake_of_def probe_of_def rpc_of_def tunnel_of_def Let_def)

end
