(* ===== verification/Json_Text.thy ===== *)
theory Json_Text
  imports Utf8 Http_Error
begin

text \<open>
  What the program relies on of \<open>serde_json\<close>'s texts: a value that the printer printed is read back.
  The reader and the printer stay parameters; \<open>reads_printed_json\<close> states that behaviour for the
  values that the library promises it of, and a compact printer with its reader, proved to agree,
  shows that it can hold.
\<close>

section \<open>The values that are read back\<close>

text \<open>
  The members of an object are a map sorted by the bytes of its keys, strings are UTF-8, the
  reader stops at 128 levels of nesting, and a negative number is below zero. A \<open>Float\<close> is not
  included: without its feature \<open>float_roundtrip\<close> the library may read back a neighbouring one.
\<close>

fun bytes_less :: "string \<Rightarrow> string \<Rightarrow> bool" where
  "bytes_less s [] = False"
| "bytes_less [] (d # t) = True"
| "bytes_less (c # s) (d # t) = (byte c < byte d \<or> c = d \<and> bytes_less s t)"

fun plain_json :: "nat \<Rightarrow> json \<Rightarrow> bool" where
  "plain_json n JNull = True"
| "plain_json n (JBool b) = True"
| "plain_json n (JNumber (PosInt x)) = True"
| "plain_json n (JNumber (NegInt i)) = (sint i < 0)"
| "plain_json n (JNumber (Float b)) = False"
| "plain_json n (JString s) = valid_utf8 s"
| "plain_json n (JArray xs) = (0 < n \<and> list_all (plain_json (n - 1)) xs)"
| "plain_json n (JObject ms) = (0 < n \<and> sorted_wrt bytes_less (map fst ms)
     \<and> list_all (\<lambda>m. valid_utf8 (fst m) \<and> plain_json (n - 1) (snd m)) ms)"

definition reads_printed_json ::
  "(string \<Rightarrow> (string, json) res) \<Rightarrow> (json \<Rightarrow> (string, string) res) \<Rightarrow> bool" where
  "reads_printed_json parse print = (\<forall>v. plain_json 127 v \<longrightarrow> (\<exists>s. print v = Ok s \<and> parse s = Ok v))"

lemma plain_set_member:
  assumes "plain_json n (JObject ms)" "valid_utf8 s"
  shows "plain_json n (JObject (set_member k (JString s) ms))"
proof -
  have "list_all (\<lambda>m. valid_utf8 (fst m) \<and> plain_json (n - 1) (snd m)) (set_member k (JString s) ms)"
    if "list_all (\<lambda>m. valid_utf8 (fst m) \<and> plain_json (n - 1) (snd m)) ms"
    using that assms(2) by (induction ms) auto
  with assms(1) show ?thesis by (simp add: set_member_keys)
qed

section \<open>A compact printer\<close>

definition escape :: "char \<Rightarrow> string" where
  "escape c = (if c = CHR 0x22 then [CHR 0x5C, CHR 0x22] else if c = CHR 0x5C then [CHR 0x5C, CHR 0x5C]
     else if c = CHR 0x08 then [CHR 0x5C, CHR ''b''] else if c = CHR 0x09 then [CHR 0x5C, CHR ''t'']
     else if c = CHR 0x0A then [CHR 0x5C, CHR ''n''] else if c = CHR 0x0C then [CHR 0x5C, CHR ''f'']
     else if c = CHR 0x0D then [CHR 0x5C, CHR ''r'']
     else if byte c < 0x20 then [CHR 0x5C, CHR ''u'', CHR ''0'', CHR ''0'',
       digit_char (byte c div 16), digit_char (byte c mod 16)]
     else [c])"

definition show_string :: "string \<Rightarrow> string" where
  "show_string s = [CHR 0x22] @ concat (map escape s) @ [CHR 0x22]"

fun show_json :: "json \<Rightarrow> string" where
  "show_json JNull = ''null''"
| "show_json (JBool b) = (if b then ''true'' else ''false'')"
| "show_json (JNumber x) = (case x of PosInt n \<Rightarrow> show_nat (unat n)
     | NegInt i \<Rightarrow> ''-'' @ show_nat (nat (- sint i)) | Float b \<Rightarrow> ''0.0'')"
| "show_json (JString s) = show_string s"
| "show_json (JArray xs) = ''['' @ join_with '','' (map show_json xs) @ '']''"
| "show_json (JObject ms) = ''{'' @ join_with '','' (map (\<lambda>m. show_string (fst m) @ '':'' @ show_json (snd m)) ms) @ ''}''"

definition json_print_compact :: "json \<Rightarrow> (string, string) res" where
  "json_print_compact v = Ok (show_json v)"

section \<open>Its reader\<close>

definition unescape :: "char \<Rightarrow> char" where
  "unescape c = (if c = CHR ''b'' then CHR 0x08 else if c = CHR ''t'' then CHR 0x09
     else if c = CHR ''n'' then CHR 0x0A else if c = CHR ''f'' then CHR 0x0C
     else if c = CHR ''r'' then CHR 0x0D else c)"

definition hex_val :: "char \<Rightarrow> nat" where
  "hex_val c = unwrap_or 0 (digit_val 16 c)"

fun read_chars :: "string \<Rightarrow> (string \<times> string) option" where
  "read_chars [] = None"
| "read_chars (c # s) =
     (if c = CHR 0x22 then Some ([], s)
      else if c \<noteq> CHR 0x5C then map_option (apfst (Cons c)) (read_chars s)
      else if s = [] then None
      else if hd s = CHR ''u'' then (if length s < 5 then None
        else map_option (apfst (Cons (char_of (16 * hex_val (s ! 3) + hex_val (s ! 4))))) (read_chars (drop 5 s)))
      else map_option (apfst (Cons (unescape (hd s)))) (read_chars (tl s)))"

definition is_digit :: "char \<Rightarrow> bool" where
  "is_digit c = (48 \<le> byte c \<and> byte c \<le> 57)"

definition read_nat :: "string \<Rightarrow> nat \<times> string" where
  "read_nat s = (unwrap_or 0 (parse_unsigned 10 max_u64 (takeWhile is_digit s)), dropWhile is_digit s)"

text \<open>The fuel is the length of the text; every turn reads a character at least.\<close>

fun read_value :: "nat \<Rightarrow> string \<Rightarrow> (json \<times> string) option"
and read_elements :: "nat \<Rightarrow> string \<Rightarrow> (json list \<times> string) option"
and read_members :: "nat \<Rightarrow> string \<Rightarrow> ((string \<times> json) list \<times> string) option" where
  "read_value 0 s = None"
| "read_value (Suc n) s =
     (case s of [] \<Rightarrow> None
      | c # t \<Rightarrow>
         if c = CHR ''n'' then map_option (\<lambda>t. (JNull, t)) (strip_prefix t ''ull'')
         else if c = CHR ''t'' then map_option (\<lambda>t. (JBool True, t)) (strip_prefix t ''rue'')
         else if c = CHR ''f'' then map_option (\<lambda>t. (JBool False, t)) (strip_prefix t ''alse'')
         else if c = CHR 0x22 then map_option (apfst JString) (read_chars t)
         else if c = CHR ''['' then
           (if t \<noteq> [] \<and> hd t = CHR '']'' then Some (JArray [], tl t)
            else map_option (apfst JArray) (read_elements n t))
         else if c = CHR ''{'' then
           (if t \<noteq> [] \<and> hd t = CHR ''}'' then Some (JObject [], tl t)
            else map_option (apfst JObject) (read_members n t))
         else if c = CHR ''-'' then
           Some (apfst (\<lambda>i. JNumber (NegInt (word_of_int (- int i)))) (read_nat t))
         else if is_digit c then Some (apfst (\<lambda>i. JNumber (PosInt (of_nat i))) (read_nat s))
         else None)"
| "read_elements 0 s = None"
| "read_elements (Suc n) s =
     (case read_value n s of None \<Rightarrow> None
      | Some (v, t) \<Rightarrow>
         if t \<noteq> [] \<and> hd t = CHR '','' then map_option (apfst (Cons v)) (read_elements n (tl t))
         else if t \<noteq> [] \<and> hd t = CHR '']'' then Some ([v], tl t) else None)"
| "read_members 0 s = None"
| "read_members (Suc n) s =
     (if s = [] \<or> hd s \<noteq> CHR 0x22 then None
      else case read_chars (tl s) of None \<Rightarrow> None
      | Some (k, t) \<Rightarrow>
         if t = [] \<or> hd t \<noteq> CHR '':'' then None
         else case read_value n (tl t) of None \<Rightarrow> None
         | Some (v, t) \<Rightarrow>
            if t \<noteq> [] \<and> hd t = CHR '','' then map_option (apfst (Cons (k, v))) (read_members n (tl t))
            else if t \<noteq> [] \<and> hd t = CHR ''}'' then Some ([(k, v)], tl t) else None)"

definition json_read_compact :: "string \<Rightarrow> (string, json) res" where
  "json_read_compact s = (case read_value (length s) s of Some (v, []) \<Rightarrow> Ok v | _ \<Rightarrow> Err ''not a compact text'')"

section \<open>They agree\<close>

lemma hex_val_digit: "d < 16 \<Longrightarrow> hex_val (digit_char d) = d"
  by (simp add: hex_val_def digit_val_digit_char)

lemma read_chars_escape:
  "read_chars (escape c @ s) = map_option (apfst (Cons c)) (read_chars s)"
proof -
  have "char_of (16 * hex_val (digit_char (byte c div 16)) + hex_val (digit_char (byte c mod 16))) = c"
    if "byte c < 0x20"
    using that by (simp add: hex_val_digit byte_def)
  then show ?thesis
    by (simp add: escape_def unescape_def nth_Cons_numeral)
qed

lemma read_chars_show: "read_chars (concat (map escape s) @ CHR 0x22 # t) = Some (s, t)"
  by (induction s) (simp_all add: read_chars_escape del: read_chars.simps(2), simp)

lemma is_digit_char: "d < 10 \<Longrightarrow> is_digit (digit_char d)"
  by (simp add: is_digit_def byte_def of_char_digit_char)

lemma read_nat_show:
  assumes "n \<le> max_u64" "t = [] \<or> \<not> is_digit (hd t)"
  shows "read_nat (show_nat n @ t) = (n, t)"
proof -
  have digits: "\<forall>c\<in>set (show_nat n). is_digit c"
    using show_nat_no_plus is_digit_char by blast
  have "takeWhile is_digit (show_nat n @ t) = show_nat n" "dropWhile is_digit (show_nat n @ t) = t"
    using digits assms(2) by (cases t; simp add: takeWhile_append dropWhile_append)+
  with assms(1) show ?thesis by (simp add: read_nat_def parse_show_nat)
qed

lemma show_nat_Cons: "\<exists>c s. show_nat n = c # s \<and> is_digit c"
  using show_nat_not_Nil [of n] show_nat_no_plus [of _ n] is_digit_char
  by (metis list.exhaust list.set_intros(1))

text \<open>What follows a value in a text: its end, or a character that closes or separates.\<close>

definition ends_value :: "string \<Rightarrow> bool" where
  "ends_value t = (t = [] \<or> hd t \<in> {CHR '','', CHR '']'', CHR ''}''})"

lemma ends_value_no_digit: "ends_value t \<Longrightarrow> t = [] \<or> \<not> is_digit (hd t)"
  by (auto simp: ends_value_def is_digit_def byte_def)

definition reads_back :: "json \<Rightarrow> bool" where
  "reads_back v = (\<forall>n t. length (show_json v) \<le> n \<longrightarrow> ends_value t \<longrightarrow>
     read_value n (show_json v @ t) = Some (v, t))"

lemma reads_backD:
  "reads_back v \<Longrightarrow> length (show_json v) \<le> n \<Longrightarrow> ends_value t \<Longrightarrow> read_value n (show_json v @ t) = Some (v, t)"
  by (simp add: reads_back_def)

lemma read_elements_show:
  assumes "\<forall>x\<in>set xs. reads_back x" "xs \<noteq> []"
    and "length (join_with '','' (map show_json xs)) < n"
  shows "read_elements n (join_with '','' (map show_json xs) @ CHR '']'' # t) = Some (xs, t)"
  using assms
proof (induction xs arbitrary: n)
  case (Cons x xs)
  then obtain m where n: "n = Suc m" by (cases n) auto
  show ?case
  proof (cases "xs = []")
    case True
    with Cons.prems show ?thesis by (simp add: n reads_backD ends_value_def)
  next
    case False
    let ?rest = "join_with '','' (map show_json xs) @ CHR '']'' # t"
    have join: "join_with '','' (map show_json (x # xs)) = show_json x @ CHR '','' # join_with '','' (map show_json xs)"
      using False by (simp add: join_with_Cons)
    have len: "length (show_json x) + Suc (length (join_with '','' (map show_json xs))) < n"
      using Cons.prems(3) unfolding join by simp
    have "read_value m (show_json x @ CHR '','' # ?rest) = Some (x, CHR '','' # ?rest)"
      by (rule reads_backD) (use Cons.prems(1) len n in \<open>simp_all add: ends_value_def\<close>)
    moreover have "read_elements m ?rest = Some (xs, t)"
      by (rule Cons.IH) (use Cons.prems(1) False len n in simp_all)
    ultimately show ?thesis unfolding join by (simp add: n)
  qed
qed simp

abbreviation show_member :: "string \<times> json \<Rightarrow> string" where
  "show_member m \<equiv> show_string (fst m) @ '':'' @ show_json (snd m)"

lemma read_members_show:
  assumes "\<forall>m\<in>set ms. reads_back (snd m)" "ms \<noteq> []"
    and "length (join_with '','' (map show_member ms)) < n"
  shows "read_members n (join_with '','' (map show_member ms) @ CHR ''}'' # t) = Some (ms, t)"
  using assms
proof (induction ms arbitrary: n)
  case (Cons m ms)
  obtain k v where m: "m = (k, v)" by fastforce
  from Cons.prems obtain n' where n: "n = Suc n'" by (cases n) auto
  have key: "read_chars (concat (map escape k) @ CHR 0x22 # u) = Some (k, u)" for u by (rule read_chars_show)
  show ?case
  proof (cases "ms = []")
    case True
    with Cons.prems key show ?thesis by (simp add: n m show_string_def reads_backD ends_value_def)
  next
    case False
    let ?rest = "join_with '','' (map show_member ms) @ CHR ''}'' # t"
    have join: "join_with '','' (map show_member (m # ms)) = show_member m @ CHR '','' # join_with '','' (map show_member ms)"
      using False by (simp add: join_with_Cons)
    have len: "length (show_json v) + Suc (length (join_with '','' (map show_member ms))) < n"
      using Cons.prems(3) unfolding join by (simp add: m)
    have "read_value n' (show_json v @ CHR '','' # ?rest) = Some (v, CHR '','' # ?rest)"
      by (rule reads_backD) (use Cons.prems(1) len n m in \<open>simp_all add: ends_value_def\<close>)
    moreover have "read_members n' ?rest = Some (ms, t)"
      by (rule Cons.IH) (use Cons.prems(1) False len n in simp_all)
    ultimately show ?thesis unfolding join using key by (simp add: n m show_string_def)
  qed
qed simp

lemma show_json_first: "\<exists>c s. show_json v = c # s \<and> c \<noteq> CHR '']''"
proof (cases v)
  case (JNumber x)
  then show ?thesis
  proof (cases x)
    case (PosInt n)
    obtain c s where "show_nat (unat n) = c # s" "is_digit c" using show_nat_Cons by blast
    with JNumber PosInt show ?thesis by (auto simp: is_digit_def byte_def)
  qed (use JNumber in auto)
qed (auto simp: show_string_def)

lemma elements_first:
  assumes "xs \<noteq> []"
  shows "\<exists>c s. join_with '','' (map show_json xs) = c # s \<and> c \<noteq> CHR '']''"
proof (cases xs)
  case (Cons x ys)
  with show_json_first [of x] show ?thesis by (cases ys) auto
qed (use assms in simp)

lemma list_all_set: "list_all P xs \<longleftrightarrow> (\<forall>x\<in>set xs. P x)"
  by (induction xs) auto

lemma plain_reads_back: "plain_json n v \<Longrightarrow> reads_back v"
proof (induction n v rule: plain_json.induct)
  case (4 n i)
  have "- sint i \<le> 2 ^ 63" using sint_ge [of i] by simp
  then have le: "nat (- sint i) \<le> max_u64" by (simp add: max_u64_def)
  have "word_of_int (- int (nat (- sint i))) = i" using 4 by simp
  then have word: "- word_of_nat (nat (- sint i)) = i" by (simp only: of_int_minus of_int_of_nat_eq)
  show ?case
    unfolding reads_back_def
  proof (intro allI impI)
    fix m t assume "length (show_json (JNumber (NegInt i))) \<le> m" "ends_value t"
    moreover from this obtain m' where "m = Suc m'" by (cases m) auto
    ultimately show "read_value m (show_json (JNumber (NegInt i)) @ t) = Some (JNumber (NegInt i), t)"
      using read_nat_show [OF le ends_value_no_digit, of t] word by simp
  qed
next
  case (6 n s)
  show ?case
    unfolding reads_back_def
  proof (intro allI impI)
    fix m t assume "length (show_json (JString s)) \<le> m" "ends_value t"
    moreover from this obtain m' where "m = Suc m'" by (cases m) (auto simp: show_string_def)
    ultimately show "read_value m (show_json (JString s) @ t) = Some (JString s, t)"
      by (simp add: show_string_def read_chars_show)
  qed
next
  case (7 n xs)
  show ?case
    unfolding reads_back_def
  proof (intro allI impI)
    fix m t assume m: "length (show_json (JArray xs)) \<le> m" "ends_value t"
    then obtain m' where m': "m = Suc m'" by (cases m) auto
    have "\<forall>x\<in>set xs. reads_back x" using 7 by (auto simp: list_all_set)
    moreover have "length (join_with '','' (map show_json xs)) < m'" using m(1) m' by simp
    ultimately have "xs \<noteq> [] \<Longrightarrow> read_elements m' (join_with '','' (map show_json xs) @ CHR '']'' # t) = Some (xs, t)"
      by (intro read_elements_show)
    with elements_first [of xs] show "read_value m (show_json (JArray xs) @ t) = Some (JArray xs, t)"
      by (cases "xs = []") (auto simp: m')
  qed
next
  case (8 n ms)
  show ?case
    unfolding reads_back_def
  proof (intro allI impI)
    fix m t assume m: "length (show_json (JObject ms)) \<le> m" "ends_value t"
    then obtain m' where m': "m = Suc m'" by (cases m) auto
    have "\<forall>x\<in>set ms. reads_back (snd x)" using 8 by (auto simp: list_all_set)
    moreover have "length (join_with '','' (map show_member ms)) < m'" using m(1) m' by simp
    ultimately have "ms \<noteq> [] \<Longrightarrow> read_members m' (join_with '','' (map show_member ms) @ CHR ''}'' # t) = Some (ms, t)"
      by (intro read_members_show)
    moreover have "\<exists>s. join_with '','' (map show_member ms) = CHR 0x22 # s" if "ms \<noteq> []"
      using that by (cases ms rule: list.exhaust; cases "tl ms") (auto simp: show_string_def)
    ultimately show "read_value m (show_json (JObject ms) @ t) = Some (JObject ms, t)"
      by (cases "ms = []") (auto simp: m')
  qed
next
  case (1 n)
  show ?case by (auto simp: reads_back_def strip_prefix_def neq_Nil_conv elim!: le_SucE dest!: Suc_le_D)
next
  case (2 n b)
  show ?case by (auto simp: reads_back_def strip_prefix_def dest!: Suc_le_D)
next
  case (3 n x)
  show ?case
    unfolding reads_back_def
  proof (intro allI impI)
    fix m t assume m: "length (show_json (JNumber (PosInt x))) \<le> m" "ends_value t"
    obtain c s where c: "show_nat (unat x) = c # s" "is_digit c" using show_nat_Cons by blast
    with m(1) obtain m' where m': "m = Suc m'" by (cases m) auto
    have "unat x \<le> max_u64" using unsigned_less [where w = x and 'a = nat] by (simp add: max_u64_def)
    from read_nat_show [OF this ends_value_no_digit [OF m(2)]]
    have number: "read_nat (c # s @ t) = (unat x, t)" using c(1) by simp
    have "c \<noteq> CHR ''n''" "c \<noteq> CHR ''t''" "c \<noteq> CHR ''f''" "c \<noteq> CHR 0x22" "c \<noteq> CHR ''[''" "c \<noteq> CHR ''{''" "c \<noteq> CHR ''-''"
      using c(2) by (auto simp: is_digit_def byte_def)
    then show "read_value m (show_json (JNumber (PosInt x)) @ t) = Some (JNumber (PosInt x), t)"
      using number c(2) by (simp add: m' c(1))
  qed
qed simp_all

theorem compact_reads_printed: "reads_printed_json json_read_compact json_print_compact"
  unfolding reads_printed_json_def
proof (intro allI impI)
  fix v assume "plain_json 127 v"
  from reads_backD [OF plain_reads_back [OF this], of "length (show_json v)" "[]"]
  have "read_value (length (show_json v)) (show_json v) = Some (v, [])" by (simp add: ends_value_def)
  then show "\<exists>s. json_print_compact v = Ok s \<and> json_read_compact s = Ok v"
    by (simp add: json_print_compact_def json_read_compact_def)
qed

end
