(* ===== verification/Request_Cancellation.thy ===== *)
theory Request_Cancellation
  imports Prelude
begin

text \<open>
  \<open>RequestCancellation\<close> of \<open>src/src/scheduler.rs\<close>: an atomic flag and a \<open>Notify\<close>. \<open>cancel\<close> is two
  atomic operations, the swap of the flag and \<open>notify_waiters\<close>, and \<open>cancelled\<close> is three points
  (the \<open>Notified\<close> is created, the flag is read, the notification is awaited); any number of
  callers of both may interleave at each of them. \<open>Notify\<close> is modelled by its documented
  behaviour: a \<open>Notified\<close> remembers the number of \<open>notify_waiters\<close> calls at its creation and
  is ready when that number has grown.
\<close>

section \<open>The operations\<close>

record cancellation =
  cn_cancelled :: bool
  cn_notifications :: nat

definition cancellation_new :: cancellation where
  "cancellation_new = \<lparr>cn_cancelled = False, cn_notifications = 0\<rparr>"

definition swap_cancelled :: "cancellation \<Rightarrow> bool \<times> cancellation" where
  "swap_cancelled c = (cn_cancelled c, c\<lparr>cn_cancelled := True\<rparr>)"

definition notify_waiters :: "cancellation \<Rightarrow> cancellation" where
  "notify_waiters c = c\<lparr>cn_notifications := Suc (cn_notifications c)\<rparr>"

text \<open>The whole of \<open>cancel\<close>, when nobody comes between its two operations.\<close>

definition cancel :: "cancellation \<Rightarrow> cancellation" where
  "cancel c = (case swap_cancelled c of (was_cancelled, c) \<Rightarrow>
     if was_cancelled then c else notify_waiters c)"

definition is_cancelled :: "cancellation \<Rightarrow> bool" where
  "is_cancelled c = cn_cancelled c"

section \<open>Any number of callers\<close>

text \<open>
  A caller of \<open>cancel\<close>: not begun, between the swap and \<open>notify_waiters\<close>, returned. A caller of
  \<open>cancelled\<close>: not begun, holding its \<open>Notified\<close>, awaiting it, returned; or dropped, as the
  \<open>select!\<close> of the forwarder does when the answer of the backend comes first.
\<close>

datatype canceller = CNew | CSwapped | CReturned

datatype waiter = WNew | WCreated nat | WAwaiting nat | WReturned | WDropped

record cancel_sys =
  cs_handle :: cancellation
  cs_callers :: "nat \<Rightarrow> canceller"
  cs_waiters :: "nat \<Rightarrow> waiter"

definition cancel_init :: cancel_sys where
  "cancel_init = \<lparr>cs_handle = cancellation_new, cs_callers = (\<lambda>_. CNew), cs_waiters = (\<lambda>_. WNew)\<rparr>"

abbreviation set_caller :: "nat \<Rightarrow> canceller \<Rightarrow> cancel_sys \<Rightarrow> cancel_sys" where
  "set_caller i p s \<equiv> s\<lparr>cs_callers := (cs_callers s)(i := p)\<rparr>"

abbreviation set_waiter :: "nat \<Rightarrow> waiter \<Rightarrow> cancel_sys \<Rightarrow> cancel_sys" where
  "set_waiter j w s \<equiv> s\<lparr>cs_waiters := (cs_waiters s)(j := w)\<rparr>"

inductive cancel_step :: "cancel_sys \<Rightarrow> cancel_sys \<Rightarrow> bool" where
  swap: "cs_callers s i = CNew \<Longrightarrow> swap_cancelled (cs_handle s) = (was_cancelled, c) \<Longrightarrow>
     cancel_step s (set_caller i (if was_cancelled then CReturned else CSwapped) (s\<lparr>cs_handle := c\<rparr>))"
| notify: "cs_callers s i = CSwapped \<Longrightarrow>
     cancel_step s (set_caller i CReturned (s\<lparr>cs_handle := notify_waiters (cs_handle s)\<rparr>))"
| create: "cs_waiters s j = WNew \<Longrightarrow>
     cancel_step s (set_waiter j (WCreated (cn_notifications (cs_handle s))) s)"
| check_cancelled: "cs_waiters s j = WCreated n \<Longrightarrow> is_cancelled (cs_handle s) \<Longrightarrow>
     cancel_step s (set_waiter j WReturned s)"
| check_pending: "cs_waiters s j = WCreated n \<Longrightarrow> \<not> is_cancelled (cs_handle s) \<Longrightarrow>
     cancel_step s (set_waiter j (WAwaiting n) s)"
| notified: "cs_waiters s j = WAwaiting n \<Longrightarrow> n < cn_notifications (cs_handle s) \<Longrightarrow>
     cancel_step s (set_waiter j WReturned s)"
| dropped: "cs_waiters s j = WAwaiting n \<Longrightarrow> cancel_step s (set_waiter j WDropped s)"

lemma cancel_simps [simp]:
  "cn_cancelled (cancel c)" "is_cancelled (cancel c)" "\<not> is_cancelled cancellation_new"
  "cn_cancelled (notify_waiters c) = cn_cancelled c"
  "cn_notifications (notify_waiters c) = Suc (cn_notifications c)"
  "swap_cancelled c = (b, c') \<longleftrightarrow> b = cn_cancelled c \<and> c' = c\<lparr>cn_cancelled := True\<rparr>"
  by (auto simp: cancel_def is_cancelled_def cancellation_new_def notify_waiters_def swap_cancelled_def
      split: prod.splits)

text \<open>A caller of \<open>cancel\<close> that nobody interrupts does what \<open>cancel\<close> does.\<close>

lemma cancel_steps:
  assumes "cs_callers s i = CNew"
  shows "cancel_step\<^sup>*\<^sup>* s (set_caller i CReturned (s\<lparr>cs_handle := cancel (cs_handle s)\<rparr>))"
proof (cases "cn_cancelled (cs_handle s)")
  case True
  then have "swap_cancelled (cs_handle s) = (True, cancel (cs_handle s))"
    by (simp add: cancel_def swap_cancelled_def)
  from cancel_step.swap [OF assms this] show ?thesis by simp
next
  case False
  let ?s = "set_caller i CSwapped (s\<lparr>cs_handle := (cs_handle s)\<lparr>cn_cancelled := True\<rparr>\<rparr>)"
  have "cancel_step s ?s" using cancel_step.swap [OF assms, of False] False by simp
  moreover have "cancel_step ?s (set_caller i CReturned (s\<lparr>cs_handle := cancel (cs_handle s)\<rparr>))"
    using cancel_step.notify [of ?s i] False by (simp add: cancel_def swap_cancelled_def)
  ultimately show ?thesis by (meson rtranclp.rtrancl_into_rtrancl rtranclp.rtrancl_refl)
qed

section \<open>The invariant\<close>

text \<open>
  The one caller that swapped the flag notifies, once; a \<open>Notified\<close> is not newer than the
  notifications, and one that is awaited is older than all of them.
\<close>

definition swapping :: "cancel_sys \<Rightarrow> bool" where
  "swapping s = (\<exists>i. cs_callers s i = CSwapped)"

fun waiter_ok :: "cancellation \<Rightarrow> waiter \<Rightarrow> bool" where
  "waiter_ok c (WCreated n) = (n \<le> cn_notifications c)"
| "waiter_ok c (WAwaiting n) = (n = 0)"
| "waiter_ok c WReturned = cn_cancelled c"
| "waiter_ok c w = True"

definition cancel_inv :: "cancel_sys \<Rightarrow> bool" where
  "cancel_inv s = (cn_notifications (cs_handle s) = of_bool (cn_cancelled (cs_handle s) \<and> \<not> swapping s)
     \<and> (\<forall>i k. cs_callers s i = CSwapped \<longrightarrow> cs_callers s k = CSwapped \<longrightarrow> k = i)
     \<and> (\<forall>i. cs_callers s i \<noteq> CNew \<longrightarrow> cn_cancelled (cs_handle s))
     \<and> (\<forall>j. waiter_ok (cs_handle s) (cs_waiters s j)))"

lemma waiter_ok_later:
  "waiter_ok c w \<Longrightarrow> cn_notifications c \<le> cn_notifications c' \<Longrightarrow> cn_cancelled c \<longrightarrow> cn_cancelled c' \<Longrightarrow>
     waiter_ok c' w"
  by (cases w) auto

text \<open>A waiter moves, and the handle and the callers are left alone.\<close>

lemma cancel_inv_waiter:
  assumes "cancel_inv s" "waiter_ok (cs_handle s) w"
  shows "cancel_inv (set_waiter j w s)"
  using assms by (simp add: cancel_inv_def swapping_def)

lemma cancel_inv_waiter_ok: "cancel_inv s \<Longrightarrow> cs_waiters s j = w \<Longrightarrow> waiter_ok (cs_handle s) w"
  by (auto simp: cancel_inv_def)

lemma cancel_inv_step: "cancel_step s t \<Longrightarrow> cancel_inv s \<Longrightarrow> cancel_inv t"
proof (induction rule: cancel_step.induct)
  case (swap s i was_cancelled c)
  have c: "was_cancelled = cn_cancelled (cs_handle s)" "c = (cs_handle s)\<lparr>cn_cancelled := True\<rparr>"
    using swap.hyps(2) by simp_all
  have "waiter_ok c (cs_waiters s j)" for j
    by (rule waiter_ok_later [of "cs_handle s"]) (use swap.prems c in \<open>simp_all add: cancel_inv_def\<close>)
  moreover have "swapping (set_caller i CReturned (s\<lparr>cs_handle := c\<rparr>)) = swapping s"
  proof -
    have "((cs_callers s)(i := CReturned)) k = CSwapped \<longleftrightarrow> cs_callers s k = CSwapped" for k
      using swap.hyps(1) by simp
    then show ?thesis by (simp add: swapping_def)
  qed
  moreover have "swapping (set_caller i CSwapped (s\<lparr>cs_handle := c\<rparr>))" by (auto simp: swapping_def)
  moreover have "\<not> swapping s" if "\<not> cn_cancelled (cs_handle s)"
    using swap.prems that by (auto simp: cancel_inv_def swapping_def)
  ultimately show ?case
    using swap.prems c by (cases was_cancelled) (auto simp: cancel_inv_def swapping_def)
next
  case (notify s i)
  let ?t = "set_caller i CReturned (s\<lparr>cs_handle := notify_waiters (cs_handle s)\<rparr>)"
  have "waiter_ok (notify_waiters (cs_handle s)) (cs_waiters s j)" for j
    by (rule waiter_ok_later [of "cs_handle s"]) (use notify.prems in \<open>simp_all add: cancel_inv_def\<close>)
  moreover have "swapping s" using notify.hyps by (auto simp: swapping_def)
  moreover have "\<not> swapping ?t" using notify by (auto simp: swapping_def cancel_inv_def)
  ultimately show ?case using notify by (auto simp: cancel_inv_def)
next
  case (create s j)
  from create.prems show ?case by (rule cancel_inv_waiter) simp
next
  case (check_cancelled s j n)
  from check_cancelled.prems show ?case
    by (rule cancel_inv_waiter) (use check_cancelled.hyps in \<open>simp add: is_cancelled_def\<close>)
next
  case (check_pending s j n)
  have "n \<le> cn_notifications (cs_handle s)"
    using cancel_inv_waiter_ok [OF check_pending.prems check_pending.hyps(1)] by simp
  moreover have "cn_notifications (cs_handle s) = 0"
    using check_pending by (simp add: cancel_inv_def is_cancelled_def)
  ultimately have "waiter_ok (cs_handle s) (WAwaiting n)" by simp
  with check_pending.prems show ?case by (rule cancel_inv_waiter)
next
  case (notified s j n)
  from notified.prems show ?case
    by (rule cancel_inv_waiter) (use notified in \<open>auto simp: cancel_inv_def split: if_splits\<close>)
next
  case (dropped s j n)
  from dropped.prems show ?case by (rule cancel_inv_waiter) simp
qed

lemma reachable_cancel_inv:
  assumes "cancel_step\<^sup>*\<^sup>* cancel_init s"
  shows "cancel_inv s"
  using assms
proof (induction rule: rtranclp_induct)
  case base
  show ?case by (simp add: cancel_inv_def cancel_init_def cancellation_new_def swapping_def)
qed (auto intro: cancel_inv_step)

section \<open>No cancellation is missed\<close>

text \<open>
  C37: \<open>RequestCancellation::cancelled\<close> misses no cancellation and reports none that did not happen,
  however any number of calls of \<open>cancel\<close> and \<open>cancelled\<close> interleave: a caller of \<open>cancelled\<close> that
  has returned was cancelled; once the flag is set, one that has not read it yet returns when
  it does; and one that awaits the notification can return at once, unless some \<open>cancel\<close> stands
  between its two operations: that one is the only such, and its next step lets them all return.
\<close>

theorem cancellation_not_missed:
  assumes "cancel_step\<^sup>*\<^sup>* cancel_init s"
  shows "(\<forall>j. cs_waiters s j = WReturned \<longrightarrow> is_cancelled (cs_handle s))
    \<and> (is_cancelled (cs_handle s) \<longrightarrow>
        (\<forall>j n. cs_waiters s j = WCreated n \<longrightarrow> cancel_step s (set_waiter j WReturned s))
      \<and> ((\<forall>i. cs_callers s i \<noteq> CSwapped) \<longrightarrow>
           (\<forall>j n. cs_waiters s j = WAwaiting n \<longrightarrow> cancel_step s (set_waiter j WReturned s)))
      \<and> (\<forall>i. cs_callers s i = CSwapped \<longrightarrow> (\<forall>k. cs_callers s k = CSwapped \<longrightarrow> k = i)
           \<and> (\<exists>s'. cancel_step s s' \<and> cs_callers s' = (cs_callers s)(i := CReturned) \<and> cs_waiters s' = cs_waiters s
                \<and> (\<forall>j n. cs_waiters s j = WAwaiting n \<longrightarrow> cancel_step s' (set_waiter j WReturned s')))))"
proof -
  let ?c = "cs_handle s"
  have ok: "cancel_inv s" using assms by (rule reachable_cancel_inv)
  have inv: "cn_notifications ?c = of_bool (cn_cancelled ?c \<and> \<not> swapping s)"
    "\<forall>i k. cs_callers s i = CSwapped \<longrightarrow> cs_callers s k = CSwapped \<longrightarrow> k = i"
    using ok by (auto simp: cancel_inv_def)
  have inv': "\<And>j. cs_waiters s j = WReturned \<Longrightarrow> cn_cancelled ?c" "\<And>j n. cs_waiters s j = WAwaiting n \<Longrightarrow> n = 0"
    using cancel_inv_waiter_ok [OF ok] by fastforce+
  show ?thesis
  proof (intro conjI allI impI)
    fix j assume "cs_waiters s j = WReturned"
    then show "is_cancelled ?c" using inv'(1) by (simp add: is_cancelled_def)
  next
    fix j n assume "is_cancelled ?c" "cs_waiters s j = WCreated n"
    then show "cancel_step s (set_waiter j WReturned s)" by (intro cancel_step.check_cancelled)
  next
    fix j n assume "is_cancelled ?c" "\<forall>i. cs_callers s i \<noteq> CSwapped" "cs_waiters s j = WAwaiting n"
    with inv(1) inv'(2) show "cancel_step s (set_waiter j WReturned s)"
      by (intro cancel_step.notified) (auto simp: is_cancelled_def swapping_def)
  next
    fix i k assume "cs_callers s i = CSwapped" "cs_callers s k = CSwapped"
    with inv(2) show "k = i" by blast
  next
    fix i assume i: "cs_callers s i = CSwapped"
    let ?s = "set_caller i CReturned (s\<lparr>cs_handle := notify_waiters ?c\<rparr>)"
    have "cancel_step ?s (set_waiter j WReturned ?s)" if "cs_waiters s j = WAwaiting n" for j n
      by (rule cancel_step.notified [of _ _ 0]) (use that inv'(2) in auto)
    moreover have "cancel_step s ?s" using i by (rule cancel_step.notify)
    ultimately show "\<exists>s'. cancel_step s s' \<and> cs_callers s' = (cs_callers s)(i := CReturned) \<and> cs_waiters s' = cs_waiters s
        \<and> (\<forall>j n. cs_waiters s j = WAwaiting n \<longrightarrow> cancel_step s' (set_waiter j WReturned s'))"
      by (intro exI [of _ ?s]) auto
  qed
qed

text \<open>A caller that awaits, when another stands between the swap and the notification.\<close>

definition run_swapped :: cancel_sys where
  "run_swapped = \<lparr>cs_handle = \<lparr>cn_cancelled = True, cn_notifications = 0\<rparr>,
     cs_callers = (\<lambda>_. CNew)(1 := CSwapped), cs_waiters = (\<lambda>_. WNew)(0 := WAwaiting 0)\<rparr>"

lemma run_swapped_reachable: "cancel_step\<^sup>*\<^sup>* cancel_init run_swapped"
proof -
  let ?s1 = "set_waiter 0 (WCreated 0) cancel_init"
  let ?s2 = "set_waiter 0 (WAwaiting 0) ?s1"
  have "cancel_step cancel_init ?s1"
    using cancel_step.create [of cancel_init 0] by (simp add: cancel_init_def cancellation_new_def)
  moreover have "cancel_step ?s1 ?s2"
    by (rule cancel_step.check_pending) (simp_all add: cancel_init_def)
  moreover have "cancel_step ?s2 run_swapped"
    using cancel_step.swap [of ?s2 1 False]
    by (simp add: cancel_init_def cancellation_new_def run_swapped_def)
  ultimately show ?thesis by (meson rtranclp.rtrancl_into_rtrancl rtranclp.rtrancl_refl)
qed

theorem cancellation_not_missed_witness:
  "\<exists>s'. cancel_step run_swapped s' \<and> cs_callers s' 1 = CReturned \<and> cancel_step s' (set_waiter 0 WReturned s')"
proof -
  have "is_cancelled (cs_handle run_swapped)" "cs_callers run_swapped 1 = CSwapped"
    and wait: "cs_waiters run_swapped 0 = WAwaiting 0"
    by (simp_all add: run_swapped_def is_cancelled_def)
  with cancellation_not_missed [OF run_swapped_reachable] obtain s' where s': "cancel_step run_swapped s'"
      "cs_callers s' = (cs_callers run_swapped)(1 := CReturned)"
      "\<forall>j n. cs_waiters run_swapped j = WAwaiting n \<longrightarrow> cancel_step s' (set_waiter j WReturned s')"
    by blast
  from s'(3) wait have "cancel_step s' (set_waiter 0 WReturned s')" by blast
  with s'(1,2) show ?thesis by (intro exI [of _ s']) simp
qed

end
