(* ===== verification/Scheduler.thy ===== *)
theory Scheduler
  imports Config Request_Cancellation
begin

text \<open>
  \<open>src/src/scheduler.rs\<close>: the warm execution scheduler. Tokio's semaphore is modelled by its
  documented behaviour: a count of free permits and a first-come queue of waiters; a returned
  permit goes to the first waiter, and only to the count when nobody waits. A step is the code
  of one task between two suspension points. Any task may be dropped while it is suspended.
  The first part is the queue ticket on its own; the cancellation handle is in \<open>Request_Cancellation\<close>.
\<close>

section \<open>Queue tickets\<close>

datatype warm_execution_error = QueueFull | QueueTimeout

definition warm_message :: "warm_execution_error \<Rightarrow> string" where
  "warm_message e = (case e of QueueFull \<Rightarrow> ''warm execution queue is full''
     | QueueTimeout \<Rightarrow> ''request did not start before the warm queue timeout'')"

text \<open>\<open>QueueState\<close> is its counter; \<open>reserve\<close> counts a ticket, dropping one gives it back.\<close>

definition ticket_reserve :: "nat \<Rightarrow> nat \<Rightarrow> (warm_execution_error, nat) res" where
  "ticket_reserve max_queued queued =
     (if max_queued \<le> queued then Err QueueFull else Ok (Suc queued))"

definition ticket_drop :: "nat \<Rightarrow> nat" where
  \<comment> \<open>\<open>saturating_sub(1)\<close>\<close>
  "ticket_drop queued = queued - 1"

interpretation tickets: bounded_pool "max_queued_requests cfg" "\<lambda>q::nat. q"
    "\<lambda>q. result_ok (ticket_reserve (max_queued_requests cfg) q)" ticket_drop
  for cfg :: "'a warm_execution_config_scheme"
  by unfold_locales (auto simp: ticket_reserve_def ticket_drop_def split: if_splits)

section \<open>The scheduler\<close>

datatype sched_task =
    SIdle
  | SReserving
  | SAcquiring
  | SWaiting
  | SGranted
  | SRunning cancellation
  | SFinished "(warm_execution_error, unit) res"
  | SDropped cancellation

record sched =
  sc_permits :: nat
  sc_waiters :: "nat list"
  sc_queued :: nat
  sc_tasks :: "nat \<Rightarrow> sched_task"

definition sched_new :: "warm_execution_config \<Rightarrow> sched" where
  "sched_new cfg = \<lparr>sc_permits = max_active_requests cfg, sc_waiters = [], sc_queued = 0,
     sc_tasks = (\<lambda>_. SIdle)\<rparr>"

abbreviation put :: "nat \<Rightarrow> sched_task \<Rightarrow> sched \<Rightarrow> sched" where
  "put i t s \<equiv> s\<lparr>sc_tasks := (sc_tasks s)(i := t)\<rparr>"

definition release :: "sched \<Rightarrow> sched" where
  \<comment> \<open>dropping a permit\<close>
  "release s = (case sc_waiters s of [] \<Rightarrow> s\<lparr>sc_permits := Suc (sc_permits s)\<rparr>
     | k # ks \<Rightarrow> (put k SGranted s)\<lparr>sc_waiters := ks\<rparr>)"

definition drop_ticket :: "sched \<Rightarrow> sched" where
  "drop_ticket s = s\<lparr>sc_queued := ticket_drop (sc_queued s)\<rparr>"

definition leave_queue :: "nat \<Rightarrow> sched \<Rightarrow> sched" where
  "leave_queue i s = s\<lparr>sc_waiters := filter (\<lambda>k. k \<noteq> i) (sc_waiters s)\<rparr>"

text \<open>
  The steps of \<open>execute\<close>. \<open>try_acquire\<close> takes a permit or goes for a ticket; the ticket is
  refused when the queue is full; \<open>acquire\<close> is granted at once or waits its turn; the ticket is
  dropped when the wait is over, by a permit or by the timeout (a permit that has been granted
  wins over the timeout, since the timer polls the wait first). The operation runs with a fresh
  cancellation handle that is armed; when it ends the handle is disarmed and the permit dropped.
  A dropped task gives back what it holds, and cancels its handle if it was running.
\<close>

inductive sched_step :: "warm_execution_config \<Rightarrow> sched \<Rightarrow> sched \<Rightarrow> bool" for cfg :: warm_execution_config where
  try_ok: "sc_tasks s i = SIdle \<Longrightarrow> 0 < sc_permits s \<Longrightarrow>
     sched_step cfg s (put i (SRunning cancellation_new) (s\<lparr>sc_permits := sc_permits s - 1\<rparr>))"
| try_none: "sc_tasks s i = SIdle \<Longrightarrow> sc_permits s = 0 \<Longrightarrow> sched_step cfg s (put i SReserving s)"
| reserve_full: "sc_tasks s i = SReserving \<Longrightarrow>
     ticket_reserve (max_queued_requests cfg) (sc_queued s) = Err e \<Longrightarrow>
     sched_step cfg s (put i (SFinished (Err e)) s)"
| reserve_ok: "sc_tasks s i = SReserving \<Longrightarrow>
     ticket_reserve (max_queued_requests cfg) (sc_queued s) = Ok q \<Longrightarrow>
     sched_step cfg s (put i SAcquiring (s\<lparr>sc_queued := q\<rparr>))"
| acquire_now: "sc_tasks s i = SAcquiring \<Longrightarrow> 0 < sc_permits s \<Longrightarrow>
     sched_step cfg s (put i SGranted (s\<lparr>sc_permits := sc_permits s - 1\<rparr>))"
| acquire_wait: "sc_tasks s i = SAcquiring \<Longrightarrow> sc_permits s = 0 \<Longrightarrow>
     sched_step cfg s (put i SWaiting (s\<lparr>sc_waiters := sc_waiters s @ [i]\<rparr>))"
| granted: "sc_tasks s i = SGranted \<Longrightarrow>
     sched_step cfg s (put i (SRunning cancellation_new) (drop_ticket s))"
| timeout: "sc_tasks s i = SWaiting \<Longrightarrow>
     sched_step cfg s (put i (SFinished (Err QueueTimeout)) (drop_ticket (leave_queue i s)))"
| complete: "sc_tasks s i = SRunning c \<Longrightarrow>
     sched_step cfg s (release (put i (SFinished (Ok ())) s))"
| drop_waiting: "sc_tasks s i = SWaiting \<Longrightarrow>
     sched_step cfg s (put i (SDropped cancellation_new) (drop_ticket (leave_queue i s)))"
| drop_granted: "sc_tasks s i = SGranted \<Longrightarrow>
     sched_step cfg s (release (put i (SDropped cancellation_new) (drop_ticket s)))"
| drop_running: "sc_tasks s i = SRunning c \<Longrightarrow>
     sched_step cfg s (release (put i (SDropped (cancel c)) s))"

inductive sched_reachable :: "warm_execution_config \<Rightarrow> sched \<Rightarrow> bool" for cfg :: warm_execution_config where
  init: "sched_reachable cfg (sched_new cfg)"
| step: "sched_reachable cfg s \<Longrightarrow> sched_step cfg s s' \<Longrightarrow> sched_reachable cfg s'"

section \<open>The invariant\<close>

text \<open>The tasks that hold a permit, and those that hold a ticket.\<close>

definition permit_holders :: "sched \<Rightarrow> nat set" where
  "permit_holders s = {i. sc_tasks s i = SGranted \<or> (\<exists>c. sc_tasks s i = SRunning c)}"

definition ticket_holders :: "sched \<Rightarrow> nat set" where
  "ticket_holders s = {i. sc_tasks s i \<in> {SAcquiring, SWaiting, SGranted}}"

text \<open>
  The invariant while \<open>g\<close> permits are in hand, on their way back to the semaphore: permits
  are neither lost nor made, tickets are counted exactly, the waiting tasks are those in the
  semaphore's queue, nobody waits while a permit is free, and a running operation is never
  cancelled.
\<close>

definition sched_inv_gap :: "warm_execution_config \<Rightarrow> nat \<Rightarrow> sched \<Rightarrow> bool" where
  "sched_inv_gap cfg g s = (finite (permit_holders s) \<and> finite (ticket_holders s)
     \<and> card (permit_holders s) + sc_permits s + g = max_active_requests cfg
     \<and> card (ticket_holders s) = sc_queued s \<and> sc_queued s \<le> max_queued_requests cfg
     \<and> distinct (sc_waiters s) \<and> set (sc_waiters s) = {i. sc_tasks s i = SWaiting}
     \<and> (sc_waiters s \<noteq> [] \<longrightarrow> sc_permits s = 0)
     \<and> (\<forall>i c. sc_tasks s i = SRunning c \<longrightarrow> c = cancellation_new))"

abbreviation sched_inv :: "warm_execution_config \<Rightarrow> sched \<Rightarrow> bool" where
  "sched_inv cfg s \<equiv> sched_inv_gap cfg 0 s"

text \<open>How one task's change moves the two sets.\<close>

definition holds_permit :: "sched_task \<Rightarrow> bool" where
  "holds_permit t = (t = SGranted \<or> (\<exists>c. t = SRunning c))"

definition holds_ticket :: "sched_task \<Rightarrow> bool" where
  "holds_ticket t = (t \<in> {SAcquiring, SWaiting, SGranted})"

lemma holds_simps [simp]:
  "\<not> holds_permit SIdle" "\<not> holds_permit SReserving" "\<not> holds_permit SAcquiring"
  "\<not> holds_permit SWaiting" "holds_permit SGranted" "holds_permit (SRunning c)"
  "\<not> holds_permit (SFinished r)" "\<not> holds_permit (SDropped c)"
  "\<not> holds_ticket SIdle" "\<not> holds_ticket SReserving" "holds_ticket SAcquiring"
  "holds_ticket SWaiting" "holds_ticket SGranted" "\<not> holds_ticket (SRunning c)"
  "\<not> holds_ticket (SFinished r)" "\<not> holds_ticket (SDropped c)"
  by (simp_all add: holds_permit_def holds_ticket_def)

definition holding :: "(sched_task \<Rightarrow> bool) \<Rightarrow> (nat \<Rightarrow> sched_task) \<Rightarrow> nat set" where
  "holding H f = {i. H (f i)}"

lemma permit_holders_alt: "permit_holders s = holding holds_permit (sc_tasks s)"
  by (simp add: permit_holders_def holding_def holds_permit_def)

lemma ticket_holders_alt: "ticket_holders s = holding holds_ticket (sc_tasks s)"
  by (simp add: ticket_holders_def holding_def holds_ticket_def)

lemmas holders_alt = permit_holders_alt ticket_holders_alt

lemma holding_update:
  "holding H (f(i := t)) = (if H t then insert i (holding H f) else holding H f - {i})"
  by (auto simp: holding_def)

lemma in_holding: "i \<in> holding H f \<longleftrightarrow> H (f i)"
  by (simp add: holding_def)

lemma sched_inv_init: "sched_inv cfg (sched_new cfg)"
  by (simp add: sched_inv_gap_def sched_new_def permit_holders_def ticket_holders_def)

text \<open>Returning the permit in hand.\<close>

lemma release_inv:
  assumes "sched_inv_gap cfg (Suc g) s"
  shows "sched_inv_gap cfg g (release s)"
proof (cases "sc_waiters s")
  case Nil
  then show ?thesis
    using assms by (simp add: release_def sched_inv_gap_def holders_alt)
next
  case (Cons k ks)
  then have k: "sc_tasks s k = SWaiting" and rest: "set ks = {i. sc_tasks s i = SWaiting} - {k}"
    using assms unfolding sched_inv_gap_def by auto
  then have "k \<notin> holding holds_permit (sc_tasks s)" "k \<in> holding holds_ticket (sc_tasks s)"
    by (simp_all add: in_holding)
  with Cons k rest assms show ?thesis
    unfolding sched_inv_gap_def release_def
    by (auto simp: holders_alt holding_update insert_absorb)
qed

lemma card_tickets_drop:
  "finite (holding holds_ticket f) \<Longrightarrow> card (holding holds_ticket f) = q \<Longrightarrow> holds_ticket (f i) \<Longrightarrow>
   card (holding holds_ticket f - {i}) = ticket_drop q"
  by (simp add: card_Diff_singleton in_holding ticket_drop_def)

lemma card_permits_drop:
  "finite (holding holds_permit f) \<Longrightarrow> card (holding holds_permit f) + p + g = m \<Longrightarrow> holds_permit (f i) \<Longrightarrow>
   card (holding holds_permit f - {i}) + p + Suc g = m"
  by (metis add_Suc_right add_Suc card_Suc_Diff1 in_holding)

text \<open>The states in which a leaving task's permit is in hand.\<close>

lemma complete_gap:
  assumes "sched_inv cfg s" "sc_tasks s i = SRunning c" "\<not> holds_permit t" "\<not> holds_ticket t"
  shows "sched_inv_gap cfg (Suc 0) (put i t s)"
proof -
  have "i \<notin> holding holds_ticket (sc_tasks s)" "holds_permit (sc_tasks s i)" using assms(2) by (simp_all add: in_holding)
  with assms card_permits_drop [of "sc_tasks s" "sc_permits s" 0 "max_active_requests cfg" i] show ?thesis
    unfolding sched_inv_gap_def
    by (auto simp: holders_alt holding_update)
qed

lemma drop_granted_gap:
  assumes "sched_inv cfg s" "sc_tasks s i = SGranted" "\<not> holds_permit t" "\<not> holds_ticket t"
  shows "sched_inv_gap cfg (Suc 0) (put i t (drop_ticket s))"
proof -
  have "holds_ticket (sc_tasks s i)" "holds_permit (sc_tasks s i)" using assms(2) by simp_all
  with assms card_permits_drop [of "sc_tasks s" "sc_permits s" 0 "max_active_requests cfg" i] card_tickets_drop [of "sc_tasks s" "sc_queued s" i]
  show ?thesis
    unfolding sched_inv_gap_def drop_ticket_def
    by (auto simp: holders_alt holding_update ticket_drop_def)
qed

lemma leave_queue_inv:
  assumes "sched_inv cfg s" "sc_tasks s i = SWaiting" "\<not> holds_permit t" "\<not> holds_ticket t"
  shows "sched_inv cfg (put i t (drop_ticket (leave_queue i s)))"
proof -
  have "i \<notin> holding holds_permit (sc_tasks s)" "holds_ticket (sc_tasks s i)" using assms(2) by (simp_all add: in_holding)
  with assms card_tickets_drop [of "sc_tasks s" "sc_queued s" i] show ?thesis
    unfolding sched_inv_gap_def drop_ticket_def leave_queue_def
    by (auto simp: holders_alt holding_update ticket_drop_def)
qed

lemma sched_inv_step:
  assumes "sched_step cfg s s'" "sched_inv cfg s"
  shows "sched_inv cfg s'"
  using assms
proof (induction rule: sched_step.induct)
  case (try_ok s i)
  then have "i \<notin> holding holds_permit (sc_tasks s)" "i \<notin> holding holds_ticket (sc_tasks s)" by (simp_all add: in_holding)
  with try_ok show ?case
    unfolding sched_inv_gap_def by (auto simp: holders_alt holding_update)
next
  case (try_none s i)
  then have "i \<notin> holding holds_permit (sc_tasks s)" "i \<notin> holding holds_ticket (sc_tasks s)" by (simp_all add: in_holding)
  with try_none show ?case
    unfolding sched_inv_gap_def by (auto simp: holders_alt holding_update)
next
  case (reserve_full s i e)
  then have "i \<notin> holding holds_permit (sc_tasks s)" "i \<notin> holding holds_ticket (sc_tasks s)" by (simp_all add: in_holding)
  with reserve_full show ?case
    unfolding sched_inv_gap_def by (auto simp: holders_alt holding_update)
next
  case (reserve_ok s i q)
  then have "i \<notin> holding holds_permit (sc_tasks s)" "i \<notin> holding holds_ticket (sc_tasks s)" by (simp_all add: in_holding)
  moreover have "q = Suc (sc_queued s)" "sc_queued s < max_queued_requests cfg"
    using reserve_ok.hyps(2) by (auto simp: ticket_reserve_def split: if_splits)
  ultimately show ?case
    using reserve_ok unfolding sched_inv_gap_def by (auto simp: holders_alt holding_update)
next
  case (acquire_now s i)
  then have "i \<notin> holding holds_permit (sc_tasks s)" "i \<in> holding holds_ticket (sc_tasks s)" by (simp_all add: in_holding)
  with acquire_now show ?case
    unfolding sched_inv_gap_def by (auto simp: holders_alt holding_update insert_absorb)
next
  case (acquire_wait s i)
  then have "i \<notin> holding holds_permit (sc_tasks s)" "i \<in> holding holds_ticket (sc_tasks s)" by (simp_all add: in_holding)
  with acquire_wait show ?case
    unfolding sched_inv_gap_def by (auto simp: holders_alt holding_update insert_absorb)
next
  case (granted s i)
  then have "i \<in> holding holds_permit (sc_tasks s)" "holds_ticket (sc_tasks s i)" by (simp_all add: in_holding)
  with granted card_tickets_drop [of "sc_tasks s" "sc_queued s" i] show ?case
    unfolding sched_inv_gap_def drop_ticket_def
    by (auto simp: holders_alt holding_update insert_absorb ticket_drop_def)
next
  case (complete s i c)
  then show ?case by (intro release_inv) (simp add: complete_gap)
next
  case (drop_granted s i)
  then show ?case by (intro release_inv) (simp add: drop_granted_gap)
next
  case (drop_running s i c)
  then show ?case by (intro release_inv) (simp add: complete_gap)
qed (simp_all add: leave_queue_inv)

lemma reachable_sched_inv: "sched_reachable cfg s \<Longrightarrow> sched_inv cfg s"
  by (induction rule: sched_reachable.induct) (auto intro: sched_inv_init sched_inv_step)


section \<open>Properties\<close>

text \<open>
  A concrete run for the witnesses: one permit and one place in the queue, one task running and
  one waiting for it.
\<close>

definition small_config :: warm_execution_config where
  "small_config = \<lparr>max_active_requests = 1, max_queued_requests = 1, queue_timeout_ms = 30000\<rparr>"

definition run_waiting :: sched where
  "run_waiting = \<lparr>sc_permits = 0, sc_waiters = [1], sc_queued = 1,
     sc_tasks = (\<lambda>_. SIdle)(0 := SRunning cancellation_new, 1 := SWaiting)\<rparr>"

definition run_granted :: sched where
  "run_granted = \<lparr>sc_permits = 0, sc_waiters = [], sc_queued = 1,
     sc_tasks = (\<lambda>_. SIdle)(0 := SFinished (Ok ()), 1 := SGranted)\<rparr>"

lemma run_waiting_reachable: "sched_reachable small_config run_waiting"
proof -
  let ?c = small_config
  let ?s1 = "put 0 (SRunning cancellation_new) ((sched_new ?c)\<lparr>sc_permits := 0\<rparr>)"
  have s1: "sched_reachable ?c ?s1"
    using sched_reachable.step [OF sched_reachable.init [of ?c] sched_step.try_ok [of _ 0]]
    by (simp add: sched_new_def small_config_def)
  have s2: "sched_reachable ?c (put 1 SReserving ?s1)"
    using sched_reachable.step [OF s1 sched_step.try_none [of _ 1]] by (simp add: sched_new_def)
  have s3: "sched_reachable ?c (put 1 SAcquiring (?s1\<lparr>sc_queued := 1\<rparr>))"
    using sched_reachable.step [OF s2 sched_step.reserve_ok [of _ 1 _ 1]]
    by (simp add: sched_new_def ticket_reserve_def small_config_def)
  show ?thesis
    using sched_reachable.step [OF s3 sched_step.acquire_wait [of _ 1]]
    by (simp add: sched_new_def run_waiting_def)
qed

lemma run_granted_step: "sched_step small_config run_waiting run_granted"
  using sched_step.complete [of run_waiting 0 cancellation_new small_config]
  by (simp add: run_waiting_def run_granted_def release_def)

text \<open>
  C13: In every reachable state of the scheduler permits are conserved: the free permits and the
  tasks that hold one (running, or granted and about to run) add up to \<open>max_active_requests\<close>, so
  at most that many operations run at once, whatever tasks time out or are dropped.
\<close>

theorem permits_conserved:
  assumes "sched_reachable cfg s"
  shows "sc_permits s + card {i. sc_tasks s i = SGranted \<or> (\<exists>c. sc_tasks s i = SRunning c)} = max_active_requests cfg
    \<and> card {i. \<exists>c. sc_tasks s i = SRunning c} \<le> max_active_requests cfg"
proof -
  have inv: "finite (permit_holders s)" "card (permit_holders s) + sc_permits s = max_active_requests cfg"
    using reachable_sched_inv [OF assms] by (simp_all add: sched_inv_gap_def)
  have "card {i. \<exists>c. sc_tasks s i = SRunning c} \<le> card (permit_holders s)"
    by (rule card_mono [OF inv(1)]) (auto simp: permit_holders_def)
  with inv(2) show ?thesis by (simp add: permit_holders_def)
qed

lemma permits_conserved_witness:
  "sc_permits run_waiting + card {i. sc_tasks run_waiting i = SGranted \<or> (\<exists>c. sc_tasks run_waiting i = SRunning c)} = 1"
  using permits_conserved [OF run_waiting_reachable] by (simp add: small_config_def)

text \<open>
  C31: In every reachable state the queue counter is exactly the number of tasks that hold a
  ticket, and never exceeds \<open>max_queued_requests\<close>; no ticket leaks when a queued request times
  out or is dropped.
\<close>

theorem queue_counter_exact:
  assumes "sched_reachable cfg s"
  shows "sc_queued s = card {i. sc_tasks s i \<in> {SAcquiring, SWaiting, SGranted}}
    \<and> sc_queued s \<le> max_queued_requests cfg"
  using reachable_sched_inv [OF assms] by (simp add: sched_inv_gap_def ticket_holders_def)

lemma queue_counter_exact_witness:
  "sc_queued run_waiting = card {i. sc_tasks run_waiting i \<in> {SAcquiring, SWaiting, SGranted}}
    \<and> sc_queued run_waiting \<le> 1"
  using queue_counter_exact [OF run_waiting_reachable] by (simp add: small_config_def)

text \<open>
  The scheduler is work-conserving and first come, first served: in every reachable state
  nobody waits while a permit is free, and the only waiting task a step can grant a permit to
  is the first of the queue.
\<close>

theorem waiters_served_in_order:
  assumes "sched_reachable cfg s" "sched_step cfg s s'"
    and "sc_tasks s i = SWaiting" "sc_tasks s' i = SGranted"
  shows "sc_permits s = 0 \<and> sc_waiters s = i # sc_waiters s'"
proof -
  have inv: "sched_inv cfg s" using assms(1) by (rule reachable_sched_inv)
  with assms(3) have "sc_waiters s \<noteq> []" unfolding sched_inv_gap_def by auto
  with inv have "sc_permits s = 0" unfolding sched_inv_gap_def by blast
  moreover from assms(2-4) have "sc_waiters s = i # sc_waiters s'"
    by (induction rule: sched_step.induct)
      (auto simp: release_def drop_ticket_def leave_queue_def split: list.splits if_splits)
  ultimately show ?thesis by blast
qed

lemma waiters_served_in_order_witness:
  "sc_permits run_waiting = 0 \<and> sc_waiters run_waiting = 1 # sc_waiters run_granted"
  by (rule waiters_served_in_order [OF run_waiting_reachable run_granted_step])
    (simp_all add: run_waiting_def run_granted_def)

text \<open>
  An operation that is still running is never cancelled: its handle is armed only to fire
  when its own task is dropped, so a request that is still there to read the answer cannot be
  told it was cancelled.
\<close>
theorem running_operation_not_cancelled:
  assumes "sched_reachable cfg s" "sc_tasks s i = SRunning c"
  shows "\<not> is_cancelled c"
proof -
  have "c = cancellation_new"
    using reachable_sched_inv [OF assms(1)] assms(2) unfolding sched_inv_gap_def by blast
  then show ?thesis by (simp add: is_cancelled_def cancellation_new_def)
qed

lemma running_operation_not_cancelled_witness: "\<not> is_cancelled cancellation_new"
  by (rule running_operation_not_cancelled [OF run_waiting_reachable, of 0]) (simp add: run_waiting_def)

end
