(* ===== verification/Forward.thy ===== *)
theory Forward
  imports Json_Text Scheduler
begin

text \<open>
  \<open>src/src/forward.rs\<close>: forwarding a request through the tunnel to the backend, and the
  rewriting of the model name in its answers. The HTTP client (\<open>reqwest\<close>) is a call to the
  outside; the JSON parser and printer are the parameters \<open>parse\<close> and \<open>print\<close>, with
  what \<open>Json_Text\<close> states of them where it matters.
\<close>

section \<open>Errors\<close>

datatype forward_error =
    UpstreamUnreachable
  | UpstreamError u16 string
  | Cancelled
  | EmbeddingsUnsupported

definition to_openai :: "(string \<Rightarrow> string option) \<Rightarrow> forward_error \<Rightarrow> response option" where
  "to_openai hv e = (case e of
       UpstreamUnreachable \<Rightarrow>
         openai_error hv 503 ''backend_unavailable'' ''upstream backend is not reachable'' None
     | UpstreamError _ message \<Rightarrow> openai_error hv 503 ''upstream_error'' message None
     | Cancelled \<Rightarrow> openai_error hv 503 ''request_cancelled'' ''request was cancelled'' None
     | EmbeddingsUnsupported \<Rightarrow>
         openai_error hv 400 ''unsupported_embeddings'' ''upstream backend does not support embeddings'' None)"

text \<open>What the forwarder reads of a \<open>reqwest::Error\<close>.\<close>

record reqwest_error =
  is_connect :: bool
  is_timeout :: bool
  err_status :: "u16 option"
  err_text :: string

definition from_reqwest :: "reqwest_error \<Rightarrow> forward_error" where
  "from_reqwest error =
     (if is_connect error \<or> is_timeout error then UpstreamUnreachable
      else UpstreamError (unwrap_or 502 (err_status error)) (err_text error))"

section \<open>Rewriting the model name\<close>

definition quoted_model :: string where
  "quoted_model = [CHR 0x22] @ ''model'' @ [CHR 0x22]"

definition rewrite_value :: "string \<Rightarrow> json \<Rightarrow> json" where
  "rewrite_value alias v = (case v of JObject ms \<Rightarrow> JObject (set_member ''model'' (JString alias) ms) | _ \<Rightarrow> v)"

text \<open>
  One JSON text: parsed, its \<open>model\<close> member replaced, printed again; a text that does not parse
  or does not print is kept (\<open>None\<close>).
\<close>

definition rewrite_json ::
  "(string \<Rightarrow> (string, json) res) \<Rightarrow> (json \<Rightarrow> (string, string) res) \<Rightarrow> string \<Rightarrow> string \<Rightarrow> string option" where
  "rewrite_json parse print alias text = (case parse text of Inl _ \<Rightarrow> None
     | Inr v \<Rightarrow> result_ok (print (rewrite_value alias v)))"

definition data_prefix :: string where "data_prefix = ''data: ''"

definition rewrite_line ::
  "(string \<Rightarrow> (string, json) res) \<Rightarrow> (json \<Rightarrow> (string, string) res) \<Rightarrow> string \<Rightarrow> string \<Rightarrow> string" where
  "rewrite_line parse print alias clean_part =
     (case strip_prefix clean_part data_prefix of
        Some sse_data \<Rightarrow>
          if contains_str sse_data quoted_model
          then (case rewrite_json parse print alias sse_data of
                  Some rewritten \<Rightarrow> data_prefix @ rewritten | None \<Rightarrow> clean_part)
          else clean_part
      | None \<Rightarrow>
          if contains_str clean_part quoted_model
          then unwrap_or clean_part (rewrite_json parse print alias clean_part)
          else clean_part)"

definition rewrite_part ::
  "(string \<Rightarrow> (string, json) res) \<Rightarrow> (json \<Rightarrow> (string, string) res) \<Rightarrow> string \<Rightarrow> string \<Rightarrow> string" where
  "rewrite_part parse print alias part = (case strip_suffix_char part (CHR 0x0D) of
       Some stripped \<Rightarrow> rewrite_line parse print alias stripped @ [CHR 0x0D]
     | None \<Rightarrow> rewrite_line parse print alias part)"

definition rewrite_model_alias ::
  "(string \<Rightarrow> (string, json) res) \<Rightarrow> (json \<Rightarrow> (string, string) res) \<Rightarrow> string \<Rightarrow> string \<Rightarrow> string" where
  "rewrite_model_alias parse print body alias =
     (if \<not> contains_str body quoted_model then body
      else join_with [CHR 0x0A] (map (rewrite_part parse print alias) (split_char (CHR 0x0A) body)))"

section \<open>Forwarding\<close>

record forward_config =
  fc_port :: u16

text \<open>An answer of the backend: its status, its whole text if it could be read, its chunks.\<close>

record upstream =
  up_status :: u16
  up_text :: "string option"
  up_chunks :: "(string, bytes) res list"

record 'e libs =
  post_json :: "string \<Rightarrow> bytes \<Rightarrow> ('e, (reqwest_error, upstream) res) ext_call"
  json_parse :: "string \<Rightarrow> (string, json) res"
  json_print :: "json \<Rightarrow> (string, string) res"
  header_value :: "string \<Rightarrow> string option"

definition is_success :: "u16 \<Rightarrow> bool" where
  "is_success st = (200 \<le> st \<and> st \<le> 299)"

definition upstream_url :: "forward_config \<Rightarrow> string \<Rightarrow> string" where
  "upstream_url config path = ''http://127.0.0.1:'' @ show_nat (unat (fc_port config)) @ path"

text \<open>
  The \<open>select!\<close> of both forwarders: the cancellation, when it comes first, or the answer of
  the request.
\<close>

definition send_or_cancel ::
  "'e libs \<Rightarrow> bool \<Rightarrow> string \<Rightarrow> bytes \<Rightarrow> 'e world \<Rightarrow> (forward_error, upstream) res \<times> 'e world" where
  "send_or_cancel L cancelled url body w =
     (if cancelled then (Inl Cancelled, w)
      else (case call (post_json L url body) w of
              (Inl e, w) \<Rightarrow> (Inl (from_reqwest e), w)
            | (Inr r, w) \<Rightarrow> (Inr r, w)))"

definition forward_non_streaming ::
  "'e libs \<Rightarrow> forward_config \<Rightarrow> string \<Rightarrow> bytes \<Rightarrow> bool \<Rightarrow> string \<Rightarrow> 'e world
   \<Rightarrow> (forward_error, response) res \<times> 'e world" where
  "forward_non_streaming L config path body cancelled model_alias w =
     (case send_or_cancel L cancelled (upstream_url config path) body w of
        (Inl e, w) \<Rightarrow> (Inl e, w)
      | (Inr result, w) \<Rightarrow>
          (let status = up_status result; response_body = unwrap_or [] (up_text result) in
           if \<not> is_success status then
             (if status = 404 \<and> starts_with path ''/v1/embeddings''
              then (Inl EmbeddingsUnsupported, w)
              else (Inl (UpstreamError status response_body), w))
           else
             (Inr \<lparr>rs_status = 200, rs_content_type = ''application/json'', rs_retry_after = None,
                rs_body = TextBody (rewrite_model_alias (json_parse L) (json_print L) response_body model_alias)\<rparr>, w)))"

definition rewrite_chunk ::
  "'e libs \<Rightarrow> string \<Rightarrow> (string, bytes) res \<Rightarrow> (string, bytes) res" where
  "rewrite_chunk L alias chunk = (case chunk of
       Inr bytes \<Rightarrow> Inr (rewrite_model_alias (json_parse L) (json_print L) (from_utf8_lossy bytes) alias)
     | Inl e \<Rightarrow> Inl e)"

definition forward_streaming ::
  "'e libs \<Rightarrow> forward_config \<Rightarrow> string \<Rightarrow> bytes \<Rightarrow> bool \<Rightarrow> string \<Rightarrow> 'e world
   \<Rightarrow> (forward_error, response) res \<times> 'e world" where
  "forward_streaming L config path body cancelled model_alias w =
     (case send_or_cancel L cancelled (upstream_url config path) body w of
        (Inl e, w) \<Rightarrow> (Inl e, w)
      | (Inr response, w) \<Rightarrow>
          if \<not> is_success (up_status response) then
            (Inl (UpstreamError (up_status response) (unwrap_or [] (up_text response))), w)
          else
            (Inr \<lparr>rs_status = 200, rs_content_type = ''text/event-stream'', rs_retry_after = None,
               rs_body = StreamBody (map (rewrite_chunk L model_alias) (up_chunks response))\<rparr>, w))"

definition forward ::
  "'e libs \<Rightarrow> forward_config \<Rightarrow> string \<Rightarrow> bytes \<Rightarrow> bool \<Rightarrow> bool \<Rightarrow> string \<Rightarrow> 'e world
   \<Rightarrow> (forward_error, response) res \<times> 'e world" where
  \<comment> \<open>the choice both callers make between the two forwarders\<close>
  "forward L config path body stream cancelled model_alias w =
     (if stream then forward_streaming L config path body cancelled model_alias w
      else forward_non_streaming L config path body cancelled model_alias w)"

section \<open>Lemmas\<close>

lemma rewrite_line_no_model: "\<not> contains_str s quoted_model \<Longrightarrow> rewrite_line parse print alias s = s"
proof -
  assume no: "\<not> contains_str s quoted_model"
  have "\<not> contains_str d quoted_model" if "strip_prefix s data_prefix = Some d" for d
    using no that unfolding contains_str_iff strip_prefix_Some by (metis append.assoc)
  with no show ?thesis by (simp add: rewrite_line_def split: option.splits)
qed

lemma forward_libs: "send_or_cancel L c u b w = (Inr r, w') \<Longrightarrow> \<not> c"
  by (auto simp: send_or_cancel_def)

lemma forward_cancelled_iff:
  assumes "forward L config path body stream cancelled alias w = (Inl Cancelled, w')"
  shows "cancelled"
  using assms
  by (auto simp: forward_def forward_streaming_def forward_non_streaming_def send_or_cancel_def
      from_reqwest_def Let_def split: if_splits prod.splits sum.splits)

lemma forward_ok_status:
  assumes "forward L config path body stream cancelled alias w = (Inr r, w')"
  shows "rs_status r = 200"
  using assms
  by (auto simp: forward_def forward_streaming_def forward_non_streaming_def
      Let_def split: if_splits prod.splits sum.splits)

lemma to_openai_not_None: "\<exists>r. to_openai hv e = Some r"
  by (cases e) (simp_all add: to_openai_def)

section \<open>Rewriting line by line\<close>

abbreviation LF :: char where "LF \<equiv> CHR 0x0A"

lemma contains_parts:
  "p \<in> set (split_char d s) \<Longrightarrow> contains_str p n \<Longrightarrow> contains_str s n"
proof -
  assume p: "p \<in> set (split_char d s)" "contains_str p n"
  have "\<exists>a b. s = a @ p @ b" using p(1)
  proof (induction s arbitrary: p)
    case Nil
    then show ?case by simp
  next
    case (Cons c cs)
    obtain q qs where q: "split_char d cs = q # qs" by (cases "split_char d cs") auto
    have head: "\<exists>b. cs = q @ b"
    proof -
      have "cs = join_with [d] (q # qs)" using join_split [of d cs] q by simp
      then show ?thesis by (cases qs) auto
    qed
    show ?case
    proof (cases "c = d \<and> p = [] \<or> c \<noteq> d \<and> p = c # q")
      case True
      with head show ?thesis by (metis append_Cons append_Nil)
    next
      case False
      with Cons.prems q have "p \<in> set (split_char d cs)" by (auto split: if_splits)
      with Cons.IH obtain a b where "cs = a @ p @ b" by blast
      then have "c # cs = (c # a) @ p @ b" by simp
      then show ?thesis by blast
    qed
  qed
  with p(2) show ?thesis unfolding contains_str_iff by (metis append.assoc)
qed

lemma rewrite_part_no_model: "\<not> contains_str s quoted_model \<Longrightarrow> rewrite_part parse print alias s = s"
proof -
  assume no: "\<not> contains_str s quoted_model"
  have "\<not> contains_str t quoted_model" if "s = t @ u" for t u
    using no that unfolding contains_str_iff by (metis append.assoc)
  with no show ?thesis
    by (auto simp: rewrite_part_def rewrite_line_no_model strip_suffix_char_Some split: option.split)
qed

text \<open>The shortcut for a text without \<open>"model"\<close> is only that.\<close>

lemma rewrite_model_alias_lines:
  "rewrite_model_alias parse print body alias
     = join_with [LF] (map (rewrite_part parse print alias) (split_char LF body))"
proof (cases "contains_str body quoted_model")
  case False
  then have "map (rewrite_part parse print alias) (split_char LF body) = split_char LF body"
    using contains_parts rewrite_part_no_model by (intro map_idI) blast
  with False show ?thesis by (simp add: rewrite_model_alias_def join_split)
qed (simp add: rewrite_model_alias_def)

lemma split_char_append_any: "split_char d (a @ d # b) = split_char d a @ split_char d b"
proof (induction a)
  case (Cons c cs)
  then show ?case by (cases "split_char d cs") auto
qed simp

lemma join_with_append: "ps \<noteq> [] \<Longrightarrow> qs \<noteq> [] \<Longrightarrow>
    join_with sep (ps @ qs) = join_with sep ps @ sep @ join_with sep qs"
  by (induction sep ps rule: join_with.induct) (auto simp: join_with_Cons)

lemma rewrite_part_Nil [simp]: "rewrite_part parse print alias [] = []"
  by (rule rewrite_part_no_model) (simp add: quoted_model_def)

text \<open>A text of whole lines is rewritten piece by piece.\<close>

lemma rewrite_append_lines:
  assumes "a \<noteq> []" "last a = LF"
  shows "rewrite_model_alias parse print (a @ b) alias
       = rewrite_model_alias parse print a alias @ rewrite_model_alias parse print b alias"
proof -
  obtain c where c: "a = c @ [LF]" using assms append_butlast_last_id by metis
  show ?thesis
    by (simp add: rewrite_model_alias_lines c split_char_append_any [of LF c b]
        split_char_append_any [of LF c "[]", simplified] join_with_append)
qed

definition whole_lines :: "bytes \<Rightarrow> bool" where
  "whole_lines c = (valid_utf8 c \<and> c \<noteq> [] \<and> last c = LF)"

lemma rewrite_chunks_concat:
  assumes "\<forall>c\<in>set cs. whole_lines c"
  shows "map (rewrite_chunk L alias) (map Ok cs)
      = map (\<lambda>c. Ok (rewrite_model_alias (json_parse L) (json_print L) c alias)) cs
    \<and> concat (map (\<lambda>c. rewrite_model_alias (json_parse L) (json_print L) c alias) cs)
      = rewrite_model_alias (json_parse L) (json_print L) (concat cs) alias"
  using assms
proof (induction cs)
  case Nil
  then show ?case by (simp add: rewrite_model_alias_def quoted_model_def)
next
  case (Cons c cs)
  then show ?case
    by (simp add: rewrite_chunk_def whole_lines_def lossy_valid rewrite_append_lines)
qed

section \<open>Properties\<close>

text \<open>
  Rewriting the model name keeps the lines. For a printer that prints JSON on one line,
  the rewritten text has the lines of the original, each one rewritten on its own (a carriage
  return before the line feed stays), and a line without \<open>"model"\<close> is unchanged byte for byte.
\<close>

theorem rewrite_keeps_lines:
  assumes "\<forall>v s. print v = Ok s \<longrightarrow> LF \<notin> set s"
  shows "split_char LF (rewrite_model_alias parse print body alias)
      = map (rewrite_part parse print alias) (split_char LF body)
    \<and> (\<forall>l\<in>set (split_char LF body). \<not> contains_str l quoted_model \<longrightarrow>
          rewrite_part parse print alias l = l)"
proof -
  have json: "LF \<notin> set s" if "rewrite_json parse print alias t = Some s" for s t
    using that assms by (auto simp: rewrite_json_def result_ok_def split: sum.splits)
  have pre: "LF \<notin> set data_prefix" by (simp add: data_prefix_def)
  have keep: "LF \<notin> set (unwrap_or l (rewrite_json parse print alias t))" if "LF \<notin> set l" for l t
    using that json [of t] by (cases "rewrite_json parse print alias t") simp_all
  have line: "LF \<notin> set (rewrite_line parse print alias l)" if "LF \<notin> set l" for l
    using that json keep pre
    by (simp add: rewrite_line_def split: option.split)
  have part: "LF \<notin> set (rewrite_part parse print alias l)" if "LF \<notin> set l" for l
  proof (cases "strip_suffix_char l (CHR 0x0D)")
    case None
    with line [OF that] show ?thesis by (simp add: rewrite_part_def)
  next
    case (Some t)
    then have "LF \<notin> set t" using that by (simp add: strip_suffix_char_Some)
    from line [OF this] Some show ?thesis by (simp add: rewrite_part_def)
  qed
  have "split_char LF (join_with [LF] (map (rewrite_part parse print alias) (split_char LF body)))
      = map (rewrite_part parse print alias) (split_char LF body)"
    by (rule split_join) (use part split_char_parts in auto)
  then show ?thesis by (simp add: rewrite_model_alias_lines rewrite_part_no_model)
qed

theorem rewrite_keeps_lines_witness:
  "split_char LF (rewrite_model_alias (\<lambda>s. Err ''no'') (\<lambda>v. Ok ''{}'') [CHR ''a'', LF, CHR ''b''] ''m'')
     = [''a'', ''b'']"
proof -
  have "\<forall>v s. (\<lambda>v. Ok ''{}'') (v :: json) = (Ok s :: (string, string) res) \<longrightarrow> LF \<notin> set s"
    by auto
  from rewrite_keeps_lines [OF this, of "\<lambda>s. Err ''no''" "[CHR ''a'', LF, CHR ''b'']" "''m''"]
  show ?thesis by (simp add: quoted_model_def)
qed



text \<open>
  C20: Streaming agrees with rewriting the whole answer when the backend's chunks are whole
  lines of UTF-8: the chunks that are sent, put together, are the rewritten text of the chunks
  that were received, put together.
\<close>

theorem streaming_agrees_with_whole:
  assumes "\<forall>c\<in>set cs. whole_lines c"
    and "call (post_json L (upstream_url config path) body) w = (Ok up, w1)"
    and "is_success (up_status up)" "up_chunks up = map Ok cs"
  shows "\<exists>outs. forward_streaming L config path body False alias w =
      (Ok \<lparr>rs_status = 200, rs_content_type = ''text/event-stream'', rs_retry_after = None,
           rs_body = StreamBody (map Ok outs)\<rparr>, w1)
    \<and> concat outs = rewrite_model_alias (json_parse L) (json_print L) (concat cs) alias"
proof -
  let ?outs = "map (\<lambda>c. rewrite_model_alias (json_parse L) (json_print L) c alias) cs"
  from rewrite_chunks_concat [OF assms(1), of L "alias"] assms(2-4) show ?thesis
    by (intro exI [of _ ?outs]) (simp add: forward_streaming_def send_or_cancel_def comp_def)
qed

definition stream_libs :: "bytes list \<Rightarrow> unit libs" where
  "stream_libs cs = \<lparr>post_json = (\<lambda>url b e. (Ok \<lparr>up_status = 200, up_text = None, up_chunks = map Ok cs\<rparr>, 1, e)),
     json_parse = json_read_compact, json_print = json_print_compact, header_value = Some\<rparr>"

theorem streaming_agrees_with_whole_witness:
  "\<exists>outs. forward_streaming (stream_libs [''a'' @ [LF], ''b'' @ [LF]]) \<lparr>fc_port = 9000\<rparr> ''/v1'' [] False ''m''
       \<lparr>clock = 0, env = ()\<rparr> =
      (Ok \<lparr>rs_status = 200, rs_content_type = ''text/event-stream'', rs_retry_after = None,
           rs_body = StreamBody (map Ok outs)\<rparr>, \<lparr>clock = 1, env = ()\<rparr>)
    \<and> concat outs = ''a'' @ [LF] @ ''b'' @ [LF]"
proof -
  let ?cs = "[''a'' @ [LF], ''b'' @ [LF]]" and ?w = "\<lparr>clock = 0, env = ()\<rparr>"
  let ?up = "\<lparr>up_status = 200, up_text = None, up_chunks = map Ok ?cs\<rparr>"
  have "valid_utf8 (''a'' @ [LF])" "valid_utf8 (''b'' @ [LF])" by code_simp+
  then have 1: "\<forall>c\<in>set ?cs. whole_lines c" by (simp add: whole_lines_def)
  have 2: "call (post_json (stream_libs ?cs) (upstream_url \<lparr>fc_port = 9000\<rparr> ''/v1'') []) ?w
      = (Ok ?up, \<lparr>clock = 1, env = ()\<rparr>)"
    by (simp add: stream_libs_def call_def)
  have 3: "is_success (up_status ?up)" by (simp add: is_success_def)
  have 4: "up_chunks ?up = map Ok ?cs" by simp
  have "rewrite_model_alias json_read_compact json_print_compact (''a'' @ [LF] @ ''b'' @ [LF]) ''m'' = ''a'' @ [LF] @ ''b'' @ [LF]"
    by (simp add: rewrite_model_alias_def quoted_model_def)
  with streaming_agrees_with_whole [OF 1 2 3 4, of "''m''"] show ?thesis
    by (simp add: stream_libs_def)
qed

text \<open>
  Streaming does not keep a character that the backend's chunks split. A three-byte
  character sent in two chunks arrives as replacement characters: the bytes that are sent on
  are not the bytes that were received.
\<close>

theorem split_character_is_corrupted:
  "map (rewrite_chunk L alias) [Ok [CHR 0xE2, CHR 0x82], Ok [CHR 0xAC]]
     = [Ok replacement, Ok replacement]
   \<and> from_utf8_lossy [CHR 0xE2, CHR 0x82, CHR 0xAC] = [CHR 0xE2, CHR 0x82, CHR 0xAC]"
proof -
  have "from_utf8_lossy [CHR 0xE2, CHR 0x82] = replacement" by code_simp
  moreover have "from_utf8_lossy [CHR 0xAC] = replacement" by code_simp
  moreover have "\<not> contains_str replacement quoted_model" by code_simp
  moreover have "from_utf8_lossy [CHR 0xE2, CHR 0x82, CHR 0xAC] = [CHR 0xE2, CHR 0x82, CHR 0xAC]"
    by code_simp
  ultimately show ?thesis by (simp add: rewrite_chunk_def rewrite_model_alias_def)
qed

end
