(* ===== verification/Orchestrate.thy ===== *)
theory Orchestrate
  imports App_State Forward
begin

text \<open>
  One request from the handler to the answer (\<open>src/src/orchestrate.rs\<close>): the cold-start
  permit, the lifecycle, the tunnel check, the scheduler, the forwarder, and what each outcome
  does to the metrics and the lifecycle. The verdict of the scheduler's queue (see
  \<open>Scheduler\<close>) is a call, since it depends on the other requests, and \<open>rc_meanwhile\<close> stands
  for what they do to the managers while the forwarder runs. A response that cannot be built
  (\<open>openai_error\<close> panics on a bad \<open>Retry-After\<close>) is \<open>None\<close>.
\<close>

section \<open>The interface of a lifecycle orchestrator\<close>

text \<open>The trait \<open>LifecycleOrchestrator\<close> and what the orchestrator relies on.\<close>

locale lifecycle_orchestrator =
  fixes ops :: "('m, 'e) lifecycle_ops"
  assumes ready_is_ready: "lo_ensure_backend ops r (m, w) = (DReady s, m', w') \<Longrightarrow>
      bs_lifecycle s = LsReady \<and> bs_tunnel s = TsReady"
    and mark_warming_status: "bs_lifecycle (lo_status ops (lo_mark_warming ops m)) = LsWarming"
    and degrade_status: "bs_embeddings (lo_status ops (lo_degrade_embeddings ops reason m)) = CsDegraded"
begin

lemma ready_tunnel: "lo_ensure_backend ops r (m, w) = (DReady s, m', w') \<Longrightarrow> bs_tunnel s = TsReady"
  using ready_is_ready by blast

lemma marked_not_cold: "bs_lifecycle (lo_status ops (lo_mark_warming ops m)) \<noteq> LsCold"
  using mark_warming_status by simp

end

interpretation chat_manager: lifecycle_orchestrator "chat_ops P tm around"
  for P :: "'e ports" and tm around
  by unfold_locales
     (auto simp: chat_ops_def mark_warming_def degrade_embeddings_def publish_def backend_is_ready_def
        dest: ensure_backend_ready split: prod.splits)

interpretation embeddings_manager: lifecycle_orchestrator "embeddings_ops P tm around"
  for P :: "'e ports" and tm around
  by unfold_locales
     (auto simp: embeddings_ops_def mark_warming_def degrade_embeddings_def publish_def backend_is_ready_def
        dest: ensure_backend_ready split: prod.splits)

section \<open>Orchestration\<close>

record ('m, 'e) request_context =
  rc_admit :: "('e, warm_execution_error option) ext_call"
  rc_meanwhile :: "'m \<Rightarrow> 'm"

definition update_metrics :: "(metrics \<Rightarrow> metrics) \<Rightarrow> ('m, 'e) app_state \<Rightarrow> ('m, 'e) app_state" where
  "update_metrics f st = st\<lparr>as_metrics := f (as_metrics st)\<rparr>"

definition ask_backend ::
  "lifecycle_request \<Rightarrow> ('m, 'e) app_state \<Rightarrow> lifecycle_decision \<times> ('m, 'e) app_state" where
  "ask_backend kind st =
     (case lo_ensure_backend (lifecycle_for st kind) kind (as_managers st, as_world st) of
        (d, m, w) \<Rightarrow> (d, st\<lparr>as_managers := m, as_world := w\<rparr>))"

definition warm_execution_error_response ::
  "(string \<Rightarrow> string option) \<Rightarrow> warm_execution_error \<Rightarrow> response option" where
  "warm_execution_error_response hv e = openai_error hv 429 ''overloaded'' (warm_message e) None"

definition embedding_degradation_response ::
  "(string \<Rightarrow> string option) \<Rightarrow> ('m, 'e) app_state \<Rightarrow> string \<Rightarrow> response option \<times> ('m, 'e) app_state" where
  "embedding_degradation_response hv st reason =
     (openai_error hv 400 ''unsupported_embeddings''
        (''upstream backend does not support embeddings: '' @ reason) None,
      st\<lparr>as_managers := lo_degrade_embeddings (as_embeddings_lifecycle st) reason (as_managers st)\<rparr>)"

definition warming_response :: "(string \<Rightarrow> string option) \<Rightarrow> u64 \<Rightarrow> response option" where
  "warming_response hv retry =
     openai_error hv 503 ''warming_up'' ''backend is still starting'' (Some (show_nat (unat retry)))"

definition failed_response :: "(string \<Rightarrow> string option) \<Rightarrow> lifecycle_error \<Rightarrow> response option" where
  "failed_response hv e = openai_error hv 503 ''backend_error'' (le_message e) None"

text \<open>The forwarder, run in the state; \<open>unwrap_or_else(to_openai)\<close> of the retry.\<close>

definition run_forward ::
  "'e libs \<Rightarrow> ('m, 'e) request_context \<Rightarrow> forward_config \<Rightarrow> string \<Rightarrow> bytes \<Rightarrow> bool \<Rightarrow> string
   \<Rightarrow> ('m, 'e) app_state \<Rightarrow> (forward_error, response) res \<times> ('m, 'e) app_state" where
  "run_forward L ctx config path body stream model_alias st =
     (case forward L config path body stream False model_alias (as_world st) of
        (r, w) \<Rightarrow> (r, st\<lparr>as_managers := rc_meanwhile ctx (as_managers st), as_world := w\<rparr>))"

definition retry_unreachable ::
  "'e libs \<Rightarrow> ('m, 'e) request_context \<Rightarrow> lifecycle_request \<Rightarrow> forward_config \<Rightarrow> string \<Rightarrow> bytes \<Rightarrow> bool
   \<Rightarrow> string \<Rightarrow> ('m, 'e) app_state \<Rightarrow> response option \<times> ('m, 'e) app_state" where
  \<comment> \<open>the branch of \<open>UpstreamUnreachable\<close>, after its metrics\<close>
  "retry_unreachable L ctx kind config path body stream model_alias st =
     (let st = st\<lparr>as_managers := lo_mark_warming (lifecycle_for st kind) (as_managers st)\<rparr> in
      case ask_backend kind st of
        (DReady _, st) \<Rightarrow>
          (case run_forward L ctx config path body stream model_alias st of
             (Inr response, st) \<Rightarrow> (Some response, st)
           | (Inl e, st) \<Rightarrow> (to_openai (header_value L) e, st))
      | (DWarming _ retry, st) \<Rightarrow> (warming_response (header_value L) retry, st)
      | (DFailed _ error, st) \<Rightarrow> (failed_response (header_value L) error, st))"

definition forward_via_scheduler ::
  "'e libs \<Rightarrow> ('m, 'e) request_context \<Rightarrow> lifecycle_request \<Rightarrow> bytes \<Rightarrow> bool \<Rightarrow> string
   \<Rightarrow> ('m, 'e) app_state \<Rightarrow> response option \<times> ('m, 'e) app_state" where
  "forward_via_scheduler L ctx kind body stream path st =
     (let config = \<lparr>fc_port = tunnel_port_for (as_config st) kind\<rparr>;
          model_alias = model_alias_for (as_config st) kind;
          hv = header_value L
      in case call (rc_admit ctx) (as_world st) of
           (Some QueueFull, w) \<Rightarrow>
             (warm_execution_error_response hv QueueFull, update_metrics inc_queue_full (st\<lparr>as_world := w\<rparr>))
         | (Some QueueTimeout, w) \<Rightarrow>
             (warm_execution_error_response hv QueueTimeout,
              update_metrics inc_queue_timeouts (st\<lparr>as_world := w\<rparr>))
         | (None, w) \<Rightarrow>
             (case run_forward L ctx config path body stream model_alias (st\<lparr>as_world := w\<rparr>) of
                (Inr response, st) \<Rightarrow> (Some response, update_metrics inc_warm_requests st)
              | (Inl EmbeddingsUnsupported, st) \<Rightarrow>
                  embedding_degradation_response hv (update_metrics inc_embeddings_degraded st)
                    ''upstream returned 404''
              | (Inl UpstreamUnreachable, st) \<Rightarrow>
                  retry_unreachable L ctx kind config path body stream model_alias
                    (update_metrics inc_wake_attempts (update_metrics inc_cold_starts st))
              | (Inl error, st) \<Rightarrow> (to_openai hv error, update_metrics inc_forwarding_errors st)))"

definition request_path :: "lifecycle_request \<Rightarrow> string" where
  "request_path kind = (case kind of Chat \<Rightarrow> ''/v1/chat/completions'' | Embeddings \<Rightarrow> ''/v1/embeddings'')"

definition handle_ready ::
  "'e libs \<Rightarrow> ('m, 'e) request_context \<Rightarrow> lifecycle_request \<Rightarrow> bytes \<Rightarrow> bool \<Rightarrow> backend_status
   \<Rightarrow> ('m, 'e) app_state \<Rightarrow> response option \<times> ('m, 'e) app_state" where
  "handle_ready L ctx kind body stream ready st =
     (case check_tunnel_drop st kind (bs_tunnel ready) of (was_dropped, st) \<Rightarrow>
      let st = (if was_dropped then update_metrics inc_tunnel_drops st else st) in
      if kind = Embeddings \<and> bs_embeddings ready = CsDegraded then
        (openai_error (header_value L) 400 ''unsupported_embeddings''
           (unwrap_or ''embeddings are degraded'' (bs_embeddings_reason ready)) None, st)
      else forward_via_scheduler L ctx kind body stream (request_path kind) st)"

text \<open>\<open>Inr b\<close>: go on, and \<open>b\<close> says whether a permit is held until the end of \<open>execute\<close>.\<close>

definition acquire_cold_permit ::
  "'e libs \<Rightarrow> lifecycle_request \<Rightarrow> ('m, 'e) app_state \<Rightarrow> (response option, bool) res \<times> ('m, 'e) app_state" where
  "acquire_cold_permit L kind st =
     (if is_cold st kind
      then (case cold_acquire (ac_cold_start_max_waiting (as_config st)) (as_cold_used st) of
              Some u \<Rightarrow> (Ok True, st\<lparr>as_cold_used := u\<rparr>)
            | None \<Rightarrow> (Err (openai_error (header_value L) 503 ''warming_up''
                        ''cold-start queue is full, retry later'' (Some ''10'')), st))
      else (Ok False, st))"

definition execute_admitted ::
  "'e libs \<Rightarrow> ('m, 'e) request_context \<Rightarrow> lifecycle_request \<Rightarrow> bytes \<Rightarrow> bool
   \<Rightarrow> ('m, 'e) app_state \<Rightarrow> response option \<times> ('m, 'e) app_state" where
  "execute_admitted L ctx kind body stream st =
     (case ask_backend kind st of
        (DReady ready, st) \<Rightarrow> handle_ready L ctx kind body stream ready st
      | (DWarming _ retry, st) \<Rightarrow>
          (warming_response (header_value L) retry,
           update_metrics inc_wake_attempts (update_metrics inc_cold_starts st))
      | (DFailed _ error, st) \<Rightarrow>
          (failed_response (header_value L) error, update_metrics inc_wake_failures st))"

definition execute ::
  "'e libs \<Rightarrow> ('m, 'e) request_context \<Rightarrow> lifecycle_request \<Rightarrow> bytes \<Rightarrow> bool
   \<Rightarrow> ('m, 'e) app_state \<Rightarrow> response option \<times> ('m, 'e) app_state" where
  "execute L ctx kind body stream st =
     (case acquire_cold_permit L kind st of
        (Inl response, st) \<Rightarrow> (response, st)
      | (Inr held, st) \<Rightarrow>
          (case execute_admitted L ctx kind body stream st of
             (response, st) \<Rightarrow> (response,
                if held then st\<lparr>as_cold_used := cold_release (as_cold_used st)\<rparr> else st)))"

section \<open>Lemmas\<close>

text \<open>What no operation of a request touches: the configuration and the two objects.\<close>

definition same_setup :: "('m, 'e) app_state \<Rightarrow> ('m, 'e) app_state \<Rightarrow> bool" where
  "same_setup st st' = (as_config st' = as_config st \<and> as_chat_lifecycle st' = as_chat_lifecycle st
     \<and> as_embeddings_lifecycle st' = as_embeddings_lifecycle st \<and> as_cold_used st' = as_cold_used st)"

lemma same_setup_refl [simp]: "same_setup st st"
  by (simp add: same_setup_def)

lemma same_setup_trans: "same_setup a b \<Longrightarrow> same_setup b c \<Longrightarrow> same_setup a c"
  by (simp add: same_setup_def)

lemma same_setup_updates [simp]:
  "same_setup st (update_metrics f st') = same_setup st st'"
  "same_setup st (st'\<lparr>as_managers := m\<rparr>) = same_setup st st'"
  "same_setup st (st'\<lparr>as_world := w\<rparr>) = same_setup st st'"
  "same_setup (update_metrics f st') st = same_setup st' st"
  "same_setup (st'\<lparr>as_managers := m\<rparr>) st = same_setup st' st"
  "same_setup (st'\<lparr>as_world := w\<rparr>) st = same_setup st' st"
  by (simp_all add: same_setup_def update_metrics_def)

lemma lifecycle_for_same: "same_setup st st' \<Longrightarrow> lifecycle_for st' kind = lifecycle_for st kind"
  by (simp add: same_setup_def lifecycle_for_def split: lifecycle_request.split)

lemma ask_backend_setup: "ask_backend kind st = (d, st') \<Longrightarrow>
    same_setup st st' \<and> as_metrics st' = as_metrics st"
  by (auto simp: ask_backend_def split: prod.splits)

lemma run_forward_setup: "run_forward L ctx c p b stream al st = (r, st') \<Longrightarrow>
    same_setup st st' \<and> as_metrics st' = as_metrics st"
  by (auto simp: run_forward_def split: prod.splits)

lemma check_tunnel_drop_setup: "check_tunnel_drop st kind t = (b, st') \<Longrightarrow>
    same_setup st st' \<and> as_metrics st' = as_metrics st"
  by (auto simp: check_tunnel_drop_def same_setup_def split: lifecycle_request.splits)

lemma tunnel_drops_updates [simp]:
  "tunnel_drops (as_metrics (update_metrics inc_cold_starts st)) = tunnel_drops (as_metrics st)"
  "tunnel_drops (as_metrics (update_metrics inc_wake_attempts st)) = tunnel_drops (as_metrics st)"
  "tunnel_drops (as_metrics (update_metrics inc_wake_failures st)) = tunnel_drops (as_metrics st)"
  "tunnel_drops (as_metrics (update_metrics inc_warm_requests st)) = tunnel_drops (as_metrics st)"
  "tunnel_drops (as_metrics (update_metrics inc_queue_full st)) = tunnel_drops (as_metrics st)"
  "tunnel_drops (as_metrics (update_metrics inc_queue_timeouts st)) = tunnel_drops (as_metrics st)"
  "tunnel_drops (as_metrics (update_metrics inc_embeddings_degraded st)) = tunnel_drops (as_metrics st)"
  "tunnel_drops (as_metrics (update_metrics inc_forwarding_errors st)) = tunnel_drops (as_metrics st)"
  by (simp_all add: update_metrics_def inc_defs)

text \<open>One statement per operation: the setup stays, and so does the count of tunnel drops.\<close>

definition quiet :: "('m, 'e) app_state \<Rightarrow> ('m, 'e) app_state \<Rightarrow> bool" where
  "quiet st st' = (same_setup st st' \<and> tunnel_drops (as_metrics st') = tunnel_drops (as_metrics st))"

lemma retry_unreachable_quiet:
  assumes "retry_unreachable L ctx kind c p b stream al st = (r, st')"
  shows "quiet st st'"
proof -
  let ?st = "st\<lparr>as_managers := lo_mark_warming (lifecycle_for st kind) (as_managers st)\<rparr>"
  obtain d st1 where d: "ask_backend kind ?st = (d, st1)" by (cases "ask_backend kind ?st")
  obtain f st2 where f: "run_forward L ctx c p b stream al st1 = (f, st2)"
    by (cases "run_forward L ctx c p b stream al st1")
  from ask_backend_setup [OF d] run_forward_setup [OF f] assms d f show ?thesis
    by (auto simp: retry_unreachable_def Let_def quiet_def intro: same_setup_trans
        split: lifecycle_decision.splits sum.splits)
qed

lemma forward_via_scheduler_quiet:
  assumes "forward_via_scheduler L ctx kind b stream p st = (r, st')"
  shows "quiet st st'"
proof -
  let ?c = "\<lparr>fc_port = tunnel_port_for (as_config st) kind\<rparr>" and ?al = "model_alias_for (as_config st) kind"
  obtain a w where a: "call (rc_admit ctx) (as_world st) = (a, w)" by (cases "call (rc_admit ctx) (as_world st)")
  obtain f st1 where f: "run_forward L ctx ?c p b stream ?al (st\<lparr>as_world := w\<rparr>) = (f, st1)"
    by (cases "run_forward L ctx ?c p b stream ?al (st\<lparr>as_world := w\<rparr>)")
  have st1: "same_setup st st1" "as_metrics st1 = as_metrics st"
    using run_forward_setup [OF f] by simp_all
  have retry: "quiet st st2" if "retry_unreachable L ctx kind ?c p b stream ?al
      (update_metrics inc_wake_attempts (update_metrics inc_cold_starts st1)) = (r2, st2)" for r2 st2
    using retry_unreachable_quiet [OF that] st1 by (auto simp: quiet_def intro: same_setup_trans)
  show ?thesis
    using assms a f st1 retry
    by (auto simp: forward_via_scheduler_def Let_def quiet_def embedding_degradation_response_def
        split: option.splits warm_execution_error.splits sum.splits forward_error.splits)
qed

context lifecycle_orchestrator
begin

text \<open>An object that keeps the contract never lets a tunnel drop be seen.\<close>

lemma ready_means_no_drop:
  assumes "lifecycle_for st kind = ops" and "ask_backend kind st = (DReady s, st')"
  shows "\<not> fst (check_tunnel_drop st'' kind (bs_tunnel s))"
  using assms ready_tunnel
  by (auto simp: ask_backend_def check_tunnel_drop_def split: prod.splits lifecycle_request.splits)

lemma execute_admitted_quiet:
  assumes ops: "lifecycle_for st kind = ops"
    and run: "execute_admitted L ctx kind b stream st = (r, st')"
  shows "quiet st st'"
proof -
  obtain d st1 where d: "ask_backend kind st = (d, st1)" by (cases "ask_backend kind st")
  note st1 = ask_backend_setup [OF d]
  show ?thesis
  proof (cases d)
    case (DReady s)
    obtain x st2 where x: "check_tunnel_drop st1 kind (bs_tunnel s) = (x, st2)"
      by (cases "check_tunnel_drop st1 kind (bs_tunnel s)")
    with ready_means_no_drop [OF ops, of s st1 st1] d DReady have "\<not> x" by simp
    with check_tunnel_drop_setup [OF x] st1 have st2: "quiet st st2"
      by (auto simp: quiet_def intro: same_setup_trans)
    have "quiet st st3" if "forward_via_scheduler L ctx kind b stream p st2 = (r3, st3)" for p r3 st3
      using forward_via_scheduler_quiet [OF that] st2 by (auto simp: quiet_def intro: same_setup_trans)
    with run d DReady x \<open>\<not> x\<close> st2 show ?thesis
      by (auto simp: execute_admitted_def handle_ready_def Let_def split: if_splits)
  qed (use run d st1 in \<open>auto simp: execute_admitted_def quiet_def\<close>)
qed

lemma execute_quiet:
  assumes ops: "lifecycle_for st kind = ops"
    and run: "execute L ctx kind b stream st = (r, st')"
  shows "quiet st st'"
proof -
  obtain p st1 where p: "acquire_cold_permit L kind st = (p, st1)" by (cases "acquire_cold_permit L kind st")
  obtain r2 st2 where e: "execute_admitted L ctx kind b stream st1 = (r2, st2)"
    by (cases "execute_admitted L ctx kind b stream st1")
  from p have ops1: "lifecycle_for st1 kind = ops"
    using ops by (auto simp: acquire_cold_permit_def lifecycle_for_def
        split: if_splits option.splits lifecycle_request.splits)
  have "quiet st1 st2" using execute_admitted_quiet [OF ops1 e] .
  with run p e show ?thesis
    by (auto simp: execute_def acquire_cold_permit_def quiet_def same_setup_def cold_acquire_def
        cold_release_def split: if_splits option.splits)
qed

end

lemma production_orchestrators:
  assumes "production os tm around config w = Some st"
  shows "lifecycle_orchestrator (as_chat_lifecycle st)" "lifecycle_orchestrator (as_embeddings_lifecycle st)"
  using assms chat_manager.lifecycle_orchestrator_axioms embeddings_manager.lifecycle_orchestrator_axioms
  by (auto simp: production_def assemble_def Let_def split: option.splits)

lemma execute_quiet_any:
  assumes "lifecycle_orchestrator (as_chat_lifecycle st)" "lifecycle_orchestrator (as_embeddings_lifecycle st)"
    and "execute L ctx kind b stream st = (r, st')"
  shows "quiet st st'"
proof -
  have "lifecycle_orchestrator (lifecycle_for st kind)"
    using assms(1,2) by (simp add: lifecycle_for_def split: lifecycle_request.split)
  from lifecycle_orchestrator.execute_quiet [OF this refl assms(3)] show ?thesis .
qed

text \<open>A history of requests, one after the other.\<close>

type_synonym ('m, 'e) request = "('m, 'e) request_context \<times> lifecycle_request \<times> bytes \<times> bool"

definition serve_one :: "'e libs \<Rightarrow> ('m, 'e) request \<Rightarrow> ('m, 'e) app_state \<Rightarrow> ('m, 'e) app_state" where
  "serve_one L q st = (case q of (ctx, kind, b, stream) \<Rightarrow> snd (execute L ctx kind b stream st))"

definition serve :: "'e libs \<Rightarrow> ('m, 'e) request list \<Rightarrow> ('m, 'e) app_state \<Rightarrow> ('m, 'e) app_state" where
  "serve L qs = fold (serve_one L) qs"

lemma serve_quiet:
  assumes "lifecycle_orchestrator (as_chat_lifecycle st)" "lifecycle_orchestrator (as_embeddings_lifecycle st)"
  shows "quiet st (serve L qs st)"
  using assms
proof (induction qs arbitrary: st)
  case Nil
  then show ?case by (simp add: serve_def quiet_def)
next
  case (Cons q qs)
  obtain ctx kind b stream where q: "q = (ctx, kind, b, stream)" by (cases q)
  obtain r st1 where r: "execute L ctx kind b stream st = (r, st1)" by (cases "execute L ctx kind b stream st")
  have st1: "quiet st st1" using execute_quiet_any [OF Cons.prems r] .
  then have "quiet st1 (serve L qs st1)"
    using Cons.IH [of st1] Cons.prems by (simp add: quiet_def same_setup_def)
  with st1 q r show ?case by (simp add: serve_def serve_one_def quiet_def same_setup_def)
qed

text \<open>Where an answer with the status 200 comes from.\<close>

lemma openai_error_status: "openai_error hv st code msg retry = Some r \<Longrightarrow> rs_status r = st"
  using openai_error_fields(1) .

lemma to_openai_status: "to_openai hv e = Some r \<Longrightarrow> rs_status r \<in> {400, 503}"
  by (cases e) (auto simp: to_openai_def)

definition own_statuses :: "nat set" where
  "own_statuses = {400, 429, 503}"

definition from_backend ::
  "'e libs \<Rightarrow> app_config \<Rightarrow> lifecycle_request \<Rightarrow> bytes \<Rightarrow> bool \<Rightarrow> response \<Rightarrow> bool" where
  "from_backend L cfg kind b stream r =
     (\<exists>w w'. forward L \<lparr>fc_port = tunnel_port_for cfg kind\<rparr> (request_path kind) b stream False
               (model_alias_for cfg kind) w = (Ok r, w'))"

lemma from_backend_status: "from_backend L cfg kind b stream r \<Longrightarrow> rs_status r = 200"
  using forward_ok_status by (auto simp: from_backend_def)

definition answer_ok ::
  "'e libs \<Rightarrow> app_config \<Rightarrow> lifecycle_request \<Rightarrow> bytes \<Rightarrow> bool \<Rightarrow> response option \<Rightarrow> bool" where
  \<comment> \<open>an answer; none at all (a panic) only if the text of some number is no header value\<close>
  "answer_ok L cfg kind b stream a = (case a of None \<Rightarrow> \<exists>n. header_value L (show_nat n) = None
     | Some r \<Rightarrow> rs_status r \<in> own_statuses \<or> from_backend L cfg kind b stream r)"

lemma own_statuses_simps [simp]: "400 \<in> own_statuses" "429 \<in> own_statuses" "503 \<in> own_statuses"
  by (simp_all add: own_statuses_def)

lemma answer_ok_status [simp]: "rs_status r \<in> own_statuses \<Longrightarrow> answer_ok L cfg kind b stream (Some r)"
  by (simp add: answer_ok_def)

lemma answer_ok_error [simp]:
  "st \<in> own_statuses \<Longrightarrow> answer_ok L cfg kind b stream (openai_error hv st code msg None)"
  by simp

lemma answer_ok_retry [simp]:
  "st \<in> own_statuses \<Longrightarrow>
     answer_ok L cfg kind b stream (openai_error (header_value L) st code msg (Some (show_nat n)))"
  by (auto simp: openai_error_def answer_ok_def Let_def split: option.split)

lemma answer_ok_cold_full [simp]:
  "answer_ok L cfg kind b stream
     (openai_error (header_value L) 503 ''warming_up'' ''cold-start queue is full, retry later'' (Some ''10''))"
proof -
  have "show_nat 10 = ''10''" by code_simp
  then show ?thesis using answer_ok_retry [where n = 10 and L = L] by simp
qed

lemma answer_ok_to_openai [simp]: "answer_ok L cfg kind b stream (to_openai hv e)"
  using to_openai_not_None [of hv e]
  by (auto simp: answer_ok_def dest: to_openai_status split: option.split)

lemma answer_ok_responses [simp]:
  "answer_ok L cfg kind b stream (warming_response (header_value L) retry)"
  "answer_ok L cfg kind b stream (failed_response hv e)"
  "answer_ok L cfg kind b stream (warm_execution_error_response hv we)"
  "answer_ok L cfg kind b stream (fst (embedding_degradation_response hv st reason))"
  by (simp_all add: warming_response_def failed_response_def warm_execution_error_response_def
      embedding_degradation_response_def)

lemma run_forward_from:
  "run_forward L ctx \<lparr>fc_port = tunnel_port_for cfg kind\<rparr> (request_path kind) b stream
      (model_alias_for cfg kind) st = (Inr r, st') \<Longrightarrow> from_backend L cfg kind b stream r"
  by (auto simp: run_forward_def from_backend_def split: prod.splits)

lemma retry_unreachable_answer:
  assumes "retry_unreachable L ctx kind \<lparr>fc_port = tunnel_port_for cfg kind\<rparr> (request_path kind) b stream
      (model_alias_for cfg kind) st = (a, st')"
  shows "answer_ok L cfg kind b stream a"
  using assms
  by (auto simp: retry_unreachable_def Let_def answer_ok_def [of _ _ _ _ _ "Some _"] dest: run_forward_from
      split: prod.splits sum.splits lifecycle_decision.splits)

lemma forward_via_scheduler_answer:
  assumes "forward_via_scheduler L ctx kind b stream (request_path kind) st = (a, st')"
  shows "answer_ok L (as_config st) kind b stream a"
proof -
  let ?c = "\<lparr>fc_port = tunnel_port_for (as_config st) kind\<rparr>" and ?al = "model_alias_for (as_config st) kind"
  obtain x w where x: "call (rc_admit ctx) (as_world st) = (x, w)" by (cases "call (rc_admit ctx) (as_world st)")
  obtain f st1 where f: "run_forward L ctx ?c (request_path kind) b stream ?al (st\<lparr>as_world := w\<rparr>) = (f, st1)"
    by (cases "run_forward L ctx ?c (request_path kind) b stream ?al (st\<lparr>as_world := w\<rparr>)")
  have deg: "answer_ok L (as_config st) kind b stream a"
    if "embedding_degradation_response hv st2 reason = (a, st3)" for hv st2 reason a st3
    using answer_ok_responses(4) [where hv = hv and st = st2 and reason = reason] that by simp
  show ?thesis
    using assms x f run_forward_from [of L ctx "as_config st" kind b stream "st\<lparr>as_world := w\<rparr>"]
    by (auto simp: forward_via_scheduler_def Let_def answer_ok_def [of _ _ _ _ _ "Some _"]
        intro: retry_unreachable_answer deg
        split: option.splits warm_execution_error.splits sum.splits forward_error.splits)
qed

lemma execute_admitted_answer:
  assumes "execute_admitted L ctx kind b stream st = (a, st')"
  shows "answer_ok L (as_config st) kind b stream a"
proof -
  obtain d st1 where d: "ask_backend kind st = (d, st1)" by (cases "ask_backend kind st")
  have fw: "answer_ok L (as_config st) kind b stream a"
    if "forward_via_scheduler L ctx kind b stream (request_path kind) st2 = (a, st3)"
      "as_config st2 = as_config st" for st2 a st3
    using forward_via_scheduler_answer [OF that(1)] that(2) by simp
  have cfg: "as_config st2 = as_config st" if "check_tunnel_drop st1 kind t = (y, st2)" for t y st2
    using check_tunnel_drop_setup [OF that] ask_backend_setup [OF d] by (simp add: same_setup_def)
  show ?thesis
    using assms d
    by (auto simp: execute_admitted_def handle_ready_def Let_def update_metrics_def
        dest!: cfg intro: fw split: lifecycle_decision.splits prod.splits if_splits)
qed

lemma execute_answer:
  assumes "execute L ctx kind b stream st = (a, st')"
  shows "answer_ok L (as_config st) kind b stream a"
proof -
  obtain p st1 where p: "acquire_cold_permit L kind st = (p, st1)" by (cases "acquire_cold_permit L kind st")
  then have cfg: "as_config st1 = as_config st"
    by (auto simp: acquire_cold_permit_def split: if_splits option.splits)
  obtain r2 st2 where e: "execute_admitted L ctx kind b stream st1 = (r2, st2)"
    by (cases "execute_admitted L ctx kind b stream st1")
  have ok: "answer_ok L (as_config st) kind b stream r2"
    using execute_admitted_answer [OF e] cfg by simp
  show ?thesis
  proof (cases p)
    case (Inl resp)
    with p have "answer_ok L (as_config st) kind b stream resp"
      by (auto simp: acquire_cold_permit_def split: if_splits option.splits)
    with assms p Inl show ?thesis by (simp add: execute_def)
  next
    case (Inr held)
    with assms p e ok show ?thesis by (simp add: execute_def)
  qed
qed

section \<open>Properties\<close>

text \<open>
  An example of the pieces around the orchestrator: a manager whose status is its store and
  which becomes ready when asked, a backend that answers with a status, and requests that
  are admitted at once.
\<close>

definition example_ready :: backend_status where
  "example_ready = backend_status_default\<lparr>bs_lifecycle := LsReady, bs_tunnel := TsReady\<rparr>"

definition example_ops :: "(backend_status, nat) lifecycle_ops" where
  "example_ops = \<lparr>
     lo_status = (\<lambda>s. s),
     lo_ensure_backend = (\<lambda>r (s, w). (DReady example_ready, example_ready, w)),
     lo_degrade_embeddings = (\<lambda>reason s. s\<lparr>bs_embeddings := CsDegraded\<rparr>),
     lo_mark_warming = (\<lambda>s. s\<lparr>bs_lifecycle := LsWarming\<rparr>)\<rparr>"

definition example_libs :: "u16 \<Rightarrow> nat libs" where
  "example_libs st = \<lparr>
     post_json = (\<lambda>url b e. if e = 0
        then (Ok \<lparr>up_status = st, up_text = Some ''{}'', up_chunks = []\<rparr>, 7, 0)
        else (Err \<lparr>is_connect = False, is_timeout = True, err_status = None, err_text = ''timeout''\<rparr>, 300000, e - 1)),
     json_parse = (\<lambda>s. Err ''no''), json_print = (\<lambda>v. Err ''no''), header_value = Some\<rparr>"

definition example_context :: "(backend_status, nat) request_context" where
  "example_context = \<lparr>rc_admit = (\<lambda>e. (None, 0, e)), rc_meanwhile = (\<lambda>s. s)\<rparr>"

definition example_config :: app_config where
  "example_config = \<lparr>ac_listen_port = 8080,
     ac_model = \<lparr>mc_alias = ''m'', mc_provider_id = ''p'', mc_owned_by = ''o''\<rparr>,
     ac_embeddings = \<lparr>ec_enabled = True, ec_backend = None\<rparr>,
     ac_warm_execution = warm_execution_default,
     ac_host = \<lparr>hc_host = ''h'', hc_ssh_user = ''u'', hc_ssh_port = 22, hc_wol_mac = [1, 2, 3, 4, 5, 6],
       hc_wol_broadcast = ''255.255.255.255'', hc_wol_port = 9, hc_helper_path = ''/helper'',
       hc_model_path = ''/m.gguf'', hc_ssh_key_path = ''/key'', hc_tunnel_local_port = 9000,
       hc_remote_port = 8080\<rparr>,
     ac_cold_start_max_waiting = 4\<rparr>"

definition example_state :: "backend_status \<Rightarrow> nat \<Rightarrow> nat \<Rightarrow> (backend_status, nat) app_state" where
  "example_state s used e = \<lparr>as_config = example_config, as_chat_lifecycle = example_ops,
     as_embeddings_lifecycle = example_ops, as_managers = s, as_metrics = metrics_default,
     as_prev_chat_tunnel_was_ready = True, as_prev_embeddings_tunnel_was_ready = True,
     as_cold_used = used, as_world = \<lparr>clock = 0, env = e\<rparr>\<rparr>"

lemmas example_orchestration = example_state_def example_config_def example_context_def
  example_libs_def example_ops_def example_ready_def backend_status_default_def

text \<open>
  Where answers come from. Every request is answered (there is no answer only if the
  header library refuses a decimal number as a \<open>Retry-After\<close>); the status of the answer is 200
  exactly when it is what the forwarder made of a success answer of the backend, on the
  port, path and alias of the request's kind; and any other status is 400, 429 or 503.
\<close>

theorem answers_come_from_backend:
  "case execute L ctx kind b stream st of
     (None, _) \<Rightarrow> \<exists>n. header_value L (show_nat n) = None
   | (Some r, _) \<Rightarrow> rs_status r \<in> {200, 400, 429, 503} \<and>
       (rs_status r = 200) =
       (\<exists>w w'. forward L \<lparr>fc_port = tunnel_port_for (as_config st) kind\<rparr> (request_path kind) b stream False
          (model_alias_for (as_config st) kind) w = (Ok r, w'))"
proof -
  obtain a st' where a: "execute L ctx kind b stream st = (a, st')" by (cases "execute L ctx kind b stream st")
  from execute_answer [OF a] show ?thesis
  proof (cases a)
    case None
    with a execute_answer [OF a] show ?thesis by (simp add: answer_ok_def)
  next
    case (Some r)
    with execute_answer [OF a]
    have "rs_status r \<in> own_statuses \<or> from_backend L (as_config st) kind b stream r"
      by (simp add: answer_ok_def)
    moreover have "from_backend L (as_config st) kind b stream r \<Longrightarrow> rs_status r = 200"
      by (rule from_backend_status)
    ultimately show ?thesis
      using a Some by (auto simp: own_statuses_def from_backend_def)
  qed
qed

text \<open>
  C28: In production no tunnel drop is ever counted, and every cold-start permit comes back.
  Whatever requests are served one after the other, whatever the host and the other requests
  do, the metric \<open>tunnel_drops\<close> stays 0: the check runs only on statuses that are ready, which
  have a ready tunnel. At the end no cold-start permit is out.
\<close>

theorem tunnel_drops_never_counted:
  assumes "production os tm around config w = Some st"
  shows "tunnel_drops (as_metrics (serve L qs st)) = 0 \<and> as_cold_used (serve L qs st) = 0"
proof -
  have "quiet st (serve L qs st)"
    using serve_quiet production_orchestrators [OF assms] by blast
  moreover have "tunnel_drops (as_metrics st) = 0" "as_cold_used st = 0"
    using assms by (auto simp: production_def assemble_def Let_def metrics_default_def split: option.splits)
  ultimately show ?thesis by (simp add: quiet_def same_setup_def)
qed

definition silent_os :: "(unit, unit) host_os" where
  "silent_os = \<lparr>
     ho_udp = \<lparr>udp_bind = (\<lambda>a e. (Ok (), 0, e)), udp_set_broadcast = (\<lambda>b e. (Ok (), 0, e)),
       udp_send_to = (\<lambda>p a e. (Ok (), 0, e))\<rparr>,
     ho_connect = (\<lambda>a e. (Err ''refused'', 1, e)),
     ho_run = (\<lambda>c args e. (Err ''no such program'', 1, e)),
     ho_json = \<lparr>read_ensure = (\<lambda>s. Err ''eof''), read_status = (\<lambda>s. Err ''eof'')\<rparr>,
     ho_process = \<lparr>spawn_ssh = (\<lambda>args e. (Err ''no such program'', 1, e)), try_wait = (\<lambda>c e. (Ok None, 0, e)),
       drop_child = (\<lambda>c e. e)\<rparr>,
     ho_time = (\<lambda>w. of_nat (clock w div 1000))\<rparr>"

definition silent_libs :: "'e libs" where
  "silent_libs = \<lparr>
     post_json = (\<lambda>url b e.
       (Err \<lparr>is_connect = True, is_timeout = False, err_status = None, err_text = ''refused''\<rparr>, 1, e)),
     json_parse = (\<lambda>s. Err ''no''), json_print = (\<lambda>v. Err ''no''), header_value = Some\<rparr>"

definition silent_context :: "('m, 'e) request_context" where
  "silent_context = \<lparr>rc_admit = (\<lambda>e. (None, 0, e)), rc_meanwhile = (\<lambda>m. m)\<rparr>"

theorem tunnel_drops_never_counted_witness:
  "\<exists>st. production silent_os default_timing no_surroundings example_config
      \<lparr>clock = 0, env = \<lparr>pe_os = (), pe_chat_child = None, pe_embeddings_child = None\<rparr>\<rparr> = Some st
    \<and> tunnel_drops (as_metrics (serve silent_libs [(silent_context, Chat, [], False)] st)) = 0"
proof -
  let ?w = "\<lparr>clock = 0, env = \<lparr>pe_os = (), pe_chat_child = None, pe_embeddings_child = None\<rparr>\<rparr>"
  obtain st where st: "production silent_os default_timing no_surroundings example_config ?w = Some st"
    by (simp add: production_def assemble_def Let_def semaphore_new_def example_config_def
        warm_execution_default_def)
  from st tunnel_drops_never_counted [OF st, of silent_libs "[(silent_context, Chat, [], False)]"] show ?thesis by blast
qed

text \<open>
  The cold-start limit is for the state \<open>Cold\<close> alone. A request that finds the lifecycle
  cold and all permits out is refused with 503 and \<open>Retry-After: 10\<close>, and nothing else
  happens; a request that finds any other state (such as \<open>Warming\<close>, while the others still
  wait for the boot) is never refused by it and takes no permit.
\<close>

theorem cold_limit_only_when_cold:
  assumes "header_value L ''10'' = Some h"
    and "ac_cold_start_max_waiting (as_config st) \<le> as_cold_used st"
  shows "execute L ctx kind b stream st =
    (if is_cold st kind
     then (Some \<lparr>rs_status = 503, rs_content_type = ''application/json'', rs_retry_after = Some h,
             rs_body = JsonBody (error_json ''warming_up'' ''cold-start queue is full, retry later'')\<rparr>, st)
     else execute_admitted L ctx kind b stream st)"
proof (cases "is_cold st kind")
  case True
  with assms show ?thesis
    by (simp add: execute_def acquire_cold_permit_def cold_acquire_def openai_error_def Let_def)
next
  case False
  then show ?thesis by (simp add: execute_def acquire_cold_permit_def split: prod.split)
qed

theorem cold_limit_only_when_cold_witness:
  "rs_status (the (fst (execute (example_libs 200) example_context Chat [] False
      (example_state backend_status_default 4 0)))) = 503
   \<and> rs_status (the (fst (execute (example_libs 200) example_context Chat [] False
      (example_state (backend_status_default\<lparr>bs_lifecycle := LsWarming\<rparr>) 4 0)))) = 200"
proof -
  let ?cold = "example_state backend_status_default 4 0"
  let ?warm = "example_state (backend_status_default\<lparr>bs_lifecycle := LsWarming\<rparr>) 4 0"
  have hv: "header_value (example_libs 200) ''10'' = Some ''10''" by (simp add: example_libs_def)
  have full: "ac_cold_start_max_waiting (as_config ?cold) \<le> as_cold_used ?cold"
    "ac_cold_start_max_waiting (as_config ?warm) \<le> as_cold_used ?warm"
    by (simp_all add: example_state_def example_config_def)
  have "is_cold ?cold Chat" "\<not> is_cold ?warm Chat"
    by (simp_all add: is_cold_def lifecycle_for_def example_state_def example_ops_def backend_status_default_def)
  moreover have "rs_status (the (fst (execute_admitted (example_libs 200) example_context Chat [] False ?warm))) = 200"
    by (simp add: execute_admitted_def ask_backend_def lifecycle_for_def handle_ready_def check_tunnel_drop_def
        forward_via_scheduler_def run_forward_def forward_def forward_non_streaming_def send_or_cancel_def
        is_success_def call_def Let_def example_orchestration update_metrics_def)
  ultimately show ?thesis
    using cold_limit_only_when_cold [OF hv full(1)] cold_limit_only_when_cold [OF hv full(2)] by simp
qed

text \<open>
  A request that reached the backend and timed out is sent again. When the answer of an
  admitted request does not come within the client's timeout, the forwarder calls the backend
  unreachable: the lifecycle is marked warming, a wake attempt and a cold start are counted,
  and if the lifecycle then reports ready the same body is posted a second time, outside the
  scheduler's limit, and the caller gets the outcome of that second request.
\<close>

theorem timed_out_request_is_resent:
  assumes admitted: "call (rc_admit ctx) (as_world st) = (None, w1)"
    and timed_out: "call (post_json L (upstream_url config path) b) w1 = (Err err, w2)" "is_timeout err"
    and config: "config = \<lparr>fc_port = tunnel_port_for (as_config st) kind\<rparr>"
    and ready: "ask_backend kind (st\<lparr>as_world := w2,
          as_metrics := inc_wake_attempts (inc_cold_starts (as_metrics st)),
          as_managers := lo_mark_warming (lifecycle_for st kind) (rc_meanwhile ctx (as_managers st))\<rparr>)
        = (DReady s, st2)"
  shows "forward_via_scheduler L ctx kind b stream path st =
    (case run_forward L ctx config path b stream (model_alias_for (as_config st) kind) st2 of
       (Inr r, st3) \<Rightarrow> (Some r, st3)
     | (Inl e, st3) \<Rightarrow> (to_openai (header_value L) e, st3))
    \<and> as_metrics st2 = inc_wake_attempts (inc_cold_starts (as_metrics st))"
proof -
  have "send_or_cancel L False (upstream_url config path) b w1 = (Inl UpstreamUnreachable, w2)"
    using timed_out by (simp add: send_or_cancel_def from_reqwest_def)
  then have fw: "forward L config path b stream False al w1 = (Inl UpstreamUnreachable, w2)" for al
    by (simp add: forward_def forward_streaming_def forward_non_streaming_def)
  have run: "run_forward L ctx config path b stream al (st\<lparr>as_world := w1\<rparr>)
      = (Inl UpstreamUnreachable, st\<lparr>as_world := w2, as_managers := rc_meanwhile ctx (as_managers st)\<rparr>)" for al
    by (simp add: run_forward_def fw)
  have ops: "lifecycle_for (st\<lparr>as_world := w2, as_managers := m, as_metrics := mt\<rparr>) kind = lifecycle_for st kind" for m mt
    by (simp add: lifecycle_for_def split: lifecycle_request.split)
  have "as_metrics st2 = inc_wake_attempts (inc_cold_starts (as_metrics st))"
    using ask_backend_setup [OF ready] by simp
  with ready show ?thesis
    unfolding config [symmetric] forward_via_scheduler_def Let_def
    by (simp add: admitted run retry_unreachable_def update_metrics_def ops)
qed

theorem timed_out_request_is_resent_witness:
  "forward_via_scheduler (example_libs 200) example_context Chat [] False ''/v1/chat/completions''
      (example_state example_ready 0 1)
   = (Some \<lparr>rs_status = 200, rs_content_type = ''application/json'', rs_retry_after = None,
        rs_body = TextBody ''{}''\<rparr>,
      (example_state example_ready 0 0)\<lparr>as_world := \<lparr>clock = 300007, env = 0\<rparr>,
        as_metrics := metrics_default\<lparr>cold_starts := 1, wake_attempts := 1\<rparr>\<rparr>)"
proof -
  let ?st = "example_state example_ready 0 1"
  let ?c = "\<lparr>fc_port = tunnel_port_for (as_config ?st) Chat\<rparr>"
  let ?e = "\<lparr>is_connect = False, is_timeout = True, err_status = None, err_text = ''timeout''\<rparr>"
  let ?w2 = "\<lparr>clock = 300000, env = 0 :: nat\<rparr>"
  let ?mt = "inc_wake_attempts (inc_cold_starts (as_metrics ?st))"
  let ?st2 = "?st\<lparr>as_world := ?w2, as_metrics := ?mt, as_managers := example_ready\<rparr>"
  have 1: "call (rc_admit example_context) (as_world ?st) = (None, \<lparr>clock = 0, env = 1\<rparr>)"
    by (simp add: example_context_def example_state_def call_def)
  have 2: "call (post_json (example_libs 200) (upstream_url ?c ''/v1/chat/completions'') []) \<lparr>clock = 0, env = 1\<rparr>
      = (Err ?e, ?w2)"
    by (simp add: example_libs_def call_def)
  have 3: "is_timeout ?e" by simp
  have 4: "ask_backend Chat (?st\<lparr>as_world := ?w2, as_metrics := ?mt,
      as_managers := lo_mark_warming (lifecycle_for ?st Chat) (rc_meanwhile example_context (as_managers ?st))\<rparr>)
      = (DReady example_ready, ?st2)"
    by (simp add: ask_backend_def lifecycle_for_def example_state_def example_ops_def)
  have "run_forward (example_libs 200) example_context ?c ''/v1/chat/completions'' [] False
      (model_alias_for (as_config ?st) Chat) ?st2
    = (Inr \<lparr>rs_status = 200, rs_content_type = ''application/json'', rs_retry_after = None,
        rs_body = TextBody ''{}''\<rparr>, ?st2\<lparr>as_world := \<lparr>clock = 300007, env = 0\<rparr>\<rparr>)"
    by (simp add: run_forward_def forward_def forward_non_streaming_def send_or_cancel_def call_def Let_def
        example_libs_def example_context_def is_success_def example_state_def rewrite_model_alias_def
        quoted_model_def)
  moreover have "?st2\<lparr>as_world := \<lparr>clock = 300007, env = 0\<rparr>\<rparr>
      = (example_state example_ready 0 0)\<lparr>as_world := \<lparr>clock = 300007, env = 0\<rparr>,
        as_metrics := metrics_default\<lparr>cold_starts := 1, wake_attempts := 1\<rparr>\<rparr>"
    by (simp add: example_state_def inc_defs metrics_default_def)
  ultimately show ?thesis
    using timed_out_request_is_resent [OF 1 2 3 refl 4, of False] by simp
qed

end
