(* ===== verification/App.thy ===== *)
theory App
  imports Orchestrate
begin

text \<open>
  The HTTP surface (\<open>src/src/app.rs\<close>): the routes, the extractors, the five handlers, the
  checks of a request's body and the error texts. The deserialisers that \<open>serde\<close> derives for
  the request types (\<open>rd_chat\<close>, \<open>rd_embeddings\<close>; the members that the types allow are the
  definitions \<open>chat_fields_known\<close> and \<open>embeddings_fields_known\<close>) and axum's body extractor (which refuses a
  body above its limit with a response of its own) are parameters.
\<close>

section \<open>Routes and extractors\<close>

datatype endpoint = Healthz | StatusPage | ListModels | ChatCompletions | EmbeddingsPage
datatype routed = Handler endpoint | MethodNotAllowed | NotFound

text \<open>A \<open>get\<close> route answers \<open>HEAD\<close> too.\<close>

definition build_router :: "string \<Rightarrow> string \<Rightarrow> routed" where
  "build_router verb path =
     (let get = (\<lambda>ep. if verb = ''GET'' \<or> verb = ''HEAD'' then Handler ep else MethodNotAllowed);
          post = (\<lambda>ep. if verb = ''POST'' then Handler ep else MethodNotAllowed)
      in if path = ''/healthz'' then get Healthz
         else if path = ''/status'' then get StatusPage
         else if path = ''/v1/models'' then get ListModels
         else if path = ''/v1/chat/completions'' then post ChatCompletions
         else if path = ''/v1/embeddings'' then post EmbeddingsPage
         else NotFound)"

record http_request =
  rq_verb :: string
  rq_path :: string
  rq_headers :: "(string \<times> bytes) list"
  rq_body :: "(response, bytes) res"

text \<open>\<open>HeaderValue::to_str\<close>: tabs and the visible ASCII characters.\<close>

definition header_to_str :: "bytes \<Rightarrow> string option" where
  "header_to_str v = (if \<forall>c\<in>set v. of_char c = (9::nat) \<or> 32 \<le> (of_char c :: nat) \<and> (of_char c :: nat) < 127
     then Some v else None)"

definition require_json_content_type ::
  "(string \<Rightarrow> string option) \<Rightarrow> (string \<times> bytes) list \<Rightarrow> (response option, unit) res" where
  "require_json_content_type hv headers =
     (if (case Option.bind (map_of headers ''content-type'') header_to_str of
            Some ct \<Rightarrow> contains_str ct ''application/json'' | None \<Rightarrow> False)
      then Ok ()
      else Err (openai_error hv 400 ''invalid_request_error'' ''content-type must be application/json'' None))"

definition optional_authorization :: "(string \<times> bytes) list \<Rightarrow> (response option, unit) res" where
  "optional_authorization headers = (let _ = map_of headers ''authorization'' in Ok ())"

section \<open>Error texts\<close>

definition extract_quoted_value :: "string \<Rightarrow> string \<Rightarrow> string option" where
  "extract_quoted_value message prefix = (case find_str message prefix of None \<Rightarrow> None
     | Some i \<Rightarrow> (let suffix = drop (i + length prefix) message in
         case find_char suffix (CHR 0x60) of None \<Rightarrow> None | Some e \<Rightarrow> Some (take e suffix)))"

definition unknown_field_prefix :: string where
  "unknown_field_prefix = ''unknown field '' @ [CHR 0x60]"

definition quoted :: "string \<Rightarrow> string" where
  "quoted s = [CHR 0x27] @ s @ [CHR 0x27]"

definition backquoted :: "string \<Rightarrow> string" where
  "backquoted s = [CHR 0x60] @ s @ [CHR 0x60]"

definition normalize_json_error :: "string \<Rightarrow> string" where
  "normalize_json_error msg = (case extract_quoted_value msg unknown_field_prefix of
       Some field \<Rightarrow> ''unsupported field '' @ quoted field
     | None \<Rightarrow>
         if contains_str msg ''unknown variant'' then ''request body contains invalid fields''
         else if contains_str msg (''missing field '' @ backquoted ''tool_call_id'')
           then ''tool messages must include tool_call_id''
         else if contains_str msg (''missing field '' @ backquoted ''content'')
           then ''messages must include content unless assistant tool_calls are present''
         else if contains_str msg ''invalid type'' then ''request body contains an invalid field type''
         else if contains_str msg ''data did not match any variant of untagged enum''
           then ''request body contains invalid fields''
         else ''request body contains invalid fields'')"

section \<open>Request bodies\<close>

datatype tool_kind = ToolKindFunction

record tool_function =
  tf_name :: string
  tf_description :: "string option"
  tf_parameters :: "json option"

record chat_tool =
  ct_kind :: tool_kind
  ct_function :: tool_function

datatype tool_choice_mode = ModeNone | ModeAuto | ModeRequired

record tool_choice_function =
  tcf_name :: string

record named_tool_choice =
  ntc_kind :: tool_kind
  ntc_function :: tool_choice_function

datatype tool_choice = ToolMode tool_choice_mode | ToolNamed named_tool_choice

record tool_call_function =
  tlf_name :: string
  tlf_arguments :: string

record tool_call =
  tl_id :: string
  tl_kind :: tool_kind
  tl_function :: tool_call_function

record chat_message =
  cm_role :: string
  cm_content :: "json option"
  cm_tool_calls :: "tool_call list option"
  cm_tool_call_id :: "string option"

record chat_completion_request =
  cr_model :: string
  cr_stream :: bool
  cr_messages :: "chat_message list"
  cr_tools :: "chat_tool list option"
  cr_tool_choice :: "tool_choice option"

record embeddings_request =
  em_model :: string
  em_input :: json

record readers =
  rd_chat :: "bytes \<Rightarrow> (string, chat_completion_request) res"
  rd_embeddings :: "bytes \<Rightarrow> (string, embeddings_request) res"

text \<open>
  The names of the members that the request types have (the fields, renamed by the attribute
  \<open>rename\<close>); \<open>deny_unknown_fields\<close> forbids any other, in every object of the body. An object is the
  tree that the JSON reader makes of it.
\<close>

definition only_fields :: "string list \<Rightarrow> json \<Rightarrow> bool" where
  "only_fields known v = (case v of JObject ms \<Rightarrow> set (map fst ms) \<subseteq> set known | _ \<Rightarrow> True)"

definition field_value :: "string \<Rightarrow> json \<Rightarrow> json list" where
  "field_value k v = (case v of JObject ms \<Rightarrow> (case map_of ms k of Some x \<Rightarrow> [x] | None \<Rightarrow> []) | _ \<Rightarrow> [])"

definition field_items :: "string \<Rightarrow> json \<Rightarrow> json list" where
  "field_items k v = (case field_value k v of [JArray xs] \<Rightarrow> xs | _ \<Rightarrow> [])"

definition tool_call_fields_known :: "json \<Rightarrow> bool" where
  "tool_call_fields_known v = (only_fields [''id'', ''type'', ''function''] v
     \<and> list_all (only_fields [''name'', ''arguments'']) (field_value ''function'' v))"

definition chat_message_fields_known :: "json \<Rightarrow> bool" where
  "chat_message_fields_known v = (only_fields [''role'', ''content'', ''tool_calls'', ''tool_call_id''] v
     \<and> list_all tool_call_fields_known (field_items ''tool_calls'' v))"

definition chat_tool_fields_known :: "json \<Rightarrow> bool" where
  "chat_tool_fields_known v = (only_fields [''type'', ''function''] v
     \<and> list_all (only_fields [''name'', ''description'', ''parameters'']) (field_value ''function'' v))"

definition tool_choice_fields_known :: "json \<Rightarrow> bool" where
  "tool_choice_fields_known v = (only_fields [''type'', ''function''] v
     \<and> list_all (only_fields [''name'']) (field_value ''function'' v))"

definition chat_fields_known :: "json \<Rightarrow> bool" where
  "chat_fields_known v = (only_fields [''model'', ''stream'', ''messages'', ''tools'', ''tool_choice''] v
     \<and> list_all chat_message_fields_known (field_items ''messages'' v)
     \<and> list_all chat_tool_fields_known (field_items ''tools'' v)
     \<and> list_all tool_choice_fields_known (field_value ''tool_choice'' v))"

definition embeddings_fields_known :: "json \<Rightarrow> bool" where
  "embeddings_fields_known v = only_fields [''model'', ''input''] v"

text \<open>What \<open>deny_unknown_fields\<close> promises of the derived deserialisers.\<close>

definition denies_unknown_fields :: "(string \<Rightarrow> (string, json) res) \<Rightarrow> readers \<Rightarrow> bool" where
  "denies_unknown_fields parse rd = (\<forall>b v. parse b = Ok v \<longrightarrow>
     (\<not> chat_fields_known v \<longrightarrow> isl (rd_chat rd b))
     \<and> (\<not> embeddings_fields_known v \<longrightarrow> isl (rd_embeddings rd b)))"

definition known_roles :: "string list" where
  "known_roles = [''system'', ''user'', ''assistant'', ''tool'', ''developer'']"

definition invalid_role :: "chat_completion_request \<Rightarrow> string option" where
  "invalid_role r = map_option cm_role (List.find (\<lambda>m. cm_role m \<notin> set known_roles) (cr_messages r))"

definition none_or_null :: "json option \<Rightarrow> bool" where
  "none_or_null v = (case v of None \<Rightarrow> True | Some x \<Rightarrow> json_is_null x)"

definition message_content_error :: "chat_message \<Rightarrow> string option" where
  "message_content_error m =
     (if cm_role m = ''assistant'' then
        if cm_tool_call_id m \<noteq> None then Some ''only tool messages may include tool_call_id''
        else if cm_tool_calls m = Some [] then Some ''assistant messages tool_calls must not be empty''
        else if none_or_null (cm_content m) \<and> cm_tool_calls m = None
          then Some ''message content must not be null''
        else None
      else if cm_role m = ''tool'' then
        if cm_tool_calls m \<noteq> None then Some ''only assistant messages may include tool_calls''
        else if cm_tool_call_id m = None then Some ''tool messages must include tool_call_id''
        else if none_or_null (cm_content m) then Some ''message content must not be null''
        else None
      else
        if cm_tool_calls m \<noteq> None then Some ''only assistant messages may include tool_calls''
        else if cm_tool_call_id m \<noteq> None then Some ''only tool messages may include tool_call_id''
        else if none_or_null (cm_content m) then Some ''message content must not be null''
        else None)"

fun find_map :: "('a \<Rightarrow> 'b option) \<Rightarrow> 'a list \<Rightarrow> 'b option" where
  "find_map f [] = None"
| "find_map f (x # xs) = (case f x of Some y \<Rightarrow> Some y | None \<Rightarrow> find_map f xs)"

definition content_error :: "chat_completion_request \<Rightarrow> string option" where
  "content_error r = find_map message_content_error (cr_messages r)"

section \<open>Answers in JSON\<close>

text \<open>The serialised forms of the statuses (\<open>rename_all = "snake_case"\<close>).\<close>

definition lifecycle_json :: "lifecycle_state \<Rightarrow> json" where
  "lifecycle_json l = JString (case l of LsCold \<Rightarrow> ''cold'' | LsWarming \<Rightarrow> ''warming''
     | LsReady \<Rightarrow> ''ready'' | LsError \<Rightarrow> ''error'')"

definition capability_json :: "capability_state \<Rightarrow> json" where
  "capability_json c = JString (case c of CsReady \<Rightarrow> ''ready'' | CsDegraded \<Rightarrow> ''degraded'')"

definition tunnel_json :: "tunnel_state \<Rightarrow> json" where
  "tunnel_json t = JString (case t of TsDown \<Rightarrow> ''down'' | TsConnecting \<Rightarrow> ''connecting'' | TsReady \<Rightarrow> ''ready'')"

definition unit_json :: "unit_state \<Rightarrow> json" where
  "unit_json u = JString (case u of UsUnknown \<Rightarrow> ''unknown'' | UsInactive \<Rightarrow> ''inactive''
     | UsActivating \<Rightarrow> ''activating'' | UsActive \<Rightarrow> ''active'' | UsFailed \<Rightarrow> ''failed'')"

definition opt_json :: "('a \<Rightarrow> json) \<Rightarrow> 'a option \<Rightarrow> json" where
  "opt_json f v = (case v of None \<Rightarrow> JNull | Some x \<Rightarrow> f x)"

definition u64_json :: "u64 \<Rightarrow> json" where
  "u64_json n = JNumber (PosInt n)"

definition metrics_json :: "metrics \<Rightarrow> json" where
  "metrics_json m = JObject
     [(''cold_starts'', u64_json (cold_starts m)), (''warm_requests'', u64_json (warm_requests m)),
      (''queue_full_rejections'', u64_json (queue_full_rejections m)),
      (''queue_timeouts'', u64_json (queue_timeouts m)), (''wake_attempts'', u64_json (wake_attempts m)),
      (''wake_failures'', u64_json (wake_failures m)), (''tunnel_drops'', u64_json (tunnel_drops m)),
      (''embeddings_degraded'', u64_json (embeddings_degraded m)),
      (''forwarding_errors'', u64_json (forwarding_errors m)), (''chat_requests'', u64_json (chat_requests m)),
      (''embeddings_requests'', u64_json (embeddings_requests m))]"

definition backend_status_json :: "backend_status \<Rightarrow> string \<Rightarrow> capability_state \<Rightarrow> string option \<Rightarrow> json" where
  "backend_status_json st model_alias capability capability_reason = JObject
     [(''model_alias'', JString model_alias), (''state'', lifecycle_json (bs_lifecycle st)),
      (''capability'', capability_json capability),
      (''capability_reason'', opt_json JString capability_reason),
      (''tunnel'', tunnel_json (bs_tunnel st)),
      (''last_wake_attempt_at'', opt_json u64_json (bs_last_wake_attempt_at st)),
      (''lease_expires_at'', opt_json u64_json (bs_lease_expires_at st)),
      (''host_unit'', JObject [(''llama_server_unit'', unit_json (bs_llama_server_unit st)),
                              (''inhibit_unit'', unit_json (bs_inhibit_unit st))])]"

definition json_response :: "json \<Rightarrow> response" where
  "json_response v = \<lparr>rs_status = 200, rs_content_type = ''application/json'', rs_retry_after = None,
     rs_body = JsonBody v\<rparr>"

section \<open>Handlers\<close>

definition healthz :: response where
  "healthz = json_response (JObject [(''status'', JString ''ok'')])"

definition status_page :: "('m, 'e) app_state \<Rightarrow> response" where
  "status_page st =
     (let metrics = snapshot (as_metrics st);
          chat_status = lo_status (as_chat_lifecycle st) (as_managers st);
          chat = backend_status_json chat_status (mc_alias (ac_model (as_config st))) (bs_chat chat_status) None;
          embeddings = (if ec_enabled (ac_embeddings (as_config st))
            then (let es = lo_status (as_embeddings_lifecycle st) (as_managers st)
                  in backend_status_json es (model_alias_for (as_config st) Embeddings)
                       (bs_embeddings es) (bs_embeddings_reason es))
            else JNull)
      in json_response (JObject [(''chat'', chat), (''embeddings'', embeddings),
           (''metrics'', metrics_json metrics)]))"

definition model_json :: "string \<Rightarrow> string \<Rightarrow> string \<Rightarrow> json" where
  "model_json model_alias owned_by provider_id = JObject
     [(''id'', JString model_alias), (''object'', JString ''model''), (''created'', u64_json 0),
      (''owned_by'', JString owned_by), (''provider'', JString provider_id)]"

definition list_models :: "app_config \<Rightarrow> response" where
  "list_models c =
     (let m = ac_model c;
          data = [model_json (mc_alias m) (mc_owned_by m) (mc_provider_id m)] @
            (case ec_backend (ac_embeddings c) of
               Some backend \<Rightarrow> [model_json (eb_alias backend) (eb_owned_by backend) (eb_provider_id backend)]
             | None \<Rightarrow> [])
      in json_response (JObject [(''object'', JString ''list''), (''data'', JArray data)]))"

definition bad_request :: "'e libs \<Rightarrow> string \<Rightarrow> string \<Rightarrow> response option" where
  "bad_request L code message = openai_error (header_value L) 400 code message None"

definition unsupported_model :: "string \<Rightarrow> string \<Rightarrow> string" where
  "unsupported_model model expected =
     ''unsupported model '' @ quoted model @ '': expected '' @ quoted expected"

definition chat_completions ::
  "'e libs \<Rightarrow> readers \<Rightarrow> ('m, 'e) request_context \<Rightarrow> bytes \<Rightarrow> ('m, 'e) app_state
   \<Rightarrow> response option \<times> ('m, 'e) app_state" where
  "chat_completions L rd ctx raw_body st =
     (let st = update_metrics inc_chat_requests st; expected = mc_alias (ac_model (as_config st)) in
      case rd_chat rd raw_body of
        Inl e \<Rightarrow> (bad_request L ''invalid_request_error'' (normalize_json_error e), st)
      | Inr payload \<Rightarrow>
          if cr_messages payload = [] then
            (bad_request L ''invalid_request_error'' ''messages must not be empty'', st)
          else case invalid_role payload of
            Some role \<Rightarrow> (bad_request L ''unsupported_role'' (''unsupported message role '' @ quoted role), st)
          | None \<Rightarrow>
              (case content_error payload of
                 Some message \<Rightarrow> (bad_request L ''invalid_request_error'' message, st)
               | None \<Rightarrow>
                   if cr_model payload \<noteq> expected then
                     (bad_request L ''model_not_found'' (unsupported_model (cr_model payload) expected), st)
                   else execute L ctx Chat raw_body (cr_stream payload) st))"

definition embeddings ::
  "'e libs \<Rightarrow> readers \<Rightarrow> ('m, 'e) request_context \<Rightarrow> bytes \<Rightarrow> ('m, 'e) app_state
   \<Rightarrow> response option \<times> ('m, 'e) app_state" where
  "embeddings L rd ctx raw_body st =
     (let st = update_metrics inc_embeddings_requests st;
          embeddings_alias = model_alias_for (as_config st) Embeddings in
      case rd_embeddings rd raw_body of
        Inl e \<Rightarrow> (bad_request L ''invalid_request_error'' (normalize_json_error e), st)
      | Inr payload \<Rightarrow>
          if json_is_null (em_input payload) then
            (bad_request L ''invalid_request_error'' ''input must not be null'', st)
          else if em_model payload \<noteq> embeddings_alias then
            (bad_request L ''model_not_found'' (unsupported_model (em_model payload) embeddings_alias), st)
          else if \<not> ec_enabled (ac_embeddings (as_config st)) then
            (bad_request L ''unsupported_embeddings'' ''embeddings are disabled by configuration'', st)
          else execute L ctx Embeddings raw_body False st)"

text \<open>
  One request through the router: the extractors run in the order of the handler's
  arguments, the body last; axum answers unknown paths and methods (\<open>fallback\<close>).
\<close>

definition with_json_body ::
  "'e libs \<Rightarrow> http_request \<Rightarrow> (bytes \<Rightarrow> response option \<times> ('m, 'e) app_state) \<Rightarrow> ('m, 'e) app_state
   \<Rightarrow> response option \<times> ('m, 'e) app_state" where
  "with_json_body L rq handler st =
     (case require_json_content_type (header_value L) (rq_headers rq) of
        Inl rejection \<Rightarrow> (rejection, st)
      | Inr _ \<Rightarrow> (case optional_authorization (rq_headers rq) of
          Inl rejection \<Rightarrow> (rejection, st)
        | Inr _ \<Rightarrow> (case rq_body rq of
            Inl rejection \<Rightarrow> (Some rejection, st)
          | Inr raw_body \<Rightarrow> handler raw_body)))"

definition serve_http ::
  "'e libs \<Rightarrow> readers \<Rightarrow> (routed \<Rightarrow> response) \<Rightarrow> ('m, 'e) request_context \<Rightarrow> http_request
   \<Rightarrow> ('m, 'e) app_state \<Rightarrow> response option \<times> ('m, 'e) app_state" where
  "serve_http L rd fallback ctx rq st =
     (case build_router (rq_verb rq) (rq_path rq) of
        Handler Healthz \<Rightarrow> (Some healthz, st)
      | Handler StatusPage \<Rightarrow> (Some (status_page st), st)
      | Handler ListModels \<Rightarrow> (Some (list_models (as_config st)), st)
      | Handler ChatCompletions \<Rightarrow>
          with_json_body L rq (\<lambda>raw_body. chat_completions L rd ctx raw_body st) st
      | Handler EmbeddingsPage \<Rightarrow>
          with_json_body L rq (\<lambda>raw_body. embeddings L rd ctx raw_body st) st
      | r \<Rightarrow> (Some (fallback r), st))"

section \<open>What an acceptable request is\<close>

definition has_content :: "chat_message \<Rightarrow> bool" where
  "has_content m = (\<exists>v. cm_content m = Some v \<and> v \<noteq> JNull)"

text \<open>
  Only assistant messages call tools, and then at least one; only tool messages answer a
  call, and always one; and every message has content, unless an assistant calls tools.
\<close>

definition well_formed_message :: "chat_message \<Rightarrow> bool" where
  "well_formed_message m = (cm_role m \<in> set known_roles
     \<and> (cm_tool_calls m = None \<or> cm_role m = ''assistant'' \<and> cm_tool_calls m \<noteq> Some [])
     \<and> (cm_tool_call_id m \<noteq> None \<longleftrightarrow> cm_role m = ''tool'')
     \<and> (has_content m \<or> cm_tool_calls m \<noteq> None))"

definition acceptable_chat :: "app_config \<Rightarrow> chat_completion_request \<Rightarrow> bool" where
  "acceptable_chat c r = (cr_messages r \<noteq> [] \<and> (\<forall>m\<in>set (cr_messages r). well_formed_message m)
     \<and> cr_model r = model_alias_for c Chat)"

definition acceptable_embeddings :: "app_config \<Rightarrow> embeddings_request \<Rightarrow> bool" where
  "acceptable_embeddings c r = (em_input r \<noteq> JNull \<and> em_model r = model_alias_for c Embeddings
     \<and> ec_enabled (ac_embeddings c))"

lemma none_or_null_iff: "none_or_null (cm_content m) \<longleftrightarrow> \<not> has_content m"
  by (auto simp: none_or_null_def has_content_def json_is_null_def split: option.split)

lemma message_content_error_None:
  "cm_role m \<in> set known_roles \<Longrightarrow> message_content_error m = None \<longleftrightarrow> well_formed_message m"
  by (auto simp: message_content_error_def well_formed_message_def none_or_null_iff)

lemma find_map_None: "find_map f xs = None \<longleftrightarrow> (\<forall>x\<in>set xs. f x = None)"
  by (induction xs) (auto split: option.split)

lemma find_map_Some: "find_map f xs = Some y \<Longrightarrow> \<exists>x\<in>set xs. f x = Some y"
  by (induction xs) (auto split: option.splits)

lemma invalid_role_None: "invalid_role r = None \<longleftrightarrow> (\<forall>m\<in>set (cr_messages r). cm_role m \<in> set known_roles)"
  by (auto simp: invalid_role_def find_None_iff)

lemma invalid_role_Some:
  assumes "invalid_role r = Some role"
  shows "\<exists>m\<in>set (cr_messages r). cm_role m = role \<and> role \<notin> set known_roles"
  using assms by (auto simp: invalid_role_def find_Some_iff)

lemma acceptable_checks:
  "acceptable_chat c r \<longleftrightarrow> cr_messages r \<noteq> [] \<and> invalid_role r = None \<and> content_error r = None
     \<and> cr_model r = mc_alias (ac_model c)"
  unfolding acceptable_chat_def invalid_role_None content_error_def find_map_None
  using message_content_error_None
  by (auto simp: model_alias_for_def well_formed_message_def)

lemma bad_request_Some:
  "bad_request L code message = Some \<lparr>rs_status = 400, rs_content_type = ''application/json'',
     rs_retry_after = None, rs_body = JsonBody (error_json code message)\<rparr>"
  by (simp add: bad_request_def)

section \<open>Properties\<close>

definition refused_400 :: "response option \<Rightarrow> bool" where
  "refused_400 a = (\<exists>code message. a = Some \<lparr>rs_status = 400, rs_content_type = ''application/json'',
     rs_retry_after = None, rs_body = JsonBody (error_json code message)\<rparr>)"

lemma refused_bad_request [simp]: "refused_400 (bad_request L code message)"
  by (auto simp: refused_400_def bad_request_Some)

lemma chat_completions_spec:
  "case chat_completions L rd ctx body st of (a, st') \<Rightarrow>
     let st1 = update_metrics inc_chat_requests st in
     case rd_chat rd body of
       Inl e \<Rightarrow> refused_400 a \<and> st' = st1
     | Inr payload \<Rightarrow>
         if acceptable_chat (as_config st) payload
         then (a, st') = execute L ctx Chat body (cr_stream payload) st1
         else refused_400 a \<and> st' = st1"
proof -
  have cfg: "as_config (update_metrics f st) = as_config st" for f by (simp add: update_metrics_def)
  show ?thesis
    unfolding acceptable_checks
    by (auto simp: chat_completions_def Let_def cfg split: prod.split sum.split option.split)
qed

text \<open>A body with a member that no request type has is refused, wherever in the body it is.\<close>

lemma unknown_fields_refused:
  assumes "denies_unknown_fields parse rd" "parse body = Ok v"
  shows "\<not> chat_fields_known v \<Longrightarrow> \<exists>message. chat_completions L rd ctx body st
      = (bad_request L ''invalid_request_error'' message, update_metrics inc_chat_requests st)"
    and "\<not> embeddings_fields_known v \<Longrightarrow> \<exists>message. embeddings L rd ctx body st
      = (bad_request L ''invalid_request_error'' message, update_metrics inc_embeddings_requests st)"
  using assms unfolding denies_unknown_fields_def
  by (fastforce simp: chat_completions_def embeddings_def Let_def  split: sum.splits)+

text \<open>
  C19: Exactly the acceptable chat requests go on. A chat request whose body parses is handed
  to the orchestrator, body unchanged, iff it has messages, every message is well formed (its
  role is known, only assistants call tools, only and all tool messages name a call, content
  is there unless tools are called) and the model is the configured alias; every other one is
  refused with 400 in the error format of the API, and only the request counter has moved.
\<close>

theorem chat_forwarded_iff_acceptable:
  "case chat_completions L rd ctx body st of (a, st') \<Rightarrow>
     let st1 = update_metrics inc_chat_requests st in
     case rd_chat rd body of
       Inl e \<Rightarrow> refused_400 a \<and> st' = st1
     | Inr payload \<Rightarrow>
         if acceptable_chat (as_config st) payload
         then (a, st') = execute L ctx Chat body (cr_stream payload) st1
         else refused_400 a \<and> st' = st1"
  by (rule chat_completions_spec)

lemma embeddings_spec:
  "case embeddings L rd ctx body st of (a, st') \<Rightarrow>
     let st1 = update_metrics inc_embeddings_requests st in
     case rd_embeddings rd body of
       Inl e \<Rightarrow> refused_400 a \<and> st' = st1
     | Inr payload \<Rightarrow>
         if acceptable_embeddings (as_config st) payload
         then (a, st') = execute L ctx Embeddings body False st1
         else refused_400 a \<and> st' = st1"
proof -
  have cfg: "as_config (update_metrics f st) = as_config st" for f by (simp add: update_metrics_def)
  show ?thesis
    unfolding acceptable_embeddings_def
    by (auto simp: embeddings_def Let_def cfg json_is_null_def split: prod.split sum.split)
qed

text \<open>
  Exactly the acceptable embeddings requests go on: with an input that is not null, the
  alias of the embeddings model and embeddings enabled; all others are refused with 400 and
  only the request counter moves. An embeddings request is never streamed.
\<close>

theorem embeddings_forwarded_iff_acceptable:
  "case embeddings L rd ctx body st of (a, st') \<Rightarrow>
     let st1 = update_metrics inc_embeddings_requests st in
     case rd_embeddings rd body of
       Inl e \<Rightarrow> refused_400 a \<and> st' = st1
     | Inr payload \<Rightarrow>
         if acceptable_embeddings (as_config st) payload
         then (a, st') = execute L ctx Embeddings body False st1
         else refused_400 a \<and> st' = st1"
  by (rule embeddings_spec)

definition listed_ids :: "response \<Rightarrow> string set" where
  "listed_ids r = {i. \<exists>v xs x. rs_body r = JsonBody v \<and> json_as_array (json_get v ''data'') = Some xs
     \<and> x \<in> set xs \<and> json_as_str (json_get x ''id'') = Some i}"

text \<open>
  The model list tells the truth: the identifiers that \<open>/v1/models\<close> advertises are exactly
  the aliases that the chat and the embeddings handler accept.
\<close>

theorem listed_models_are_served:
  "listed_ids (list_models c) = {model_alias_for c Chat, model_alias_for c Embeddings}"
  by (auto simp: listed_ids_def list_models_def json_response_def Let_def model_json_def json_get_def
      json_as_array_def json_as_str_def model_alias_for_def unwrap_or_def split: option.splits)

text \<open>
  The error text of an unknown field. Whatever follows in the parser's message, a field
  the request type does not know is reported by its own name.
\<close>

theorem unknown_field_is_named:
  assumes "CHR 0x60 \<notin> set field"
  shows "normalize_json_error (unknown_field_prefix @ field @ CHR 0x60 # rest)
       = ''unsupported field '' @ quoted field"
proof -
  have "find_str (unknown_field_prefix @ t) unknown_field_prefix = Some 0" for t
    by (simp add: unknown_field_prefix_def)
  then have "extract_quoted_value (unknown_field_prefix @ field @ CHR 0x60 # rest) unknown_field_prefix
      = Some field"
    using assms by (simp add: extract_quoted_value_def find_char_append)
  then show ?thesis by (simp add: normalize_json_error_def)
qed

theorem unknown_field_is_named_witness:
  "normalize_json_error (unknown_field_prefix @ ''temperature'' @ CHR 0x60 # '', expected one of'')
     = ''unsupported field '' @ quoted ''temperature''"
  by (rule unknown_field_is_named) simp

lemma serve_http_spec:
  "case serve_http L rd fallback ctx rq st of (a, st') \<Rightarrow>
     if rq_verb rq = ''POST'' \<and> rq_path rq \<in> {''/v1/chat/completions'', ''/v1/embeddings''}
        \<and> require_json_content_type (header_value L) (rq_headers rq) = Ok ()
        \<and> is_ok (rq_body rq)
     then (\<exists>body. rq_body rq = Ok body \<and> (a, st') =
        (if rq_path rq = ''/v1/embeddings'' then embeddings L rd ctx body st
         else chat_completions L rd ctx body st))
     else st' = st"
  by (auto simp: serve_http_def build_router_def with_json_body_def optional_authorization_def Let_def
      split: prod.split sum.split endpoint.split)

text \<open>
  A request changes nothing unless it is acceptable: a request to any other path or
  method, one without a JSON content type and one whose body is refused leave the whole state
  as it was, whatever their headers say.
\<close>

theorem rejected_requests_change_nothing:
  "case serve_http L rd fallback ctx rq st of (a, st') \<Rightarrow>
     if rq_verb rq = ''POST'' \<and> rq_path rq \<in> {''/v1/chat/completions'', ''/v1/embeddings''}
        \<and> require_json_content_type (header_value L) (rq_headers rq) = Ok ()
        \<and> is_ok (rq_body rq)
     then (\<exists>body. rq_body rq = Ok body \<and> (a, st') =
        (if rq_path rq = ''/v1/embeddings'' then embeddings L rd ctx body st
         else chat_completions L rd ctx body st))
     else st' = st"
  by (rule serve_http_spec)

end
