(* ===== verification/Proxy_Main.thy ===== *)
theory Proxy_Main
  imports App
begin

text \<open>
  The proxy's program (\<open>src/src/main.rs\<close>): the configuration is read, the state is built, the
  listening socket is bound, and the router serves what comes. Binding the socket and taking
  requests off it are tokio's and axum's: the first is a call, the second a list of requests.
  (\<open>axum::serve\<close> does not return; the model is the state after any finite number of requests.)
\<close>

section \<open>Start-up\<close>

datatype ('m, 'e) started =
    StartPanicked
  | StartFailed string
  | Serving "nat list \<times> u16" "('m, 'e) app_state"

definition proxy_main ::
  "('c, 'e) host_os \<Rightarrow> lifecycle_timing \<Rightarrow> ('c, 'e) proxy_env surroundings
   \<Rightarrow> (nat list \<times> u16 \<Rightarrow> (('c, 'e) proxy_env, (string, unit) res) ext_call) \<Rightarrow> environment
   \<Rightarrow> ('c, 'e) proxy_env world \<Rightarrow> (managers, ('c, 'e) proxy_env) started" where
  "proxy_main os tm around bind e w =
     (case from_env e of
        Inl _ \<Rightarrow> StartPanicked
      | Inr config \<Rightarrow>
          (case production os tm around config w of
             None \<Rightarrow> StartPanicked
           | Some app \<Rightarrow>
               (let addr = ([0, 0, 0, 0], ac_listen_port config) in
                case call (bind addr) (as_world app) of
                  (Inl err, _) \<Rightarrow> StartFailed err
                | (Inr _, w) \<Rightarrow> Serving addr (app\<lparr>as_world := w\<rparr>))))"

text \<open>The router at work on a series of requests.\<close>

definition serve_requests ::
  "'e libs \<Rightarrow> readers \<Rightarrow> (routed \<Rightarrow> response) \<Rightarrow> (('m, 'e) request_context \<times> http_request) list
   \<Rightarrow> ('m, 'e) app_state \<Rightarrow> ('m, 'e) app_state" where
  "serve_requests L rd fallback = fold (\<lambda>(ctx, rq) st. snd (serve_http L rd fallback ctx rq st))"

section \<open>Which requests reach the host\<close>

text \<open>A request that passes every check of the router, the extractors and the handler.\<close>

definition acceptable_request :: "'e libs \<Rightarrow> readers \<Rightarrow> app_config \<Rightarrow> http_request \<Rightarrow> bool" where
  "acceptable_request L rd cfg rq = (rq_verb rq = ''POST''
     \<and> require_json_content_type (header_value L) (rq_headers rq) = Ok ()
     \<and> (\<exists>body. rq_body rq = Ok body
        \<and> (rq_path rq = ''/v1/chat/completions'' \<and> (\<exists>r. rd_chat rd body = Ok r \<and> acceptable_chat cfg r)
           \<or> rq_path rq = ''/v1/embeddings'' \<and> (\<exists>r. rd_embeddings rd body = Ok r \<and> acceptable_embeddings cfg r))))"

text \<open>What a request that is not acceptable leaves as it was.\<close>

definition host_untouched :: "('m, 'e) app_state \<Rightarrow> ('m, 'e) app_state \<Rightarrow> bool" where
  "host_untouched st st' = (as_managers st' = as_managers st \<and> as_world st' = as_world st
     \<and> as_config st' = as_config st \<and> as_cold_used st' = as_cold_used st)"

lemma host_untouched_refl [simp]: "host_untouched st st" "host_untouched st (update_metrics f st)"
  by (simp_all add: host_untouched_def update_metrics_def)

lemma chat_untouched:
  assumes "chat_completions L rd ctx body st = (a, st')"
    and "\<And>r. rd_chat rd body = Ok r \<Longrightarrow> \<not> acceptable_chat (as_config st) r"
  shows "host_untouched st st'"
  using chat_completions_spec [where L = L and rd = rd and ctx = ctx and body = body and st = st] assms
  by (cases "rd_chat rd body") (auto simp: Let_def split: if_splits)

lemma embeddings_untouched:
  assumes "embeddings L rd ctx body st = (a, st')"
    and "\<And>r. rd_embeddings rd body = Ok r \<Longrightarrow> \<not> acceptable_embeddings (as_config st) r"
  shows "host_untouched st st'"
  using embeddings_spec [where L = L and rd = rd and ctx = ctx and body = body and st = st] assms
  by (cases "rd_embeddings rd body") (auto simp: Let_def split: if_splits)

lemma serve_http_untouched:
  assumes "serve_http L rd fallback ctx rq st = (a, st')" "\<not> acceptable_request L rd (as_config st) rq"
  shows "host_untouched st st'"
proof (cases "rq_verb rq = ''POST'' \<and> rq_path rq \<in> {''/v1/chat/completions'', ''/v1/embeddings''}
    \<and> require_json_content_type (header_value L) (rq_headers rq) = Ok () \<and> is_ok (rq_body rq)")
  case True
  with serve_http_spec [where L = L and rd = rd and fallback = fallback and ctx = ctx and rq = rq and st = st] assms(1) obtain body where body: "rq_body rq = Ok body"
    "(a, st') = (if rq_path rq = ''/v1/embeddings'' then embeddings L rd ctx body st
       else chat_completions L rd ctx body st)"
    by auto
  show ?thesis
  proof (cases "rq_path rq = ''/v1/embeddings''")
    case path: True
    with body(2) have "embeddings L rd ctx body st = (a, st')" by simp
    then show ?thesis
      by (rule embeddings_untouched) (use assms(2) True body(1) path in \<open>auto simp: acceptable_request_def\<close>)
  next
    case path: False
    with body(2) have "chat_completions L rd ctx body st = (a, st')" by simp
    then show ?thesis
      by (rule chat_untouched) (use assms(2) True body(1) path in \<open>auto simp: acceptable_request_def\<close>)
  qed
next
  case False
  with serve_http_spec [where L = L and rd = rd and fallback = fallback and ctx = ctx and rq = rq and st = st] assms(1) have "st' = st" by auto
  then show ?thesis by simp
qed

lemma serve_requests_untouched:
  assumes "\<forall>q\<in>set qs. \<not> acceptable_request L rd (as_config st) (snd q)"
  shows "host_untouched st (serve_requests L rd fallback qs st)"
  using assms
proof (induction qs arbitrary: st)
  case Nil
  then show ?case by (simp add: serve_requests_def)
next
  case (Cons q qs)
  obtain ctx rq where q: "q = (ctx, rq)" by (cases q)
  obtain a st1 where st1: "serve_http L rd fallback ctx rq st = (a, st1)"
    by (cases "serve_http L rd fallback ctx rq st")
  with Cons.prems q have un: "host_untouched st st1" by (auto intro: serve_http_untouched)
  then have "host_untouched st1 (serve_requests L rd fallback qs st1)"
    using Cons.IH [of st1] Cons.prems by (simp add: host_untouched_def)
  with un st1 q show ?case by (simp add: serve_requests_def host_untouched_def)
qed

section \<open>Properties\<close>

text \<open>
  C33: Start-up. The program panics exactly when the configuration does or one of the two limits is
  beyond tokio's maximum of permits, which no check of the configuration excludes; otherwise it
  ends with an error exactly when the socket cannot be bound, and else it serves on all interfaces at
  \<open>PORT\<close> (3000 if that is no port), with both lifecycles cold, all counters 0 and nothing sent to
  the host.
\<close>

theorem startup_outcome:
  "case proxy_main os tm around bind e w of
     StartPanicked \<Rightarrow> (case from_env e of Inl _ \<Rightarrow> True
       | Inr c \<Rightarrow> 2 ^ 61 \<le> max_active_requests (ac_warm_execution c) \<or> 2 ^ 61 \<le> ac_cold_start_max_waiting c)
   | StartFailed err \<Rightarrow> \<exists>c w'. from_env e = Ok c
       \<and> max_active_requests (ac_warm_execution c) < 2 ^ 61 \<and> ac_cold_start_max_waiting c < 2 ^ 61
       \<and> call (bind ([0, 0, 0, 0], ac_listen_port c)) w = (Err err, w')
   | Serving (ip, port) st \<Rightarrow> ip = [0, 0, 0, 0] \<and> port = read_port e ''PORT'' 3000
       \<and> from_env e = Ok (as_config st)
       \<and> max_active_requests (ac_warm_execution (as_config st)) < 2 ^ 61
       \<and> ac_cold_start_max_waiting (as_config st) < 2 ^ 61
       \<and> is_cold st Chat \<and> is_cold st Embeddings
       \<and> as_metrics st = metrics_default \<and> call (bind (ip, port)) w = (Ok (), as_world st)"
proof (cases "from_env e")
  case (Inl m)
  then show ?thesis by (simp add: proxy_main_def)
next
  case (Inr c)
  have port: "ac_listen_port c = read_port e ''PORT'' 3000"
    using Inr by (auto simp: from_env_def Let_def split: sum.splits)
  show ?thesis
  proof (cases "production os tm around c w")
    case None
    then show ?thesis
      using Inr by (auto simp: proxy_main_def production_def assemble_def semaphore_new_def Let_def split: if_splits)
  next
    case (Some st)
    then have st: "as_config st = c" "as_world st = w" "as_metrics st = metrics_default"
      and limits: "max_active_requests (ac_warm_execution c) < 2 ^ 61" "ac_cold_start_max_waiting c < 2 ^ 61"
      by (auto simp: production_def assemble_def semaphore_new_def Let_def split: option.splits if_splits)
    from Some have cold: "is_cold st Chat" "is_cold st Embeddings"
      by (auto simp: production_def assemble_def Let_def is_cold_def lifecycle_for_def managers_default_def
          chat_ops_def embeddings_ops_def core_new_def backend_status_default_def split: option.splits)
    obtain b w' where b: "call (bind ([0, 0, 0, 0], ac_listen_port c)) w = (b, w')"
      by (cases "call (bind ([0, 0, 0, 0], ac_listen_port c)) w")
    show ?thesis
    proof (cases b)
      case (Inl err)
      with Inr Some limits st b show ?thesis by (auto simp: proxy_main_def Let_def)
    next
      case (Inr u)
      with \<open>from_env e = Inr c\<close> Some limits st cold b port show ?thesis
        by (simp add: proxy_main_def Let_def is_cold_def lifecycle_for_def)
    qed
  qed
qed

text \<open>
  C22: Only an acceptable completion or embeddings request touches the host. Whatever series of
  other requests the proxy serves (health checks, status, model lists, refused bodies, unknown
  paths), the managers and everything outside are as they were: nothing is woken, and nothing is
  sent.
\<close>

theorem only_acceptable_requests_touch_the_host:
  assumes "\<forall>q\<in>set qs. \<not> acceptable_request L rd (as_config st) (snd q)"
  shows "as_managers (serve_requests L rd fallback qs st) = as_managers st
    \<and> as_world (serve_requests L rd fallback qs st) = as_world st"
  using serve_requests_untouched [OF assms] by (simp add: host_untouched_def)

theorem only_acceptable_requests_touch_the_host_witness:
  "as_world (serve_requests (example_libs 200) \<lparr>rd_chat = (\<lambda>b. Err ''eof''), rd_embeddings = (\<lambda>b. Err ''eof'')\<rparr>
      (\<lambda>r. healthz)
      [(example_context, \<lparr>rq_verb = ''GET'', rq_path = ''/v1/models'', rq_headers = [], rq_body = Ok []\<rparr>),
       (example_context, \<lparr>rq_verb = ''POST'', rq_path = ''/v1/chat/completions'',
          rq_headers = [(''content-type'', ''application/json'')], rq_body = Ok []\<rparr>)]
      (example_state backend_status_default 0 0)) = \<lparr>clock = 0, env = 0\<rparr>"
proof -
  let ?rd = "\<lparr>rd_chat = (\<lambda>b. Err ''eof''), rd_embeddings = (\<lambda>b. Err ''eof'')\<rparr>"
  let ?qs = "[(example_context, \<lparr>rq_verb = ''GET'', rq_path = ''/v1/models'', rq_headers = [], rq_body = Ok []\<rparr>),
       (example_context, \<lparr>rq_verb = ''POST'', rq_path = ''/v1/chat/completions'',
          rq_headers = [(''content-type'', ''application/json'')], rq_body = Ok []\<rparr>)]"
  have "\<forall>q\<in>set ?qs. \<not> acceptable_request (example_libs 200) ?rd
      (as_config (example_state backend_status_default 0 0)) (snd q)"
    by (simp add: acceptable_request_def)
  from only_acceptable_requests_touch_the_host [OF this, of "\<lambda>r. healthz"] show ?thesis
    by (simp add: example_state_def)
qed

end
