(* ===== verification/Lifecycle_System.thy ===== *)
theory Lifecycle_System
  imports Lifecycle
begin

text \<open>
  \<open>src/src/lifecycle.rs\<close> with all its tasks: any number of requests in \<open>ensure_backend\<close>, the
  background \<open>start_bootstrap\<close> tasks they spawn, \<open>degrade_embeddings\<close> and \<open>mark_warming\<close> calls,
  and the passing of time. A step is one piece of code between two suspension points (an
  \<open>await\<close>, or a read of the watch channel that is not protected by the bootstrap mutex); the
  mutex is held within a piece only, so its critical sections are single steps. The answers of
  the outside (SSH, helper, wake, tunnel) are arbitrary. A request task may be dropped at any
  suspension point, as axum does when the client goes away.
\<close>

section \<open>An observation in steps\<close>

datatype obs_pc = AtSsh | AtWake | AtHelper | AtTunnel

record obs =
  o_wake :: "lifecycle_request option"
  o_request :: lifecycle_request
  o_status :: backend_status
  o_pc :: obs_pc

datatype answer =
    ASsh "(lifecycle_error, bool) res"
  | AWake "(lifecycle_error, unit) res"
  | AHelper "(lifecycle_error, observed_backend_state) res"
  | ATunnel "(lifecycle_error, tunnel_state) res"

datatype obs_result = Running obs | Finished lifecycle_decision

definition obs_init :: "lifecycle_request option \<Rightarrow> lifecycle_request \<Rightarrow> backend_status \<Rightarrow> obs" where
  "obs_init wr r s = \<lparr>o_wake = wr, o_request = r, o_status = s, o_pc = AtSsh\<rparr>"

definition obs_warming :: "lifecycle_timing \<Rightarrow> backend_status \<Rightarrow> obs_result" where
  "obs_warming tm s = Finished (DWarming (s\<lparr>bs_lifecycle := LsWarming, bs_tunnel := TsDown\<rparr>) (retry_after_secs tm))"

fun after_ssh :: "lifecycle_timing \<Rightarrow> timestamp \<Rightarrow> obs \<Rightarrow> (lifecycle_error, bool) res \<Rightarrow> obs_result" where
  "after_ssh tm t ob (Inl e) = Finished (DFailed (failed_status (o_status ob)) e)"
| "after_ssh tm t ob (Inr True) = Running (ob\<lparr>o_pc := AtHelper\<rparr>)"
| "after_ssh tm t ob (Inr False) =
     (case opt_filter (\<lambda>_. should_request_wake (bs_lifecycle (o_status ob))) (o_wake ob) of
        None \<Rightarrow> obs_warming tm (o_status ob)
      | Some r \<Rightarrow> Running (ob\<lparr>o_status := (o_status ob)\<lparr>bs_last_wake_attempt_at := Some t, bs_tunnel := TsDown\<rparr>,
                              o_pc := AtWake\<rparr>))"

fun after_wake :: "lifecycle_timing \<Rightarrow> obs \<Rightarrow> (lifecycle_error, unit) res \<Rightarrow> obs_result" where
  "after_wake tm ob (Inl e) = Finished (DFailed ((o_status ob)\<lparr>bs_lifecycle := LsError\<rparr>) e)"
| "after_wake tm ob (Inr _) = obs_warming tm (o_status ob)"

fun after_helper :: "lifecycle_timing \<Rightarrow> obs \<Rightarrow> (lifecycle_error, observed_backend_state) res \<Rightarrow> obs_result" where
  "after_helper tm ob (Inl e) = Finished (DFailed (failed_status (o_status ob)) e)"
| "after_helper tm ob (Inr observed) =
     (let st = apply_observed observed (o_status ob) in
      if bs_lifecycle st = LsError then
        Finished (DFailed (st\<lparr>bs_tunnel := TsDown\<rparr>)
          (LifecycleError (unwrap_or ''backend reported error state'' (ob_error observed))))
      else if bs_lifecycle st \<noteq> LsReady then
        Finished (DWarming (st\<lparr>bs_tunnel := TsDown\<rparr>) (retry_after_secs tm))
      else Running (ob\<lparr>o_status := st, o_pc := AtTunnel\<rparr>))"

fun after_tunnel :: "lifecycle_timing \<Rightarrow> obs \<Rightarrow> (lifecycle_error, tunnel_state) res \<Rightarrow> obs_result" where
  "after_tunnel tm ob (Inl e) = Finished (DFailed (failed_status (o_status ob)) e)"
| "after_tunnel tm ob (Inr t) =
     (let st = (o_status ob)\<lparr>bs_tunnel := t\<rparr>;
          st = (if t \<noteq> TsReady then st\<lparr>bs_lifecycle := LsWarming\<rparr> else st)
      in Finished (if bs_lifecycle st = LsReady \<and> bs_tunnel st = TsReady then DReady st
                   else DWarming st (retry_after_secs tm)))"

text \<open>\<open>None\<close>: the answer is not the one this suspension point waits for.\<close>

definition obs_step :: "lifecycle_timing \<Rightarrow> timestamp \<Rightarrow> obs \<Rightarrow> answer \<Rightarrow> obs_result option" where
  "obs_step tm t ob a = (case (o_pc ob, a) of
       (AtSsh, ASsh r) \<Rightarrow> Some (after_ssh tm t ob r)
     | (AtWake, AWake r) \<Rightarrow> Some (after_wake tm ob r)
     | (AtHelper, AHelper r) \<Rightarrow> Some (after_helper tm ob r)
     | (AtTunnel, ATunnel r) \<Rightarrow> Some (after_tunnel tm ob r)
     | _ \<Rightarrow> None)"

text \<open>Asking the ports for the answer an observation waits for, until it is finished.\<close>

definition ask :: "'e ports \<Rightarrow> obs \<Rightarrow> 'e world \<Rightarrow> answer \<times> 'e world" where
  "ask P ob w = (case o_pc ob of
       AtSsh \<Rightarrow> map_prod ASsh id (call (is_ready P) w)
     | AtWake \<Rightarrow> (case o_wake ob of
          None \<Rightarrow> (AWake (Inr ()), w)
        | Some r \<Rightarrow> map_prod AWake id (call (request_wake P r) w))
     | AtHelper \<Rightarrow> map_prod AHelper id (call (observe_backend P (o_request ob)) w)
     | AtTunnel \<Rightarrow> map_prod ATunnel id (call (ensure_tunnel P) w))"

primrec obs_run :: "nat \<Rightarrow> 'e ports \<Rightarrow> lifecycle_timing \<Rightarrow> obs \<Rightarrow> 'e world \<Rightarrow> (lifecycle_decision \<times> 'e world) option" where
  "obs_run 0 P tm ob w = None"
| "obs_run (Suc n) P tm ob w =
     (case ask P ob w of (a, w') \<Rightarrow>
       (case obs_step tm (now P w') ob a of
          None \<Rightarrow> None
        | Some (Finished d) \<Rightarrow> Some (d, w')
        | Some (Running ob') \<Rightarrow> obs_run n P tm ob' w'))"

definition published :: "lifecycle_decision \<Rightarrow> core \<Rightarrow> core" where
  "published d c = (case d of DFailed s e \<Rightarrow> c | _ \<Rightarrow> publish (decision_status d) c)"

text \<open>The two descriptions of an observation agree: three suspension points are enough.\<close>

lemma obs_run_observe_once:
  assumes "observe_once P tm wr r s c w = (d, c', w')"
  shows "obs_run 3 P tm (obs_init wr r s) w = Some (d, w') \<and> c' = published d c"
proof -
  have three: "(3::nat) = Suc (Suc (Suc 0))" by simp
  show ?thesis
    using assms unfolding three
    by (auto simp: observe_defs obs_init_def ask_def obs_step_def obs_warming_def published_def Let_def
        split: prod.splits sum.splits if_splits option.splits bool.splits)
qed

section \<open>Tasks\<close>

datatype task =
    TIdle
  | TStart lifecycle_request
  | TCheck lifecycle_request backend_status
  | TJoin lifecycle_request backend_status
  | TObserveReq lifecycle_request backend_status nat
  | TObserve obs nat
  | TReady backend_status
  | TFinish backend_status "lifecycle_error option" lifecycle_decision
  | TWait nat nat
  | TWaitLock backend_status nat nat
  | TSleep nat nat bool
  | TDone lifecycle_decision
  | TDropped
  | BStart
  | BLoop nat
  | BPause nat nat
  | BRead nat backend_status
  | BObserve nat obs
  | BFinish backend_status "lifecycle_error option"
  | BDone
  | TDegrade string backend_status
  | TMark backend_status
  | TReturned

record sys =
  sy_core :: core
  sy_clock :: nat
  sy_tasks :: "nat \<Rightarrow> task"
  sy_starts :: nat
  sy_finishes :: nat
  sy_wakes :: "lifecycle_request list"

definition sys_init :: "backend_status \<Rightarrow> sys" where
  "sys_init initial = \<lparr>sy_core = core_new initial, sy_clock = 0, sy_tasks = (\<lambda>_. TIdle),
     sy_starts = 0, sy_finishes = 0, sy_wakes = []\<rparr>"

abbreviation set_task :: "nat \<Rightarrow> task \<Rightarrow> sys \<Rightarrow> sys" where
  "set_task i t s \<equiv> s\<lparr>sy_tasks := (sy_tasks s)(i := t)\<rparr>"

abbreviation set_core :: "core \<Rightarrow> sys \<Rightarrow> sys" where
  "set_core c s \<equiv> s\<lparr>sy_core := c\<rparr>"

abbreviation active :: "sys \<Rightarrow> bool" where
  "active s \<equiv> bt_active (co_bootstrap (sy_core s))"

definition wake_sent :: "obs \<Rightarrow> lifecycle_request list" where
  \<comment> \<open>a request is sent when an observation gets to the point where it awaits the wake\<close>
  "wake_sent ob = (if o_pc ob = AtWake then (case o_wake ob of None \<Rightarrow> [] | Some r \<Rightarrow> [r]) else [])"

definition boot_deadline_at :: "lifecycle_timing \<Rightarrow> timestamp \<Rightarrow> sys \<Rightarrow> nat" where
  "boot_deadline_at tm t s =
     sy_clock s + 1000 * unat (sat_sub (sat_add
       (unwrap_or t (bs_last_wake_attempt_at (co_status (sy_core s)))) (hard_boot_deadline_secs tm)) t)"

definition view_at :: "backend_status \<Rightarrow> sys \<Rightarrow> wait_view" where
  "view_at st s = \<lparr>wv_status = st, wv_active = active s,
     wv_last_error = bt_last_error (co_bootstrap (sy_core s)), wv_now = sy_clock s\<rparr>"

definition droppable :: "task \<Rightarrow> bool" where
  \<comment> \<open>the future of a request; the spawned bootstrap is detached and is never dropped\<close>
  "droppable t = (case t of TStart _ \<Rightarrow> True | TCheck _ _ \<Rightarrow> True | TJoin _ _ \<Rightarrow> True
     | TObserveReq _ _ _ \<Rightarrow> True | TObserve _ _ \<Rightarrow> True | TFinish _ _ _ \<Rightarrow> True
     | TWaitLock _ _ _ \<Rightarrow> True | TSleep _ _ _ \<Rightarrow> True | _ \<Rightarrow> False)"

inductive lc_step :: "lifecycle_timing \<Rightarrow> sys \<Rightarrow> sys \<Rightarrow> bool" for tm :: lifecycle_timing where
  arrive: "sy_tasks s i = TIdle \<Longrightarrow> lc_step tm s (set_task i (TStart r) s)"
| borrow: "sy_tasks s i = TStart r \<Longrightarrow>
     lc_step tm s (set_task i (TCheck r (co_status (sy_core s))) s)"
| check_ready: "sy_tasks s i = TCheck r st \<Longrightarrow> \<not> active s \<Longrightarrow> backend_is_ready st \<Longrightarrow>
     lc_step tm s (set_task i (TDone (DReady st)) s)"
| check_other: "sy_tasks s i = TCheck r st \<Longrightarrow> active s \<or> \<not> backend_is_ready st \<Longrightarrow>
     lc_step tm s (set_task i (TJoin r st) s)"
| join_start: "sy_tasks s i = TJoin r st \<Longrightarrow> start_or_join_bootstrap r (sy_core s) = (True, c) \<Longrightarrow>
     lc_step tm s (set_task i (TObserveReq r st (co_version c))
       (set_core c (s\<lparr>sy_starts := Suc (sy_starts s)\<rparr>)))"
| join_wait: "sy_tasks s i = TJoin r st \<Longrightarrow> start_or_join_bootstrap r (sy_core s) = (False, c) \<Longrightarrow>
     lc_step tm s (set_task i (TWait (co_version c)
       (sy_clock s + 1000 * unat (cold_wait_budget_secs tm))) (set_core c s))"
| observe_request: "sy_tasks s i = TObserveReq r st v \<Longrightarrow>
     lc_step tm s (set_task i
       (TObserve (obs_init (Some r) (bt_observe_request (co_bootstrap (sy_core s))) st) v) s)"
| observe_continue: "sy_tasks s i = TObserve ob v \<Longrightarrow> obs_step tm t ob a = Some (Running ob') \<Longrightarrow>
     lc_step tm s (set_task i (TObserve ob' v) (s\<lparr>sy_wakes := sy_wakes s @ wake_sent ob'\<rparr>))"
| observe_ready: "sy_tasks s i = TObserve ob v \<Longrightarrow> obs_step tm t ob a = Some (Finished (DReady st)) \<Longrightarrow>
     lc_step tm s (set_task i (TReady st) (set_core (publish st (sy_core s)) s))"
| observe_failed: "sy_tasks s i = TObserve ob v \<Longrightarrow> obs_step tm t ob a = Some (Finished (DFailed st e)) \<Longrightarrow>
     lc_step tm s (set_task i (TFinish st (Some e) (DFailed st e)) s)"
| observe_warming: "sy_tasks s i = TObserve ob v \<Longrightarrow> obs_step tm t ob a = Some (Finished (DWarming st n)) \<Longrightarrow>
     sy_tasks s j = TIdle \<Longrightarrow> j \<noteq> i \<Longrightarrow>
     lc_step tm s (set_task j BStart (set_task i
       (TWait v (sy_clock s + 1000 * unat (cold_wait_budget_secs tm)))
       (set_core (publish st (sy_core s)) s)))"
| ready_borrow: "sy_tasks s i = TReady st \<Longrightarrow>
     lc_step tm s (set_task i (TFinish (co_status (sy_core s)) None (DReady st)) s)"
| finish: "sy_tasks s i = TFinish st eo d \<Longrightarrow>
     lc_step tm s (set_task i (TDone d)
       (set_core (finish_bootstrap st eo (sy_core s)) (s\<lparr>sy_finishes := Suc (sy_finishes s)\<rparr>)))"
| wait_borrow: "sy_tasks s i = TWait v dl \<Longrightarrow>
     lc_step tm s (set_task i (TWaitLock (co_status (sy_core s)) v dl) s)"
| wait_decide: "sy_tasks s i = TWaitLock st v dl \<Longrightarrow> wait_check tm dl (view_at st s) = Some d \<Longrightarrow>
     lc_step tm s (set_task i (TDone d) s)"
| wait_block: "sy_tasks s i = TWaitLock st v dl \<Longrightarrow> wait_check tm dl (view_at st s) = None \<Longrightarrow>
     lc_step tm s (set_task i (TSleep v dl (stale_view (view_at st s))) s)"
| wait_changed: "sy_tasks s i = TSleep v dl stale \<Longrightarrow> v < co_version (sy_core s) \<Longrightarrow>
     lc_step tm s (set_task i (TWait (co_version (sy_core s)) dl) s)"
| wait_timeout: "sy_tasks s i = TSleep v dl stale \<Longrightarrow> dl \<le> sy_clock s \<Longrightarrow>
     lc_step tm s (set_task i (TDone (DWarming (bootstrap_wait_status (co_status (sy_core s)) stale)
       (retry_after_secs tm))) s)"
| drop: "droppable (sy_tasks s i) \<Longrightarrow> lc_step tm s (set_task i TDropped s)"
| boot_start: "sy_tasks s i = BStart \<Longrightarrow> lc_step tm s (set_task i (BLoop (boot_deadline_at tm t s)) s)"
| boot_expired: "sy_tasks s i = BLoop dl \<Longrightarrow> dl \<le> sy_clock s \<Longrightarrow>
     lc_step tm s (set_task i (BFinish (failed_status (co_status (sy_core s))) (Some deadline_error)) s)"
| boot_pause: "sy_tasks s i = BLoop dl \<Longrightarrow> sy_clock s < dl \<Longrightarrow>
     lc_step tm s (set_task i (BPause dl (sy_clock s + unat (bootstrap_poll_interval_millis tm))) s)"
| boot_paused_expired: "sy_tasks s i = BPause dl u \<Longrightarrow> u \<le> sy_clock s \<Longrightarrow> dl \<le> sy_clock s \<Longrightarrow>
     lc_step tm s (set_task i (BFinish (failed_status (co_status (sy_core s))) (Some deadline_error)) s)"
| boot_read: "sy_tasks s i = BPause dl u \<Longrightarrow> u \<le> sy_clock s \<Longrightarrow> sy_clock s < dl \<Longrightarrow>
     lc_step tm s (set_task i (BRead dl (co_status (sy_core s))) s)"
| boot_observe: "sy_tasks s i = BRead dl st \<Longrightarrow>
     lc_step tm s (set_task i
       (BObserve dl (obs_init None (bt_observe_request (co_bootstrap (sy_core s))) st)) s)"
| boot_continue: "sy_tasks s i = BObserve dl ob \<Longrightarrow> obs_step tm t ob a = Some (Running ob') \<Longrightarrow>
     lc_step tm s (set_task i (BObserve dl ob') (s\<lparr>sy_wakes := sy_wakes s @ wake_sent ob'\<rparr>))"
| boot_ready: "sy_tasks s i = BObserve dl ob \<Longrightarrow> obs_step tm t ob a = Some (Finished (DReady st)) \<Longrightarrow>
     lc_step tm s (set_task i (BFinish st None) (set_core (publish st (sy_core s)) s))"
| boot_failed: "sy_tasks s i = BObserve dl ob \<Longrightarrow> obs_step tm t ob a = Some (Finished (DFailed st e)) \<Longrightarrow>
     lc_step tm s (set_task i (BFinish st (Some e)) s)"
| boot_warming: "sy_tasks s i = BObserve dl ob \<Longrightarrow> obs_step tm t ob a = Some (Finished (DWarming st n)) \<Longrightarrow>
     lc_step tm s (set_task i (BLoop dl) (set_core (publish st (sy_core s)) s))"
| boot_finish: "sy_tasks s i = BFinish st eo \<Longrightarrow>
     lc_step tm s (set_task i BDone
       (set_core (finish_bootstrap st eo (sy_core s)) (s\<lparr>sy_finishes := Suc (sy_finishes s)\<rparr>)))"
| degrade_read: "sy_tasks s i = TIdle \<Longrightarrow>
     lc_step tm s (set_task i (TDegrade reason (co_status (sy_core s))) s)"
| degrade_publish: "sy_tasks s i = TDegrade reason st \<Longrightarrow>
     lc_step tm s (set_task i TReturned (set_core
       (publish (st\<lparr>bs_embeddings := CsDegraded, bs_embeddings_reason := Some reason\<rparr>) (sy_core s)) s))"
| mark_read: "sy_tasks s i = TIdle \<Longrightarrow>
     lc_step tm s (set_task i (TMark (co_status (sy_core s))) s)"
| mark_publish: "sy_tasks s i = TMark st \<Longrightarrow>
     lc_step tm s (set_task i TReturned (set_core
       (publish (st\<lparr>bs_lifecycle := LsWarming, bs_tunnel := TsDown\<rparr>) (sy_core s)) s))"
| tick: "lc_step tm s (s\<lparr>sy_clock := sy_clock s + d\<rparr>)"

text \<open>The states reachable from an initial status, and the runs that go on from any state.\<close>

inductive lc_reachable :: "lifecycle_timing \<Rightarrow> backend_status \<Rightarrow> sys \<Rightarrow> bool"
  for tm :: lifecycle_timing and initial :: backend_status where
  init: "lc_reachable tm initial (sys_init initial)"
| step: "lc_reachable tm initial s \<Longrightarrow> lc_step tm s s' \<Longrightarrow> lc_reachable tm initial s'"


section \<open>One driver\<close>

text \<open>
  A driver is a task that is responsible for the current bootstrap: the request that started
  it, or the background task it spawned.
\<close>

definition driver :: "task \<Rightarrow> bool" where
  "driver t = (case t of TObserveReq _ _ _ \<Rightarrow> True | TObserve _ _ \<Rightarrow> True | TReady _ \<Rightarrow> True
     | TFinish _ _ _ \<Rightarrow> True | BStart \<Rightarrow> True | BLoop _ \<Rightarrow> True | BPause _ _ \<Rightarrow> True
     | BRead _ _ \<Rightarrow> True | BObserve _ _ \<Rightarrow> True | BFinish _ _ \<Rightarrow> True | _ \<Rightarrow> False)"

lemma driver_simps [simp]:
  "\<not> driver TIdle" "\<not> driver (TStart r)" "\<not> driver (TCheck r st)" "\<not> driver (TJoin r st)"
  "driver (TObserveReq r st v)" "driver (TObserve ob v)" "driver (TReady st)" "driver (TFinish st eo d)"
  "\<not> driver (TWait v dl)" "\<not> driver (TWaitLock st v dl)" "\<not> driver (TSleep v dl b)"
  "\<not> driver (TDone d)" "\<not> driver TDropped" "driver BStart" "driver (BLoop dl)" "driver (BPause dl u)"
  "driver (BRead dl st)" "driver (BObserve dl ob)" "driver (BFinish st eo)" "\<not> driver BDone"
  "\<not> driver (TDegrade rs st)" "\<not> driver (TMark st)" "\<not> driver TReturned"
  by (simp_all add: driver_def)

lemma start_or_join_True:
  "start_or_join_bootstrap r c = (True, c') \<Longrightarrow>
     \<not> bt_active (co_bootstrap c) \<and> bt_active (co_bootstrap c') \<and> co_status c' = co_status c"
  by (cases "bt_active (co_bootstrap c)") (auto simp: start_or_join_busy start_or_join_idle)

lemma start_or_join_False:
  "start_or_join_bootstrap r c = (False, c') \<Longrightarrow>
     bt_active (co_bootstrap c) \<and> bt_active (co_bootstrap c') \<and> co_status c' = co_status c"
  by (cases "bt_active (co_bootstrap c)") (auto simp: start_or_join_busy start_or_join_idle)

definition one_driver :: "sys \<Rightarrow> bool" where
  "one_driver s = ((\<forall>i j. driver (sy_tasks s i) \<longrightarrow> driver (sy_tasks s j) \<longrightarrow> i = j)
     \<and> (\<forall>i. driver (sy_tasks s i) \<longrightarrow> active s))"

text \<open>
  A step that changes one task keeps the invariant if it makes no new driver and does not
  release the bootstrap under one.
\<close>

lemma one_driver_update:
  assumes "one_driver s" "driver t \<longrightarrow> driver (sy_tasks s i)"
    and "active s' = active s \<or> driver (sy_tasks s i) \<and> \<not> driver t"
    and "sy_tasks s' = (sy_tasks s)(i := t)"
  shows "one_driver s'"
  using assms unfolding one_driver_def by (auto split: if_splits)

lemma one_driver_active: "one_driver s \<Longrightarrow> sy_tasks s i = t \<Longrightarrow> driver t \<Longrightarrow> active s"
  by (auto simp: one_driver_def)

lemma one_driver_same: "one_driver s \<Longrightarrow> active s' = active s \<Longrightarrow> sy_tasks s' = sy_tasks s \<Longrightarrow> one_driver s'"
  by (simp add: one_driver_def)

lemma one_driver_init: "one_driver (sys_init st)"
  by (simp add: one_driver_def sys_init_def)

lemma one_driver_step:
  assumes "lc_step tm s s'" "one_driver s"
  shows "one_driver s'"
  using assms
proof (induction rule: lc_step.induct)
  case (join_start s i r st c)
  then show ?case
    using start_or_join_True [OF join_start.hyps(2)] by (auto simp: one_driver_def)
next
  case (join_wait s i r st c)
  then show ?case
    using start_or_join_False [OF join_wait.hyps(2)]
    by (intro one_driver_update [OF join_wait.prems]) auto
next
  case (observe_warming s i ob v t a st n j)
  have i: "driver (sy_tasks s i)" using observe_warming.hyps by simp
  then have act: "active s" and uniq: "\<And>k. driver (sy_tasks s k) \<Longrightarrow> k = i"
    using observe_warming.prems unfolding one_driver_def by blast+
  with observe_warming.hyps show ?case
    by (auto simp: one_driver_def split: if_splits)
next
  case (tick s d)
  then show ?case by (rule one_driver_same) simp_all
qed (rule one_driver_update, assumption, simp_all)+

lemma reachable_one_driver: "lc_reachable tm initial s \<Longrightarrow> one_driver s"
  by (induction rule: lc_reachable.induct) (auto intro: one_driver_init one_driver_step)


section \<open>Coherent statuses\<close>

lemma obs_step_finished:
  assumes "obs_step tm t ob a = Some (Finished d)"
    and "o_pc ob = AtWake \<Longrightarrow> bs_tunnel (o_status ob) = TsDown"
    and "o_pc ob = AtTunnel \<Longrightarrow> bs_lifecycle (o_status ob) = LsReady"
  shows "decision_ok tm d c (published d c)"
  using assms
  by (cases "o_pc ob"; cases a)
    (auto simp: obs_step_def obs_warming_def decision_ok_def published_def backend_is_ready_def Let_def
      elim!: after_ssh.elims after_wake.elims after_helper.elims after_tunnel.elims
      split: if_splits option.splits)

text \<open>What an observation in progress has recorded in its status.\<close>

definition obs_ok :: "obs \<Rightarrow> bool" where
  "obs_ok ob = ((o_pc ob = AtWake \<longrightarrow> bs_tunnel (o_status ob) = TsDown)
     \<and> (o_pc ob = AtTunnel \<longrightarrow> bs_lifecycle (o_status ob) = LsReady))"

lemma obs_ok_init [simp]: "obs_ok (obs_init wr r st)"
  by (simp add: obs_ok_def obs_init_def)

lemma obs_step_running:
  "obs_step tm t ob a = Some (Running ob') \<Longrightarrow> obs_ok ob' \<and> o_wake ob' = o_wake ob
     \<and> bs_lease_expires_at (o_status ob') = bs_lease_expires_at (o_status ob)"
  by (cases "o_pc ob"; cases a)
    (auto simp: obs_step_def obs_ok_def obs_warming_def apply_observed_def Let_def
      elim!: after_ssh.elims after_wake.elims after_helper.elims after_tunnel.elims
      split: if_splits option.splits)

lemma obs_step_decision:
  assumes "obs_ok ob" "obs_step tm t ob a = Some (Finished d)"
  shows "coherent (decision_status d)" and "d = DReady st \<Longrightarrow> backend_is_ready st"
proof -
  have "decision_ok tm d undefined (published d undefined)"
    using assms by (intro obs_step_finished) (auto simp: obs_ok_def)
  then show "coherent (decision_status d)" and "d = DReady st \<Longrightarrow> backend_is_ready st"
    using decision_ok_coherent by (auto simp: decision_ok_def)
qed

text \<open>Every status a task holds is coherent, and a ready decision is ready.\<close>

definition decision_sound :: "lifecycle_decision \<Rightarrow> bool" where
  "decision_sound d = (coherent (decision_status d) \<and> (\<forall>st. d = DReady st \<longrightarrow> backend_is_ready st))"

fun task_ok :: "task \<Rightarrow> bool" where
  "task_ok (TCheck r st) = coherent st"
| "task_ok (TJoin r st) = coherent st"
| "task_ok (TObserveReq r st v) = coherent st"
| "task_ok (TObserve ob v) = obs_ok ob"
| "task_ok (TReady st) = backend_is_ready st"
| "task_ok (TFinish st eo d) = (coherent st \<and> decision_sound d)"
| "task_ok (TWaitLock st v dl) = coherent st"
| "task_ok (TDone d) = decision_sound d"
| "task_ok (BRead dl st) = coherent st"
| "task_ok (BObserve dl ob) = obs_ok ob"
| "task_ok (BFinish st eo) = coherent st"
| "task_ok (TDegrade rs st) = coherent st"
| "task_ok _ = True"

definition sys_ok :: "sys \<Rightarrow> bool" where
  "sys_ok s = (coherent (co_status (sy_core s)) \<and> (\<forall>i. task_ok (sy_tasks s i)))"

lemma sys_ok_update:
  assumes "sys_ok s" "task_ok t" "coherent (co_status (sy_core s'))" "sy_tasks s' = (sy_tasks s)(i := t)"
  shows "sys_ok s'"
  using assms by (auto simp: sys_ok_def)

lemma sys_ok_task: "sys_ok s \<Longrightarrow> sy_tasks s i = t \<Longrightarrow> task_ok t"
  and sys_ok_status: "sys_ok s \<Longrightarrow> coherent (co_status (sy_core s))"
  by (auto simp: sys_ok_def)

lemma ready_coherent: "backend_is_ready st \<Longrightarrow> coherent st"
  by (simp add: backend_is_ready_def coherent_def)

lemma wait_check_sound: "wait_check tm dl v = Some d \<Longrightarrow> coherent (wv_status v) \<Longrightarrow> decision_sound d"
  by (auto simp: wait_check_def decision_sound_def Let_def coherent_bootstrap_wait_status split: if_splits)

lemma sys_ok_step:
  assumes "lc_step tm s s'" "sys_ok s"
  shows "sys_ok s'"
  using assms
proof (induction rule: lc_step.induct)
  case (observe_continue s i ob v t a ob')
  then show ?case
    using obs_step_running [OF observe_continue.hyps(2)]
    by (intro sys_ok_update [OF observe_continue.prems]) (auto dest: sys_ok_status)
next
  case (boot_continue s i dl ob t a ob')
  then show ?case
    using obs_step_running [OF boot_continue.hyps(2)]
    by (intro sys_ok_update [OF boot_continue.prems]) (auto dest: sys_ok_status)
next
  case (observe_warming s i ob v t a st n j)
  have "obs_ok ob" using sys_ok_task [OF observe_warming.prems observe_warming.hyps(1)] by simp
  from obs_step_decision(1) [OF this observe_warming.hyps(2)] observe_warming show ?case
    by (auto simp: sys_ok_def)
next
  case (tick s d)
  then show ?case by (simp add: sys_ok_def)
next
  case (drop s i)
  then show ?case by (simp add: sys_ok_def)
next
  case (wait_decide s i st v dl d)
  have "coherent st" using sys_ok_task [OF wait_decide.prems wait_decide.hyps(1)] by simp
  with wait_check_sound [OF wait_decide.hyps(2)] have "decision_sound d" by (simp add: view_at_def)
  then show ?case
    using wait_decide by (intro sys_ok_update [OF wait_decide.prems]) (auto dest: sys_ok_status)
qed (frule sys_ok_status, frule (1) sys_ok_task, rule sys_ok_update, assumption,
     auto simp: decision_sound_def ready_coherent coherent_bootstrap_wait_status
       dest: obs_step_decision start_or_join_True start_or_join_False)+

lemma sys_ok_init: "coherent initial \<Longrightarrow> sys_ok (sys_init initial)"
  by (simp add: sys_ok_def sys_init_def core_new_def)

lemma reachable_sys_ok: "lc_reachable tm initial s \<Longrightarrow> coherent initial \<Longrightarrow> sys_ok s"
  by (induction rule: lc_reachable.induct) (blast intro: sys_ok_init sys_ok_step)+


section \<open>Wake requests\<close>

text \<open>A task that may still send the wake request of its bootstrap.\<close>

definition may_wake :: "task \<Rightarrow> bool" where
  "may_wake t = (case t of TObserveReq _ _ _ \<Rightarrow> True | TObserve ob _ \<Rightarrow> o_pc ob = AtSsh | _ \<Rightarrow> False)"

lemma may_wake_simps [simp]:
  "\<not> may_wake TIdle" "\<not> may_wake (TStart r)" "\<not> may_wake (TCheck r st)" "\<not> may_wake (TJoin r st)"
  "may_wake (TObserveReq r st v)" "may_wake (TObserve ob v) = (o_pc ob = AtSsh)"
  "\<not> may_wake (TReady st)" "\<not> may_wake (TFinish st eo d)"
  "\<not> may_wake (TWait v dl)" "\<not> may_wake (TWaitLock st v dl)" "\<not> may_wake (TSleep v dl b)"
  "\<not> may_wake (TDone d)" "\<not> may_wake TDropped" "\<not> may_wake BStart" "\<not> may_wake (BLoop dl)"
  "\<not> may_wake (BPause dl u)" "\<not> may_wake (BRead dl st)" "\<not> may_wake (BObserve dl ob)"
  "\<not> may_wake (BFinish st eo)" "\<not> may_wake BDone" "\<not> may_wake (TDegrade rs st)"
  "\<not> may_wake (TMark st)" "\<not> may_wake TReturned"
  by (simp_all add: may_wake_def)

lemma may_wake_driver: "may_wake t \<Longrightarrow> driver t"
  by (cases t) auto

definition wake_budget :: "sys \<Rightarrow> bool" where
  "wake_budget s = (sy_starts s = sy_finishes s + of_bool (active s)
     \<and> length (sy_wakes s) + of_bool (\<exists>i. may_wake (sy_tasks s i)) \<le> sy_starts s
     \<and> (\<forall>i dl ob. sy_tasks s i = BObserve dl ob \<longrightarrow> o_wake ob = None))"

lemma wake_budget_update:
  assumes "wake_budget s" "may_wake t \<longrightarrow> may_wake (sy_tasks s i)"
    and "\<And>dl ob. t = BObserve dl ob \<Longrightarrow> o_wake ob = None"
    and "active s' = active s" "sy_starts s' = sy_starts s" "sy_finishes s' = sy_finishes s"
    and "sy_wakes s' = sy_wakes s" "sy_tasks s' = (sy_tasks s)(i := t)"
  shows "wake_budget s'"
proof -
  have "(\<exists>k. may_wake (sy_tasks s' k)) \<longrightarrow> (\<exists>k. may_wake (sy_tasks s k))"
    using assms(2,8) by (auto split: if_splits)
  then show ?thesis
    using assms unfolding wake_budget_def by (auto split: if_splits simp: of_bool_def)
qed

lemma wake_sent_running:
  "obs_step tm t ob a = Some (Running ob') \<Longrightarrow> o_pc ob' \<noteq> AtSsh \<and>
     (o_pc ob' = AtWake \<longrightarrow> o_pc ob = AtSsh \<and> o_wake ob \<noteq> None) \<and> length (wake_sent ob') \<le> of_bool (o_pc ob = AtSsh)"
  by (cases "o_pc ob"; cases a)
    (auto simp: obs_step_def obs_warming_def wake_sent_def Let_def opt_filter_Some_iff
      elim!: after_ssh.elims after_wake.elims after_helper.elims after_tunnel.elims
      split: if_splits option.splits)

lemma wake_budget_step:
  assumes "lc_step tm s s'" "wake_budget s" "one_driver s"
  shows "wake_budget s'"
  using assms
proof (induction rule: lc_step.induct)
  case (join_start s i r st c)
  have "\<not> active s" "bt_active (co_bootstrap c)"
    using start_or_join_True [OF join_start.hyps(2)] by auto
  moreover have "\<not> may_wake (sy_tasks s k)" for k
    using join_start.prems(2) \<open>\<not> active s\<close> may_wake_driver unfolding one_driver_def by blast
  ultimately show ?case
    using join_start.prems(1) unfolding wake_budget_def by (auto split: if_splits)
next
  case (join_wait s i r st c)
  then show ?case
    using start_or_join_False [OF join_wait.hyps(2)]
    by (intro wake_budget_update [OF join_wait.prems(1)]) auto
next
  case (observe_continue s i ob v t a ob')
  have ws: "o_pc ob' \<noteq> AtSsh" "length (wake_sent ob') \<le> of_bool (o_pc ob = AtSsh)"
    using wake_sent_running [OF observe_continue.hyps(2)] by auto
  have only: "k = i" if "may_wake (sy_tasks s k)" for k
    using that observe_continue.prems(2) observe_continue.hyps(1) may_wake_driver
    unfolding one_driver_def by fastforce
  have "of_bool (o_pc ob = AtSsh) \<le> (of_bool (\<exists>k. may_wake (sy_tasks s k)) :: nat)"
    using observe_continue.hyps(1) by (auto simp: of_bool_def) (metis may_wake_simps(6))
  moreover have "length (sy_wakes s) + of_bool (\<exists>k. may_wake (sy_tasks s k)) \<le> sy_starts s"
    using observe_continue.prems(1) unfolding wake_budget_def by blast
  ultimately have "length (sy_wakes s @ wake_sent ob') \<le> sy_starts s"
    using ws(2) unfolding length_append by linarith
  moreover have "\<not> (\<exists>k. may_wake (((sy_tasks s)(i := TObserve ob' v)) k))"
    using only ws(1) by auto
  ultimately show ?case
    using observe_continue.prems(1) unfolding wake_budget_def by auto
next
  case (boot_continue s i dl ob t a ob')
  have "o_wake ob = None" using boot_continue.prems(1) boot_continue.hyps(1)
    unfolding wake_budget_def by blast
  then have "wake_sent ob' = []" "o_wake ob' = None"
    using obs_step_running [OF boot_continue.hyps(2)] by (auto simp: wake_sent_def)
  then show ?case
    by (intro wake_budget_update [OF boot_continue.prems(1)]) auto
next
  case (observe_warming s i ob v t a st n j)
  have "\<not> (\<exists>k. may_wake (((sy_tasks s)(i := TWait v dl, j := BStart)) k)) \<or>
      (\<exists>k. may_wake (sy_tasks s k))" for dl
    by (auto split: if_splits)
  with observe_warming show ?case
    unfolding wake_budget_def by (auto split: if_splits simp: of_bool_def)
next
  case (finish s i st eo d)
  have "active s" using one_driver_active [OF finish.prems(2) finish.hyps] by simp
  moreover have "(\<exists>k. may_wake (((sy_tasks s)(i := TDone d)) k)) \<longrightarrow> (\<exists>k. may_wake (sy_tasks s k))"
    by (auto split: if_splits)
  ultimately show ?case
    using finish.prems(1) unfolding wake_budget_def by (auto split: if_splits simp: of_bool_def)
next
  case (boot_finish s i st eo)
  have "active s" using one_driver_active [OF boot_finish.prems(2) boot_finish.hyps] by simp
  moreover have "(\<exists>k. may_wake (((sy_tasks s)(i := BDone)) k)) \<longrightarrow> (\<exists>k. may_wake (sy_tasks s k))"
    by (auto split: if_splits)
  ultimately show ?case
    using boot_finish.prems(1) unfolding wake_budget_def by (auto split: if_splits simp: of_bool_def)
next
  case (tick s d)
  then show ?case by (simp add: wake_budget_def)
qed (rule wake_budget_update, assumption, auto simp: obs_init_def)+

lemma wake_budget_init: "wake_budget (sys_init st)"
  by (simp add: wake_budget_def sys_init_def core_new_def bootstrap_default_def)

lemma reachable_wake_budget: "lc_reachable tm initial s \<Longrightarrow> wake_budget s"
  by (induction rule: lc_reachable.induct)
    (blast intro: wake_budget_init wake_budget_step reachable_one_driver)+

section \<open>A bootstrap nobody drives\<close>

text \<open>
  The state left when the request that started a bootstrap is dropped before its first
  observation ends: the bootstrap is marked active and no task will ever finish it.
\<close>

definition abandoned :: "sys \<Rightarrow> bool" where
  "abandoned s = (active s \<and> (\<forall>i. \<not> driver (sy_tasks s i)))"

text \<open>A driver that a step leaves dropped was dropped by it, and nothing else happened.\<close>

lemma driver_dropped:
  assumes "driver (sy_tasks s i)" "lc_step tm s s'" "sy_tasks s' i = TDropped"
  shows "s' = set_task i TDropped s"
  using assms(2,1,3)
proof (induction rule: lc_step.induct)
  case (drop s k)
  have "k = i" using drop.prems by (cases "k = i") auto
  then show ?case by (simp only:)
qed (auto split: if_splits)

definition new_decisions_warming :: "sys \<Rightarrow> sys \<Rightarrow> bool" where
  "new_decisions_warming s s' = (\<forall>i d. sy_tasks s' i = TDone d \<longrightarrow>
     sy_tasks s i = TDone d \<or> (\<exists>st n. d = DWarming st n))"

lemma abandoned_update:
  assumes "abandoned s" "\<not> driver t" "active s' = active s" "sy_wakes s' = sy_wakes s"
    and "\<And>d. t = TDone d \<Longrightarrow> \<exists>st n. d = DWarming st n" "sy_tasks s' = (sy_tasks s)(i := t)"
  shows "abandoned s' \<and> sy_wakes s' = sy_wakes s \<and> new_decisions_warming s s'"
  using assms by (auto simp: abandoned_def new_decisions_warming_def)

lemma wait_check_active:
  "wait_check tm dl v = Some d \<Longrightarrow> wv_active v \<Longrightarrow> \<exists>st n. d = DWarming st n"
  by (cases d) (auto dest: wait_check_ready wait_check_failed)

lemma abandoned_driver: "abandoned s \<Longrightarrow> sy_tasks s i = t \<Longrightarrow> \<not> driver t"
  and abandoned_active: "abandoned s \<Longrightarrow> active s"
  by (auto simp: abandoned_def)

lemma abandoned_step:
  assumes "lc_step tm s s'" "abandoned s"
  shows "abandoned s' \<and> sy_wakes s' = sy_wakes s \<and> new_decisions_warming s s'"
  using assms
proof (induction rule: lc_step.induct)
  case (join_start s i r st c)
  then show ?case using start_or_join_True [OF join_start.hyps(2)] by (simp add: abandoned_def)
next
  case (join_wait s i r st c)
  then show ?case
    using start_or_join_False [OF join_wait.hyps(2)]
    by (intro abandoned_update [OF join_wait.prems]) (auto dest: abandoned_active)
next
  case (wait_decide s i st v dl d)
  have "wv_active (view_at st s)" using abandoned_active [OF wait_decide.prems] by (simp add: view_at_def)
  with wait_check_active [OF wait_decide.hyps(2)] show ?case
    by (intro abandoned_update [OF wait_decide.prems]) auto
next
  case (tick s d)
  then show ?case by (auto simp: abandoned_def new_decisions_warming_def)
next
  case (check_ready s i r st)
  then show ?case by (auto dest: abandoned_active)
next
  case (drop s i)
  then show ?case by (intro abandoned_update [OF drop.prems]) auto
qed ((drule (1) abandoned_driver, (simp; fail)) | (rule abandoned_update; (assumption | (simp; fail) | force)))+

lemma new_decisions_warming_refl: "new_decisions_warming s s"
  by (simp add: new_decisions_warming_def)

lemma new_decisions_warming_trans:
  "new_decisions_warming s t \<Longrightarrow> new_decisions_warming t u \<Longrightarrow> new_decisions_warming s u"
  unfolding new_decisions_warming_def by blast

lemma abandoned_run:
  assumes "(lc_step tm)\<^sup>*\<^sup>* s s'" "abandoned s"
  shows "abandoned s' \<and> sy_wakes s' = sy_wakes s \<and> new_decisions_warming s s'"
  using assms
proof (induction rule: rtranclp_induct)
  case base
  then show ?case by (simp add: new_decisions_warming_refl)
next
  case (step t u)
  then have "abandoned t" "sy_wakes t = sy_wakes s" "new_decisions_warming s t" by blast+
  with abandoned_step [OF step.hyps(2)] show ?case
    by (metis new_decisions_warming_trans)
qed


section \<open>The lease field\<close>

text \<open>Every status in the system carries the lease expiry the manager was created with.\<close>

fun task_statuses :: "task \<Rightarrow> backend_status list" where
  "task_statuses (TCheck r st) = [st]"
| "task_statuses (TJoin r st) = [st]"
| "task_statuses (TObserveReq r st v) = [st]"
| "task_statuses (TObserve ob v) = [o_status ob]"
| "task_statuses (TReady st) = [st]"
| "task_statuses (TFinish st eo d) = [st, decision_status d]"
| "task_statuses (TWaitLock st v dl) = [st]"
| "task_statuses (TDone d) = [decision_status d]"
| "task_statuses (BRead dl st) = [st]"
| "task_statuses (BObserve dl ob) = [o_status ob]"
| "task_statuses (BFinish st eo) = [st]"
| "task_statuses (TDegrade rs st) = [st]"
| "task_statuses (TMark st) = [st]"
| "task_statuses _ = []"

definition same_lease :: "timestamp option \<Rightarrow> sys \<Rightarrow> bool" where
  "same_lease l s = (bs_lease_expires_at (co_status (sy_core s)) = l
     \<and> (\<forall>i. \<forall>st \<in> set (task_statuses (sy_tasks s i)). bs_lease_expires_at st = l))"

lemma same_lease_update:
  assumes "same_lease l s" "bs_lease_expires_at (co_status (sy_core s')) = l"
    and "\<forall>st \<in> set (task_statuses t). bs_lease_expires_at st = l" "sy_tasks s' = (sy_tasks s)(i := t)"
  shows "same_lease l s'"
  using assms by (auto simp: same_lease_def)

lemma same_lease_core: "same_lease l s \<Longrightarrow> bs_lease_expires_at (co_status (sy_core s)) = l"
  and same_lease_task: "same_lease l s \<Longrightarrow> sy_tasks s i = t \<Longrightarrow>
    \<forall>st \<in> set (task_statuses t). bs_lease_expires_at st = l"
  by (auto simp: same_lease_def)

lemma obs_step_lease:
  "obs_step tm t ob a = Some (Finished d) \<Longrightarrow>
     bs_lease_expires_at (decision_status d) = bs_lease_expires_at (o_status ob)"
  by (cases "o_pc ob"; cases a)
    (auto simp: obs_step_def obs_warming_def apply_observed_def Let_def
      elim!: after_ssh.elims after_wake.elims after_helper.elims after_tunnel.elims
      split: if_splits option.splits)

lemma wait_check_lease:
  "wait_check tm dl v = Some d \<Longrightarrow> bs_lease_expires_at (decision_status d) = bs_lease_expires_at (wv_status v)"
  by (auto simp: wait_check_def bootstrap_wait_status_def Let_def split: if_splits)

lemma same_lease_step:
  assumes "lc_step tm s s'" "same_lease l s"
  shows "same_lease l s'"
  using assms
proof (induction rule: lc_step.induct)
  case (observe_warming s i ob v t a st n j)
  then show ?case
    using obs_step_lease [OF observe_warming.hyps(2)] same_lease_task [OF observe_warming.prems observe_warming.hyps(1)]
    by (auto simp: same_lease_def)
next
  case (tick s d)
  then show ?case by (simp add: same_lease_def)
next
  case (drop s i)
  then show ?case by (simp add: same_lease_def)
next
  case (wait_decide s i st v dl d)
  then show ?case
    using wait_check_lease [OF wait_decide.hyps(2)] same_lease_task [OF wait_decide.prems wait_decide.hyps(1)]
    by (intro same_lease_update [OF wait_decide.prems]) (auto simp: view_at_def dest: same_lease_core)
next
  case (boot_start s i t)
  then show ?case
    by (intro same_lease_update [OF boot_start.prems]) (auto dest: same_lease_core)
qed (frule same_lease_core, frule (1) same_lease_task, rule same_lease_update, assumption,
     auto simp: bootstrap_wait_status_def obs_init_def
       dest: obs_step_lease obs_step_running start_or_join_True start_or_join_False)+

lemma same_lease_init: "same_lease (bs_lease_expires_at initial) (sys_init initial)"
  by (simp add: same_lease_def sys_init_def core_new_def)

lemma reachable_same_lease: "lc_reachable tm initial s \<Longrightarrow> same_lease (bs_lease_expires_at initial) s"
  by (induction rule: lc_reachable.induct) (blast intro: same_lease_init same_lease_step)+

section \<open>Properties\<close>

text \<open>
  A concrete run for the witnesses: one chat request on a cold manager starts a bootstrap, finds
  the host asleep and sends a wake request.
\<close>

definition run_started :: sys where
  "run_started = \<lparr>sy_core = \<lparr>co_status = backend_status_default, co_version = 0,
       co_bootstrap = \<lparr>bt_active = True, bt_last_error = None, bt_observe_request = Chat\<rparr>\<rparr>,
     sy_clock = 0, sy_tasks = (\<lambda>_. TIdle)(0 := TObserveReq Chat backend_status_default 0),
     sy_starts = 1, sy_finishes = 0, sy_wakes = []\<rparr>"

definition run_woken :: sys where
  "run_woken = run_started\<lparr>sy_tasks := (\<lambda>_. TIdle)(0 := TObserve
       \<lparr>o_wake = Some Chat, o_request = Chat,
        o_status = backend_status_default\<lparr>bs_last_wake_attempt_at := Some 1000\<rparr>, o_pc = AtWake\<rparr> 0),
     sy_wakes := [Chat]\<rparr>"

definition run_dropped :: sys where
  "run_dropped = run_started\<lparr>sy_tasks := (\<lambda>_. TIdle)(0 := TDropped)\<rparr>"

lemma run_started_reachable: "lc_reachable tm backend_status_default run_started"
proof -
  let ?b = backend_status_default
  let ?s0 = "sys_init ?b"
  have s1: "lc_reachable tm ?b (set_task 0 (TStart Chat) ?s0)"
    by (rule lc_reachable.step [OF lc_reachable.init]) (rule lc_step.arrive, simp add: sys_init_def)
  have s2: "lc_reachable tm ?b (set_task 0 (TCheck Chat ?b) ?s0)"
    using lc_reachable.step [OF s1 lc_step.borrow [of _ 0 Chat]] by (simp add: sys_init_def core_new_def)
  have s3: "lc_reachable tm ?b (set_task 0 (TJoin Chat ?b) ?s0)"
    using lc_reachable.step [OF s2 lc_step.check_other [of _ 0 Chat ?b]]
    by (simp add: sys_init_def backend_is_ready_def backend_status_default_def)
  show ?thesis
    using lc_reachable.step [OF s3 lc_step.join_start [of _ 0 Chat ?b
          "\<lparr>co_status = ?b, co_version = 0,
            co_bootstrap = \<lparr>bt_active = True, bt_last_error = None, bt_observe_request = Chat\<rparr>\<rparr>"]]
    by (simp add: sys_init_def core_new_def bootstrap_default_def run_started_def start_or_join_idle)
qed

lemma run_woken_reachable: "lc_reachable tm backend_status_default run_woken"
proof -
  let ?b = backend_status_default
  have s1: "lc_reachable tm ?b (set_task 0 (TObserve (obs_init (Some Chat) Chat ?b) 0) run_started)"
    using lc_reachable.step [OF run_started_reachable lc_step.observe_request [of _ 0 Chat ?b 0]]
    by (simp add: run_started_def)
  have "obs_step tm 1000 (obs_init (Some Chat) Chat ?b) (ASsh (Inr False)) = Some (Running
      \<lparr>o_wake = Some Chat, o_request = Chat,
        o_status = ?b\<lparr>bs_last_wake_attempt_at := Some 1000\<rparr>, o_pc = AtWake\<rparr>)"
    by (simp add: obs_step_def obs_init_def should_request_wake_def backend_status_default_def)
  from lc_reachable.step [OF s1 lc_step.observe_continue [OF _ this, of _ 0 0]] show ?thesis
    by (simp add: run_started_def run_woken_def wake_sent_def)
qed

lemma run_dropped_reachable: "lc_reachable tm backend_status_default run_dropped"
  using lc_reachable.step [OF run_started_reachable lc_step.drop [of _ 0]]
  by (simp add: run_started_def run_dropped_def droppable_def)

lemma run_dropped_abandoned: "abandoned run_dropped"
  by (simp add: run_dropped_def run_started_def abandoned_def)

text \<open>
  C3: In every reachable state of the manager, with any number of concurrent requests, at most
  one task is driving a bootstrap, and while one does the bootstrap is marked active: cold
  requests share a single bootstrap.
\<close>

theorem single_bootstrap_driver:
  assumes "lc_reachable tm initial s" "driver (sy_tasks s i)" "driver (sy_tasks s j)"
  shows "i = j \<and> bt_active (co_bootstrap (sy_core s))"
  using reachable_one_driver [OF assms(1)] assms(2,3) unfolding one_driver_def by blast

lemma single_bootstrap_driver_witness:
  "(0::nat) = 0 \<and> bt_active (co_bootstrap (sy_core run_woken))"
  using single_bootstrap_driver [OF run_woken_reachable [of default_timing], of 0 0]
  by (simp add: run_woken_def)

text \<open>
  C4: Wake requests are sent at most once per bootstrap: in every reachable state their number
  is at most the number of bootstraps started, which exceeds the number finished by one exactly
  while a bootstrap is active. Background polling never sends one.
\<close>

theorem one_wake_per_bootstrap:
  assumes "lc_reachable tm initial s"
  shows "length (sy_wakes s) \<le> sy_starts s
    \<and> sy_starts s = sy_finishes s + (if bt_active (co_bootstrap (sy_core s)) then 1 else 0)"
  using reachable_wake_budget [OF assms] unfolding wake_budget_def of_bool_def by simp

lemma one_wake_per_bootstrap_witness:
  "length (sy_wakes run_woken) \<le> sy_starts run_woken \<and> sy_wakes run_woken = [Chat] \<and> sy_starts run_woken = 1"
  using one_wake_per_bootstrap [OF run_woken_reachable [of default_timing]]
  by (simp add: run_woken_def run_started_def)

text \<open>
  C15: In every reachable state, starting from a coherent status, the published status is
  coherent (the lifecycle is ready exactly when the tunnel is), and every request that has
  returned \<open>Ready\<close> returned a status that is ready.
\<close>

theorem published_status_coherent:
  assumes "lc_reachable tm initial s" "coherent initial"
  shows "(bs_lifecycle (co_status (sy_core s)) = LsReady) = (bs_tunnel (co_status (sy_core s)) = TsReady)
    \<and> (\<forall>i st. sy_tasks s i = TDone (DReady st) \<longrightarrow> backend_is_ready st)"
proof -
  have ok: "sys_ok s" using assms by (rule reachable_sys_ok)
  have "backend_is_ready st" if "sy_tasks s i = TDone (DReady st)" for i st
    using sys_ok_task [OF ok that] by (simp add: decision_sound_def)
  with sys_ok_status [OF ok] show ?thesis by (auto simp: coherent_def)
qed

lemma published_status_coherent_witness:
  "(bs_lifecycle (co_status (sy_core run_woken)) = LsReady) = (bs_tunnel (co_status (sy_core run_woken)) = TsReady)"
  using published_status_coherent [OF run_woken_reachable [of default_timing]] by simp

text \<open>
  C2: If a request is dropped while it drives a bootstrap, from the moment it starts it until
  its first observation has ended, then from the drop on, along every run, the bootstrap stays
  active with no task left to finish it, no wake request is ever sent again, and every request
  that still returns gets \<open>Warming\<close>: the manager never recovers.
\<close>

theorem abandoned_bootstrap_is_permanent:
  assumes "lc_reachable tm initial s" "driver (sy_tasks s i)"
    and "lc_step tm s s'" "sy_tasks s' i = TDropped"
    and "(lc_step tm)\<^sup>*\<^sup>* s' t"
  shows "bt_active (co_bootstrap (sy_core t)) \<and> (\<forall>k. \<not> driver (sy_tasks t k)) \<and> sy_wakes t = sy_wakes s
    \<and> (\<forall>k d. sy_tasks t k = TDone d \<longrightarrow> sy_tasks s k = TDone d \<or> (\<exists>st n. d = DWarming st n))"
proof -
  have one: "one_driver s" using assms(1) by (rule reachable_one_driver)
  have s': "s' = set_task i TDropped s" using assms(2-4) by (rule driver_dropped)
  have "abandoned s'" using one assms(2) by (auto simp: s' abandoned_def one_driver_def)
  from abandoned_run [OF assms(5) this] show ?thesis
    by (auto simp: s' abandoned_def new_decisions_warming_def split: if_splits)
qed

lemma abandoned_bootstrap_is_permanent_witness:
  "\<exists>s'. lc_step default_timing run_dropped s' \<and>
     bt_active (co_bootstrap (sy_core s')) \<and> (\<forall>i. \<not> driver (sy_tasks s' i)) \<and> sy_wakes s' = []"
proof -
  let ?s' = "run_dropped\<lparr>sy_clock := sy_clock run_dropped + 300000\<rparr>"
  have st: "lc_step default_timing run_dropped ?s'" by (rule lc_step.tick)
  have drive: "driver (sy_tasks run_started 0)" "sy_tasks run_dropped 0 = TDropped"
    by (simp_all add: run_started_def run_dropped_def)
  have dropped: "lc_step default_timing run_started run_dropped"
    using lc_step.drop [of run_started 0 default_timing]
    by (simp add: run_started_def run_dropped_def droppable_def)
  from abandoned_bootstrap_is_permanent [OF run_started_reachable drive(1) dropped drive(2)
      r_into_rtranclp [of "lc_step default_timing", OF st]]
  have "bt_active (co_bootstrap (sy_core ?s')) \<and> (\<forall>i. \<not> driver (sy_tasks ?s' i)) \<and> sy_wakes ?s' = []"
    by (simp add: run_started_def)
  with st show ?thesis by blast
qed

text \<open>
  No step bounds an observation: while a call to the host does not return (\<open>ssh\<close> is run without
  a timeout), the bootstrap stays where it is and active, any time after its deadline.
\<close>

lemma hung_call_outlives_deadline:
  assumes "lc_reachable tm initial s" "sy_tasks s i = BObserve dl ob"
  shows "\<exists>s'. lc_reachable tm initial s' \<and> sy_tasks s' = sy_tasks s \<and> dl + n \<le> sy_clock s' \<and> active s'"
proof -
  let ?s = "s\<lparr>sy_clock := sy_clock s + (dl + n)\<rparr>"
  have "lc_reachable tm initial ?s" by (rule lc_reachable.step [OF assms(1) lc_step.tick])
  moreover have "driver (sy_tasks s i)" using assms(2) by simp
  with reachable_one_driver [OF assms(1)] have "active s" unfolding one_driver_def by blast
  ultimately show ?thesis by (intro exI [of _ ?s]) simp
qed

text \<open>
  The proxy never records a lease: in every reachable state the published status, and every
  decision returned, carries the lease expiry the manager was created with (for the program's
  own managers none).
\<close>

theorem lease_expiry_never_set:
  assumes "lc_reachable tm initial s"
  shows "bs_lease_expires_at (co_status (sy_core s)) = bs_lease_expires_at initial
    \<and> (\<forall>i d. sy_tasks s i = TDone d \<longrightarrow> bs_lease_expires_at (decision_status d) = bs_lease_expires_at initial)"
proof -
  have sl: "same_lease (bs_lease_expires_at initial) s" using assms by (rule reachable_same_lease)
  have "bs_lease_expires_at (decision_status d) = bs_lease_expires_at initial"
    if "sy_tasks s i = TDone d" for i d
    using same_lease_task [OF sl that] by simp
  with same_lease_core [OF sl] show ?thesis by blast
qed

lemma lease_expiry_never_set_witness:
  "bs_lease_expires_at (co_status (sy_core run_woken)) = None"
  using lease_expiry_never_set [OF run_woken_reachable [of default_timing]]
  by (simp add: backend_status_default_def)

text \<open>
  The step-by-step observation of the concurrent model and the straight-line
  \<open>observe_once\<close> are the same function: answering each suspension point from the ports ends,
  within three answers, in the same decision, the same published core and the same world.
\<close>

theorem observation_steps_refine_observe_once:
  "case observe_once P tm wr r s c w of (d, c', w') \<Rightarrow>
     obs_run 3 P tm (obs_init wr r s) w = Some (d, w')
     \<and> c' = (case d of DFailed st e \<Rightarrow> c | _ \<Rightarrow> publish (decision_status d) c)"
proof -
  obtain d c' w' where eq: "observe_once P tm wr r s c w = (d, c', w')"
    by (metis prod_cases3)
  from obs_run_observe_once [OF eq] eq show ?thesis
    by (simp add: published_def)
qed

end
