(* ===== verification/Bootstrap.thy ===== *)
theory Bootstrap
  imports Lifecycle_System
begin

text \<open>
  What a lifecycle manager promises about its bootstrap, as a machine of three states, and the
  proof that the concurrent manager (\<open>Lifecycle_System\<close>) implements it: no bootstrap, one that
  a task drives, and one that has been lost. The machine also keeps the numbers of bootstraps
  started and finished.
\<close>

section \<open>The abstract machine\<close>

datatype boot_state = NoBoot | Driven | Lost

record boot =
  bo_state :: boot_state
  bo_starts :: nat
  bo_finishes :: nat

definition boot_init :: boot where
  "boot_init = \<lparr>bo_state = NoBoot, bo_starts = 0, bo_finishes = 0\<rparr>"

inductive boot_step :: "boot \<Rightarrow> boot \<Rightarrow> bool" where
  starts: "bo_state b = NoBoot \<Longrightarrow>
     boot_step b (b\<lparr>bo_state := Driven, bo_starts := Suc (bo_starts b)\<rparr>)"
| finishes: "bo_state b = Driven \<Longrightarrow>
     boot_step b (b\<lparr>bo_state := NoBoot, bo_finishes := Suc (bo_finishes b)\<rparr>)"
| driver_lost: "bo_state b = Driven \<Longrightarrow> boot_step b (b\<lparr>bo_state := Lost\<rparr>)"

inductive_cases boot_stepE: "boot_step b b'"

text \<open>A lost bootstrap is the end; otherwise the finished ones are all or all but the last.\<close>

definition boot_inv :: "boot \<Rightarrow> bool" where
  "boot_inv b = (bo_starts b = bo_finishes b + (case bo_state b of NoBoot \<Rightarrow> 0 | _ \<Rightarrow> 1))"

lemma boot_inv_init: "boot_inv boot_init"
  by (simp add: boot_inv_def boot_init_def)

lemma boot_inv_step: "boot_step b b' \<Longrightarrow> boot_inv b \<Longrightarrow> boot_inv b'"
  by (auto simp: boot_inv_def elim!: boot_stepE)

lemma lost_final: "boot_step b b' \<Longrightarrow> bo_state b \<noteq> Lost"
  by (auto elim!: boot_stepE)

section \<open>The manager seen as the machine\<close>

definition boot_of :: "sys \<Rightarrow> boot" where
  "boot_of s = \<lparr>bo_state = (if \<not> active s then NoBoot else if \<exists>i. driver (sy_tasks s i) then Driven else Lost),
     bo_starts = sy_starts s, bo_finishes = sy_finishes s\<rparr>"

lemma boot_of_same:
  assumes "active s' = active s" "(\<exists>i. driver (sy_tasks s' i)) = (\<exists>i. driver (sy_tasks s i))"
    and "sy_starts s' = sy_starts s" "sy_finishes s' = sy_finishes s"
  shows "boot_of s' = boot_of s"
  using assms by (simp add: boot_of_def)

text \<open>A task that changes into one of the same kind leaves the bootstrap as it is.\<close>

lemma boot_of_update:
  assumes "sy_tasks s' = (sy_tasks s)(i := t)" "driver t = driver (sy_tasks s i)"
    and "active s' = active s" "sy_starts s' = sy_starts s" "sy_finishes s' = sy_finishes s"
  shows "boot_of s' = boot_of s"
proof (rule boot_of_same [OF assms(3) _ assms(4,5)])
  have "driver (sy_tasks s' k) = driver (sy_tasks s k)" for k using assms(1,2) by simp
  then show "(\<exists>i. driver (sy_tasks s' i)) = (\<exists>i. driver (sy_tasks s i))" by simp
qed

lemma boot_start:
  assumes "start_or_join_bootstrap r (sy_core s) = (True, c)" "driver t"
  shows "boot_step (boot_of s) (boot_of (set_task i t (set_core c (s\<lparr>sy_starts := Suc (sy_starts s)\<rparr>))))"
proof -
  let ?s' = "set_task i t (set_core c (s\<lparr>sy_starts := Suc (sy_starts s)\<rparr>))"
  have "\<exists>k. driver (sy_tasks ?s' k)" using assms(2) by (intro exI [of _ i]) simp
  then have "boot_of ?s' = (boot_of s)\<lparr>bo_state := Driven, bo_starts := Suc (bo_starts (boot_of s))\<rparr>"
    using start_or_join_True [OF assms(1)] by (auto simp: boot_of_def)
  moreover have "bo_state (boot_of s) = NoBoot"
    using start_or_join_True [OF assms(1)] by (simp add: boot_of_def)
  ultimately show ?thesis using boot_step.starts by metis
qed

lemma finish_inactive: "\<not> bt_active (co_bootstrap (finish_bootstrap st eo c))"
  by (simp add: finish_bootstrap_def Let_def)

lemma boot_finish:
  assumes "one_driver s" "driver (sy_tasks s i)"
  shows "boot_step (boot_of s) (boot_of (set_task i t
    (set_core (finish_bootstrap st eo (sy_core s)) (s\<lparr>sy_finishes := Suc (sy_finishes s)\<rparr>))))"
proof -
  let ?s' = "set_task i t (set_core (finish_bootstrap st eo (sy_core s)) (s\<lparr>sy_finishes := Suc (sy_finishes s)\<rparr>))"
  have "bo_state (boot_of s) = Driven" using assms by (auto simp: boot_of_def one_driver_def)
  moreover have "boot_of ?s' = (boot_of s)\<lparr>bo_state := NoBoot, bo_finishes := Suc (bo_finishes (boot_of s))\<rparr>"
    by (simp add: boot_of_def finish_inactive)
  ultimately show ?thesis using boot_step.finishes by metis
qed

lemma boot_drop:
  assumes "one_driver s"
  shows "boot_of (set_task i TDropped s) = boot_of s
    \<or> driver (sy_tasks s i) \<and> boot_step (boot_of s) (boot_of (set_task i TDropped s))"
proof (cases "driver (sy_tasks s i)")
  case True
  then have s: "bo_state (boot_of s) = Driven" "active s" using assms by (auto simp: boot_of_def one_driver_def)
  have "\<not> driver (sy_tasks (set_task i TDropped s) k)" for k
    using True assms by (auto simp: one_driver_def)
  with s(2) have "boot_of (set_task i TDropped s) = (boot_of s)\<lparr>bo_state := Lost\<rparr>"
    by (auto simp: boot_of_def)
  with boot_step.driver_lost [OF s(1)] True show ?thesis by simp
next
  case False
  then show ?thesis by (intro disjI1 boot_of_update [of _ _ i TDropped]) simp_all
qed

text \<open>
  Every step of the manager is a step of the machine or not seen; and the machine loses its
  driver only when the request that drives the bootstrap is dropped.
\<close>

lemma lc_step_boot:
  assumes "lc_step tm s s'" "one_driver s"
  shows "boot_of s' = boot_of s \<or> boot_step (boot_of s) (boot_of s')
    \<and> (bo_state (boot_of s') = Lost \<longrightarrow> (\<exists>i. driver (sy_tasks s i) \<and> sy_tasks s' i = TDropped))"
  using assms
proof (induction rule: lc_step.induct)
  case (join_start s i r st c)
  have "boot_step (boot_of s) (boot_of (set_task i (TObserveReq r st (co_version c))
      (set_core c (s\<lparr>sy_starts := Suc (sy_starts s)\<rparr>))))"
    by (rule boot_start [OF join_start.hyps(2)]) simp
  moreover from this have "bo_state (boot_of (set_task i (TObserveReq r st (co_version c))
      (set_core c (s\<lparr>sy_starts := Suc (sy_starts s)\<rparr>)))) \<noteq> Lost"
    by (auto simp: boot_of_def split: if_splits)
  ultimately show ?case by blast
next
  case (join_wait s i r st c)
  then show ?case
    using start_or_join_False [OF join_wait.hyps(2)]
    by (intro disjI1 boot_of_update [where i = i
          and t = "TWait (co_version c) (sy_clock s + 1000 * unat (cold_wait_budget_secs tm))"]) simp_all
next
  case (finish s i st eo d)
  then have "driver (sy_tasks s i)" by simp
  from boot_finish [OF finish.prems this] show ?case by (simp add: boot_of_def finish_inactive)
next
  case (boot_finish s i st eo)
  then have "driver (sy_tasks s i)" by simp
  from Bootstrap.boot_finish [OF boot_finish.prems this] show ?case by (simp add: boot_of_def finish_inactive)
next
  case (drop s i)
  from boot_drop [OF drop.prems, of i] show ?case by auto
next
  case (observe_warming s i ob v t a st n j)
  let ?s' = "set_task j BStart (set_task i (TWait v (sy_clock s + 1000 * unat (cold_wait_budget_secs tm)))
      (set_core (publish st (sy_core s)) s))"
  have "driver (sy_tasks s i)" "driver (sy_tasks ?s' j)" using observe_warming.hyps by simp_all
  then have "(\<exists>k. driver (sy_tasks ?s' k)) = (\<exists>k. driver (sy_tasks s k))" by blast
  then show ?case by (intro disjI1 boot_of_same) (simp, assumption, simp_all)
next
  case (tick s d)
  then show ?case by (intro disjI1 boot_of_same) simp_all
qed (rule disjI1, rule boot_of_update, (simp; fail)+)+

text \<open>The simulation, on the reachable states.\<close>

definition reachable_step :: "lifecycle_timing \<Rightarrow> sys \<Rightarrow> sys \<Rightarrow> bool" where
  "reachable_step tm s s' = (one_driver s \<and> lc_step tm s s')"

lemma boot_of_init: "boot_of (sys_init st) = boot_init"
  by (simp add: boot_of_def boot_init_def sys_init_def core_new_def bootstrap_default_def)

interpretation manager_boot: simulation "\<lambda>s. s = sys_init st" "reachable_step tm" boot_of
    "\<lambda>b. b = boot_init" boot_step
  for st :: backend_status and tm :: lifecycle_timing
  by unfold_locales (auto simp: boot_of_init reachable_step_def dest: lc_step_boot)

lemma reachable_steps: "lc_reachable tm st s \<Longrightarrow> (reachable_step tm)\<^sup>*\<^sup>* (sys_init st) s"
proof (induction rule: lc_reachable.induct)
  case init
  show ?case by simp
next
  case (step s s')
  then have "reachable_step tm s s'"
    using reachable_one_driver [OF step.hyps(1)] by (simp add: reachable_step_def)
  with step.IH show ?case by (rule rtranclp.rtrancl_into_rtrancl)
qed

lemma reachable_boot_inv: "lc_reachable tm st s \<Longrightarrow> boot_inv (boot_of s)"
  using manager_boot.invariant_view [OF refl reachable_steps, where I = boot_inv]
    boot_inv_init boot_inv_step by blast

section \<open>Properties\<close>

text \<open>
  C9: The lifecycle manager refines the machine of three states. In every reachable state each
  step of the manager, whichever task takes it, leaves the bootstrap as it was, starts one when
  there is none, finishes the one that is driven, or loses its driver; and the last happens
  only when the task that drives it is dropped. A bootstrap whose driver stays is never lost.
\<close>

theorem manager_refines_boot:
  assumes "lc_reachable tm initial s" "lc_step tm s s'"
  shows "boot_of s' = boot_of s \<or> boot_step (boot_of s) (boot_of s')
    \<and> (bo_state (boot_of s') = Lost \<longrightarrow> (\<exists>i. driver (sy_tasks s i) \<and> sy_tasks s' i = TDropped))"
  using lc_step_boot [OF assms(2) reachable_one_driver [OF assms(1)]] .

theorem manager_refines_boot_witness:
  "boot_step (boot_of run_started) (boot_of run_dropped) \<and> bo_state (boot_of run_dropped) = Lost"
proof -
  have "lc_step default_timing run_started run_dropped"
    using lc_step.drop [of run_started 0] by (simp add: run_started_def run_dropped_def droppable_def)
  from manager_refines_boot [OF run_started_reachable this] show ?thesis
    by (auto simp: boot_of_def run_started_def run_dropped_def split: if_splits)
qed

end
