(* ===== verification/Lifecycle_Sequential.thy ===== *)
theory Lifecycle_Sequential
  imports Lifecycle_System
begin

text \<open>
  The sequential code of \<open>Lifecycle\<close> is an execution of the concurrent system of
  \<open>Lifecycle_System\<close>: an observation, the background bootstrap, and a whole \<open>ensure_backend\<close>
  whose surroundings are the bootstrap that it spawned itself. The ports answer, the clock
  moves by what their calls take, and every task that is not concerned stays where it is.
\<close>

section \<open>States that stand for sequential ones\<close>

definition stands_for :: "sys \<Rightarrow> core \<Rightarrow> 'e world \<Rightarrow> bool" where
  "stands_for s c w = (sy_core s = c \<and> sy_clock s = clock w)"

definition untouched :: "nat set \<Rightarrow> sys \<Rightarrow> sys \<Rightarrow> bool" where
  "untouched I s s' = (\<forall>k. k \<notin> I \<longrightarrow> sy_tasks s' k = sy_tasks s k)"

text \<open>
  A step that the manager makes by itself: no call begins, none is dropped, no time passes. A
  lone step is one of these, or time passes.
\<close>

definition on_its_own :: "sys \<Rightarrow> sys \<Rightarrow> bool" where
  "on_its_own l l' = (sy_clock l' = sy_clock l
     \<and> (\<forall>j. sy_tasks l j = TIdle \<longrightarrow> sy_tasks l' j = TIdle \<or> sy_tasks l' j = BStart)
     \<and> (\<forall>j. sy_tasks l' j = TDropped \<longrightarrow> sy_tasks l j = TDropped))"

definition lone_step :: "lifecycle_timing \<Rightarrow> sys \<Rightarrow> sys \<Rightarrow> bool" where
  "lone_step tm s s' = (lc_step tm s s' \<and> on_its_own s s' \<or> (\<exists>d. s' = s\<lparr>sy_clock := sy_clock s + d\<rparr>))"

definition moves :: "nat \<Rightarrow> sys \<Rightarrow> sys \<Rightarrow> bool" where
  "moves i s s' = (untouched {i} s s' \<and> on_its_own s s')"

lemma lone_steps_lc: "(lone_step tm)\<^sup>*\<^sup>* s s' \<Longrightarrow> (lc_step tm)\<^sup>*\<^sup>* s s'"
  by (rule rtranclp_mono [THEN predicate2D, rotated]) (auto simp: lone_step_def lc_step.tick)

text \<open>A run that moves task \<open>i\<close> only, to \<open>t\<close>, and reaches the given sequential state.\<close>

definition runs_to :: "lifecycle_timing \<Rightarrow> nat \<Rightarrow> sys \<Rightarrow> task \<Rightarrow> core \<Rightarrow> 'e world \<Rightarrow> sys \<Rightarrow> bool" where
  "runs_to tm i s t c w s' = ((lone_step tm)\<^sup>*\<^sup>* s s' \<and> sy_tasks s' i = t \<and> stands_for s' c w \<and> untouched {i} s s')"

lemma stands_for_simps [simp]:
  "stands_for (set_task i t s) c w = stands_for s c w"
  "stands_for (set_core c' s) c w \<longleftrightarrow> c' = c \<and> sy_clock s = clock w"
  "stands_for (s\<lparr>sy_wakes := ws\<rparr>) c w = stands_for s c w"
  "stands_for (s\<lparr>sy_starts := n\<rparr>) c w = stands_for s c w"
  "stands_for (s\<lparr>sy_finishes := n\<rparr>) c w = stands_for s c w"
  by (simp_all add: stands_for_def)

lemma runs_to_refl: "sy_tasks s i = t \<Longrightarrow> stands_for s c w \<Longrightarrow> runs_to tm i s t c w s"
  by (simp add: runs_to_def untouched_def)

lemma runs_to_step:
  assumes "lc_step tm s s1" "moves i s s1" "runs_to tm i s1 t c w s'"
  shows "runs_to tm i s t c w s'"
  using assms
  by (auto simp: runs_to_def moves_def untouched_def lone_step_def intro: converse_rtranclp_into_rtranclp)

lemma runs_to_trans:
  assumes "runs_to tm i s t c w s1" "runs_to tm i s1 t' c' w' s2"
  shows "runs_to tm i s t' c' w' s2"
  using assms by (auto simp: runs_to_def untouched_def)

text \<open>Time passes by itself: the clock may move to any later time.\<close>

lemma runs_to_later:
  assumes "sy_tasks s i = t" "stands_for s c w" "clock w \<le> clock w'"
  shows "runs_to tm i s t c w' (s\<lparr>sy_clock := clock w'\<rparr>)"
proof -
  have "lone_step tm s (s\<lparr>sy_clock := sy_clock s + (clock w' - clock w)\<rparr>)" by (auto simp: lone_step_def)
  with assms show ?thesis
    by (auto simp: runs_to_def stands_for_def untouched_def)
qed

section \<open>An observation\<close>

lemma ask_clock: "ask P ob w = (a, w') \<Longrightarrow> clock w \<le> clock w'"
  by (auto simp: ask_def call_def map_prod_def split: obs_pc.splits option.splits prod.splits)

text \<open>
  \<open>wrap\<close> makes a task of an observation: a request that observes, or the bootstrap.
\<close>

definition observes :: "lifecycle_timing \<Rightarrow> nat \<Rightarrow> (obs \<Rightarrow> task) \<Rightarrow> bool" where
  "observes tm i wrap = ((\<forall>ob. wrap ob \<noteq> TIdle \<and> wrap ob \<noteq> TDropped) \<and> (\<forall>s ob t a ob'. sy_tasks s i = wrap ob \<longrightarrow> obs_step tm t ob a = Some (Running ob')
     \<longrightarrow> lc_step tm s (set_task i (wrap ob') (s\<lparr>sy_wakes := sy_wakes s @ wake_sent ob'\<rparr>))))"

lemma request_observes: "observes tm i (\<lambda>ob. TObserve ob v)"
  unfolding observes_def by (intro conjI allI impI lc_step.observe_continue) simp_all

lemma bootstrap_observes: "observes tm i (BObserve dl)"
  unfolding observes_def by (intro conjI allI impI lc_step.boot_continue) simp_all

lemma obs_run_steps:
  assumes "obs_run n P tm ob w = Some (d, w')"
    and "observes tm i wrap"
    and "sy_tasks s i = wrap ob" "stands_for s c w"
  shows "\<exists>s1 ob1 t a. runs_to tm i s (wrap ob1) c w' s1 \<and> obs_step tm t ob1 a = Some (Finished d)"
  using assms(1,3,4)
proof (induction n arbitrary: ob w s)
  case 0
  then show ?case by simp
next
  case (Suc n)
  obtain a w1 where ask: "ask P ob w = (a, w1)" by fastforce
  with Suc.prems(1) obtain res where res: "obs_step tm (now P w1) ob a = Some res"
    by (auto split: option.splits)
  define s1 where "s1 = s\<lparr>sy_clock := clock w1\<rparr>"
  have wait: "runs_to tm i s (wrap ob) c w1 s1"
    unfolding s1_def using Suc.prems(2,3) ask_clock [OF ask] by (rule runs_to_later)
  then have s1: "sy_tasks s1 i = wrap ob" "stands_for s1 c w1" by (simp_all add: runs_to_def)
  show ?case
  proof (cases res)
    case (Finished d')
    with Suc.prems(1) ask res have "d' = d" "w1 = w'" by auto
    with wait res Finished show ?thesis by blast
  next
    case (Running ob')
    let ?s2 = "set_task i (wrap ob') (s1\<lparr>sy_wakes := sy_wakes s1 @ wake_sent ob'\<rparr>)"
    from Running Suc.prems(1) ask res have run: "obs_run n P tm ob' w1 = Some (d, w')" by simp
    have step: "lc_step tm s1 ?s2" using assms(2) s1(1) res Running unfolding observes_def by metis
    have "sy_tasks ?s2 i = wrap ob'" "stands_for ?s2 c w1" using s1(2) by (simp_all add: stands_for_def)
    from Suc.IH [OF run this] obtain s3 ob1 t a' where
      rest: "runs_to tm i ?s2 (wrap ob1) c w' s3" "obs_step tm t ob1 a' = Some (Finished d)" by blast
    have "moves i s1 ?s2" using s1(1) assms(2) by (simp add: moves_def untouched_def on_its_own_def observes_def)
    from runs_to_trans [OF wait runs_to_step [OF step this rest(1)]] rest(2) show ?thesis by blast
  qed
qed

lemma observe_once_steps:
  assumes "observe_once P tm wr r st c w = (d, c', w')"
    and "observes tm i wrap"
    and "sy_tasks s i = wrap (obs_init wr r st)" "stands_for s c w"
  shows "\<exists>s1 ob1 t a. runs_to tm i s (wrap ob1) c w' s1 \<and> obs_step tm t ob1 a = Some (Finished d)
    \<and> c' = published d c"
  using obs_run_observe_once [OF assms(1)] obs_run_steps [OF _ assms(2-4)] by blast

section \<open>The background bootstrap\<close>

definition reaches :: "lifecycle_timing \<Rightarrow> nat \<Rightarrow> sys \<Rightarrow> task \<Rightarrow> core \<Rightarrow> 'e world \<Rightarrow> bool" where
  "reaches tm i s t c w = (\<exists>s'. runs_to tm i s t c w s')"

lemma reaches_refl: "sy_tasks s i = t \<Longrightarrow> stands_for s c w \<Longrightarrow> reaches tm i s t c w"
  unfolding reaches_def using runs_to_refl by blast

lemma reaches_step:
  "lc_step tm s s1 \<Longrightarrow> reaches tm i s1 t c w \<Longrightarrow> moves i s s1 \<Longrightarrow> reaches tm i s t c w"
  unfolding reaches_def using runs_to_step by blast

lemma reaches_trans: "runs_to tm i s t c w s1 \<Longrightarrow> reaches tm i s1 t' c' w' \<Longrightarrow> reaches tm i s t' c' w'"
  unfolding reaches_def using runs_to_trans by blast

lemmas move_defs = moves_def untouched_def on_its_own_def

lemma finish_steps:
  assumes "sy_tasks s i = BFinish st eo" "stands_for s c w"
  shows "reaches tm i s BDone (finish_bootstrap st eo c) w"
  by (rule reaches_step [OF lc_step.boot_finish [OF assms(1)]], rule reaches_refl)
    (use assms in \<open>simp_all add: stands_for_def move_defs\<close>)

lemma observed_steps:
  assumes "sy_tasks s i = BObserve dl ob" "obs_step tm t ob a = Some (Finished d)" "stands_for s c w"
    and "case d of
        DReady st \<Rightarrow> c' = finish_bootstrap st None (published d c) \<and> w' = w
      | DFailed st e \<Rightarrow> c' = finish_bootstrap st (Some e) (published d c) \<and> w' = w
      | DWarming st n \<Rightarrow> (\<forall>s. sy_tasks s i = BLoop dl \<longrightarrow> stands_for s (published d c) w \<longrightarrow> reaches tm i s BDone c' w')"
  shows "reaches tm i s BDone c' w'"
proof (cases d)
  case (DReady st)
  note step = lc_step.boot_ready [OF assms(1) assms(2) [unfolded DReady]]
  show ?thesis
    by (rule reaches_step [OF step])
      (use assms(1,3,4) DReady in \<open>auto simp: stands_for_def published_def move_defs intro!: finish_steps\<close>)
next
  case (DFailed st e)
  note step = lc_step.boot_failed [OF assms(1) assms(2) [unfolded DFailed]]
  show ?thesis
    by (rule reaches_step [OF step])
      (use assms(1,3,4) DFailed in \<open>auto simp: stands_for_def published_def move_defs intro!: finish_steps\<close>)
next
  case (DWarming st n)
  note step = lc_step.boot_warming [OF assms(1) assms(2) [unfolded DWarming]]
  show ?thesis
    by (rule reaches_step [OF step])
      (use assms(1,3,4) DWarming in \<open>auto simp: stands_for_def published_def move_defs\<close>)
qed

lemma paused_runs:
  assumes "sy_tasks s i = BLoop dl" "stands_for s c w" "\<not> dl \<le> clock w"
  shows "\<exists>s1 u. runs_to tm i s (BPause dl u) c (after_pause tm w) s1 \<and> u \<le> sy_clock s1"
proof -
  let ?u = "sy_clock s + unat (bootstrap_poll_interval_millis tm)"
  let ?s1 = "set_task i (BPause dl ?u) s"
  have step: "lc_step tm s ?s1" using assms by (intro lc_step.boot_pause) (simp_all add: stands_for_def)
  have later: "runs_to tm i ?s1 (BPause dl ?u) c (after_pause tm w) (?s1\<lparr>sy_clock := clock (after_pause tm w)\<rparr>)"
    by (rule runs_to_later [where w = w]) (use assms(2) in \<open>simp_all add: clock_after_pause\<close>)
  have late: "?u \<le> sy_clock (?s1\<lparr>sy_clock := clock (after_pause tm w)\<rparr>)"
    using assms(2) by (simp add: clock_after_pause stands_for_def)
  have "moves i s ?s1" using assms(1) by (simp add: move_defs)
  from runs_to_step [OF step this later] late show ?thesis by blast
qed

lemma bootstrap_loop_steps:
  assumes "bootstrap_loop P tm dl c w = Some cw"
  shows "\<forall>s. sy_tasks s i = BLoop dl \<longrightarrow> stands_for s c w \<longrightarrow> reaches tm i s BDone (fst cw) (snd cw)"
  using assms
proof (rule bootstrap_loop_induct, goal_cases)
  case (1 c w)
  show ?case
  proof (intro allI impI)
    fix s assume s: "sy_tasks s i = BLoop dl" "stands_for s c w"
    with 1 have "dl \<le> sy_clock s" by (simp add: stands_for_def)
    note step = lc_step.boot_expired [OF s(1) this]
    show "reaches tm i s BDone (fst (Lifecycle.boot_expired c, w)) (snd (Lifecycle.boot_expired c, w))"
      by (rule reaches_step [OF step])
        (use s in \<open>auto simp: stands_for_def boot_expired_def move_defs intro!: finish_steps\<close>)
  qed
next
  case (2 c w)
  show ?case
  proof (intro allI impI)
    fix s assume s: "sy_tasks s i = BLoop dl" "stands_for s c w"
    from paused_runs [OF s 2(1)] obtain s1 u where
      run: "runs_to tm i s (BPause dl u) c (after_pause tm w) s1" "u \<le> sy_clock s1" by blast
    then have s1: "sy_tasks s1 i = BPause dl u" "stands_for s1 c (after_pause tm w)" "dl \<le> sy_clock s1"
      using 2(2) by (auto simp: runs_to_def stands_for_def)
    note step = lc_step.boot_paused_expired [OF s1(1) run(2) s1(3)]
    have "reaches tm i s1 BDone (Lifecycle.boot_expired c) (after_pause tm w)"
      by (rule reaches_step [OF step])
        (use s1(1,2) in \<open>auto simp: stands_for_def boot_expired_def move_defs intro!: finish_steps\<close>)
    with run(1) show "reaches tm i s BDone (fst (Lifecycle.boot_expired c, after_pause tm w))
        (snd (Lifecycle.boot_expired c, after_pause tm w))"
      by (auto intro: reaches_trans)
  qed
next
  case (3 c w d c2 w2 cw)
  show ?case
  proof (intro allI impI)
    fix s assume s: "sy_tasks s i = BLoop dl" "stands_for s c w"
    from paused_runs [OF s 3(1)] obtain s1 u where
      run: "runs_to tm i s (BPause dl u) c (after_pause tm w) s1" "u \<le> sy_clock s1" by blast
    then have s1: "sy_tasks s1 i = BPause dl u" "stands_for s1 c (after_pause tm w)" "sy_clock s1 < dl"
      using 3(2) by (auto simp: runs_to_def stands_for_def)
    let ?s2 = "set_task i (BRead dl (co_status c)) s1"
    let ?ob = "obs_init None (bt_observe_request (co_bootstrap c)) (co_status c)"
    let ?s3 = "set_task i (BObserve dl ?ob) ?s2"
    have core: "sy_core s1 = c" using s1(2) by (simp add: stands_for_def)
    have read: "lc_step tm s1 ?s2"
      using lc_step.boot_read [OF s1(1) run(2) s1(3)] by (simp add: core)
    have obs: "lc_step tm ?s2 ?s3"
      using lc_step.boot_observe [of ?s2 i dl "co_status c" tm] by (simp add: core)
    have "sy_tasks ?s3 i = BObserve dl ?ob" "stands_for ?s3 c (after_pause tm w)"
      using s1(2) by (simp_all add: stands_for_def)
    from observe_once_steps [OF 3(3) bootstrap_observes this] obtain s4 ob1 t a where
      s4: "runs_to tm i ?s3 (BObserve dl ob1) c w2 s4" "obs_step tm t ob1 a = Some (Finished d)"
        "c2 = published d c" by blast
    then have at: "sy_tasks s4 i = BObserve dl ob1" "stands_for s4 c w2" by (auto simp: runs_to_def)
    have "reaches tm i s4 BDone (fst cw) (snd cw)"
      by (rule observed_steps [OF at(1) s4(2) at(2)])
        (use 3(4) s4(3) in \<open>auto split: lifecycle_decision.splits\<close>)
    with s4(1) have "reaches tm i ?s3 BDone (fst cw) (snd cw)" by (rule reaches_trans)
    then have "reaches tm i s1 BDone (fst cw) (snd cw)"
      by (intro reaches_step [OF read reaches_step [OF obs]]) (use s1(1) in \<open>simp_all add: move_defs\<close>)
    with run(1) show "reaches tm i s BDone (fst cw) (snd cw)" by (rule reaches_trans)
  qed
qed

lemma start_bootstrap_steps:
  assumes "start_bootstrap P tm c w = Some (c', w')" "sy_tasks s i = BStart" "stands_for s c w"
  shows "reaches tm i s BDone c' w'"
proof -
  let ?dl = "bootstrap_deadline P tm c w"
  have eq: "boot_deadline_at tm (now P w) s = ?dl"
    using assms(3) by (simp add: boot_deadline_at_def bootstrap_deadline_def stands_for_def Let_def)
  have step: "lc_step tm s (set_task i (BLoop ?dl) s)"
    using lc_step.boot_start [OF assms(2), of tm "now P w"] by (simp add: eq)
  from bootstrap_loop_steps [OF assms(1) [unfolded start_bootstrap_def]] assms(3)
  have "reaches tm i (set_task i (BLoop ?dl) s) BDone c' w'" by (simp add: stands_for_def)
  with step show ?thesis by (rule reaches_step) (use assms(2) in \<open>simp add: move_defs\<close>)
qed


section \<open>A whole request\<close>

text \<open>
  The surroundings of a request that is alone: the bootstrap it spawned runs to its end, and
  then the request looks at what it left.
\<close>

definition own_bootstrap :: "'e ports \<Rightarrow> lifecycle_timing \<Rightarrow> 'e surroundings" where
  "own_bootstrap P tm spawned c w = (case start_bootstrap P tm c w of
       None \<Rightarrow> no_surroundings spawned c w
     | Some (c', w') \<Rightarrow> no_surroundings spawned c' w')"

text \<open>The pieces of \<open>ensure_backend\<close> up to the end of the first observation.\<close>

lemma start_steps:
  assumes "sy_tasks s i = TStart r" "stands_for s c w" "\<not> bt_active (co_bootstrap c)"
    "\<not> backend_is_ready (co_status c)" "start_or_join_bootstrap r c = (True, c1)"
  shows "\<exists>s' v. runs_to tm i s (TObserve (obs_init (Some r) (bt_observe_request (co_bootstrap c1)) (co_status c)) v) c1 w s'"
proof -
  note core = assms(2) [unfolded stands_for_def]
  let ?s2 = "set_task i (TCheck r (co_status c)) s"
  let ?s3 = "set_task i (TJoin r (co_status c)) ?s2"
  let ?s4 = "set_task i (TObserveReq r (co_status c) (co_version c1)) (set_core c1 (?s3\<lparr>sy_starts := Suc (sy_starts ?s3)\<rparr>))"
  let ?ob = "obs_init (Some r) (bt_observe_request (co_bootstrap c1)) (co_status c)"
  let ?s5 = "set_task i (TObserve ?ob (co_version c1)) ?s4"
  have 2: "lc_step tm s ?s2" using lc_step.borrow [OF assms(1), of tm] core by simp
  have 3: "lc_step tm ?s2 ?s3"
    by (rule lc_step.check_other) (use assms(4) in simp_all)
  have 4: "lc_step tm ?s3 ?s4"
    by (rule lc_step.join_start) (use assms(5) core in simp_all)
  have 5: "lc_step tm ?s4 ?s5"
    using lc_step.observe_request [of ?s4 i r "co_status c" "co_version c1" tm] by simp
  have "runs_to tm i ?s5 (TObserve ?ob (co_version c1)) c1 w ?s5"
    using core by (simp add: runs_to_def stands_for_def untouched_def)
  then have "runs_to tm i s (TObserve ?ob (co_version c1)) c1 w ?s5"
    by (intro runs_to_step [OF 2] runs_to_step [OF 3] runs_to_step [OF 4] runs_to_step [OF 5])
      (use assms(1) in \<open>simp_all add: move_defs\<close>)
  then show ?thesis by blast
qed

lemma warm_steps:
  assumes "sy_tasks s i = TStart r" "stands_for s c w" "\<not> bt_active (co_bootstrap c)"
    "backend_is_ready (co_status c)"
  shows "reaches tm i s (TDone (DReady (co_status c))) c w"
proof -
  note core = assms(2) [unfolded stands_for_def]
  let ?s2 = "set_task i (TCheck r (co_status c)) s"
  let ?s3 = "set_task i (TDone (DReady (co_status c))) ?s2"
  have 2: "lc_step tm s ?s2" using lc_step.borrow [OF assms(1), of tm] core by simp
  have 3: "lc_step tm ?s2 ?s3"
    by (rule lc_step.check_ready) (use assms(3,4) core in simp_all)
  have "reaches tm i ?s3 (TDone (DReady (co_status c))) c w"
    by (rule reaches_refl) (use assms(2) in simp_all)
  then show ?thesis
    by (intro reaches_step [OF 2 reaches_step [OF 3]]) (use assms(1) in \<open>simp_all add: move_defs\<close>)
qed

lemma ready_steps:
  assumes "sy_tasks s i = TObserve ob v" "obs_step tm t ob a = Some (Finished (DReady st))" "stands_for s c w"
  shows "reaches tm i s (TDone (DReady st)) (finish_bootstrap st None (publish st c)) w"
proof -
  note core = assms(3) [unfolded stands_for_def]
  let ?s1 = "set_task i (TReady st) (set_core (publish st (sy_core s)) s)"
  let ?s2 = "set_task i (TFinish st None (DReady st)) ?s1"
  let ?s3 = "set_task i (TDone (DReady st)) (set_core (finish_bootstrap st None (sy_core ?s2))
      (?s2\<lparr>sy_finishes := Suc (sy_finishes ?s2)\<rparr>))"
  have 1: "lc_step tm s ?s1" using assms(1,2) by (rule lc_step.observe_ready)
  have 2: "lc_step tm ?s1 ?s2" using lc_step.ready_borrow [of ?s1 i st tm] by simp
  have 3: "lc_step tm ?s2 ?s3" by (rule lc_step.finish) simp
  have "reaches tm i ?s3 (TDone (DReady st)) (finish_bootstrap st None (publish st c)) w"
    by (rule reaches_refl) (use core in \<open>simp_all add: stands_for_def\<close>)
  then show ?thesis
    by (intro reaches_step [OF 1 reaches_step [OF 2 reaches_step [OF 3]]])
      (use assms(1) in \<open>simp_all add: move_defs\<close>)
qed

lemma failed_steps:
  assumes "sy_tasks s i = TObserve ob v" "obs_step tm t ob a = Some (Finished (DFailed st e))" "stands_for s c w"
  shows "reaches tm i s (TDone (DFailed st e)) (finish_bootstrap st (Some e) c) w"
proof -
  note core = assms(3) [unfolded stands_for_def]
  let ?s1 = "set_task i (TFinish st (Some e) (DFailed st e)) s"
  let ?s2 = "set_task i (TDone (DFailed st e)) (set_core (finish_bootstrap st (Some e) (sy_core ?s1))
      (?s1\<lparr>sy_finishes := Suc (sy_finishes ?s1)\<rparr>))"
  have 1: "lc_step tm s ?s1" using assms(1,2) by (rule lc_step.observe_failed)
  have 2: "lc_step tm ?s1 ?s2" by (rule lc_step.finish) simp
  have "reaches tm i ?s2 (TDone (DFailed st e)) (finish_bootstrap st (Some e) c) w"
    by (rule reaches_refl) (use core in \<open>simp_all add: stands_for_def\<close>)
  then show ?thesis
    by (intro reaches_step [OF 1 reaches_step [OF 2]]) (use assms(1) in \<open>simp_all add: move_defs\<close>)
qed

text \<open>The wait: the request is resumed when its bootstrap is over.\<close>

lemma decide_steps:
  assumes "sy_tasks s i = TWait v dl" "stands_for s c w" "bootstrap_settled c"
    and "wait_loop tm dl \<lparr>wv_status = co_status c, wv_active = bt_active (co_bootstrap c),
        wv_last_error = bt_last_error (co_bootstrap c), wv_now = clock w\<rparr> [] final = d"
  shows "reaches tm i s (TDone d) c w"
proof -
  note core = assms(2) [unfolded stands_for_def]
  let ?s1 = "set_task i (TWaitLock (co_status c) v dl) s"
  let ?s2 = "set_task i (TDone d) ?s1"
  have 1: "lc_step tm s ?s1" using lc_step.wait_borrow [OF assms(1), of tm] core by simp
  have view: "view_at (co_status c) ?s1 = \<lparr>wv_status = co_status c, wv_active = bt_active (co_bootstrap c),
        wv_last_error = bt_last_error (co_bootstrap c), wv_now = clock w\<rparr>"
    using core by (simp add: view_at_def)
  have "wait_check tm dl (view_at (co_status c) ?s1) = Some d"
    unfolding view using assms(3,4)
    by (auto simp: wait_check_def stale_view_def bootstrap_settled_def Let_def backend_is_ready_def)
  then have 2: "lc_step tm ?s1 ?s2" by (intro lc_step.wait_decide) simp_all
  have "reaches tm i ?s2 (TDone d) c w"
    by (rule reaches_refl) (use assms(2) in simp_all)
  then show ?thesis
    by (intro reaches_step [OF 1 reaches_step [OF 2]]) (use assms(1) in \<open>simp_all add: move_defs\<close>)
qed

lemma wait_steps:
  assumes "sy_tasks s i = TObserve ob v" "obs_step tm t ob a = Some (Finished (DWarming st n))"
    and "sy_tasks s j = TIdle" "i \<noteq> j" "stands_for s c w" "0 < bootstrap_poll_interval_millis tm"
    and "wait_for_ready_or_timeout tm (own_bootstrap P tm) True (publish st c) w = (d, c', w')"
  shows "\<exists>s'. (lone_step tm)\<^sup>*\<^sup>* s s' \<and> sy_tasks s' i = TDone d \<and> stands_for s' c' w' \<and> untouched {i, j} s s'"
proof -
  note core = assms(5) [unfolded stands_for_def]
  define dl where "dl = clock w + 1000 * unat (cold_wait_budget_secs tm)"
  let ?s1 = "set_task j BStart (set_task i (TWait v dl) (set_core (publish st (sy_core s)) s))"
  have "lc_step tm s ?s1"
    using lc_step.observe_warming [OF assms(1-3) assms(4) [symmetric]] core by (simp add: dl_def)
  then have 1: "lone_step tm s ?s1"
    using assms(1,3,4) by (simp add: lone_step_def on_its_own_def)
  obtain c2 w2 where boot: "start_bootstrap P tm (publish st c) w = Some (c2, w2)"
    using bootstrap_loop_total [OF assms(6)] by (metis start_bootstrap_def surj_pair)
  from assms(7) boot have eqs: "c' = c2" "w' = w2"
    and d: "wait_loop tm dl \<lparr>wv_status = co_status c2, wv_active = bt_active (co_bootstrap c2),
        wv_last_error = bt_last_error (co_bootstrap c2), wv_now = clock w2\<rparr> [] (co_status c2) = d"
    by (auto simp: wait_for_ready_or_timeout_def own_bootstrap_def no_surroundings_def dl_def)
  have settled: "bootstrap_settled c2"
    using bootstrap_loop_settled [OF boot [unfolded start_bootstrap_def]] by simp
  have "reaches tm j ?s1 BDone c2 w2"
    by (rule start_bootstrap_steps [OF boot]) (use core in \<open>simp_all add: stands_for_def\<close>)
  then obtain s2 where s2: "runs_to tm j ?s1 BDone c2 w2 s2" by (auto simp: reaches_def)
  then have "sy_tasks s2 i = TWait v dl" "stands_for s2 c2 w2"
    using assms(4) by (auto simp: runs_to_def untouched_def)
  from decide_steps [OF this settled d] obtain s3 where s3: "runs_to tm i s2 (TDone d) c2 w2 s3"
    by (auto simp: reaches_def)
  have "(lone_step tm)\<^sup>*\<^sup>* s s3"
    using 1 s2 s3 by (meson runs_to_def converse_rtranclp_into_rtranclp rtranclp_trans)
  moreover have "untouched {i, j} s s3" using s2 s3 by (simp add: runs_to_def untouched_def)
  ultimately show ?thesis using s3 eqs by (auto simp: runs_to_def)
qed

text \<open>A request from its start to its decision, by lone steps of its task and of its bootstrap.\<close>

lemma lone_request_steps:
  assumes "sy_tasks s i = TStart r" "sy_tasks s j = TIdle" "stands_for s c w" "\<not> bt_active (co_bootstrap c)"
    and "0 < bootstrap_poll_interval_millis tm"
    and "ensure_backend P tm (own_bootstrap P tm) r (c, w) = (d, c', w')"
  shows "\<exists>s'. (lone_step tm)\<^sup>*\<^sup>* s s' \<and> sy_tasks s' i = TDone d \<and> stands_for s' c' w' \<and> untouched {i, j} s s'"
proof (cases "backend_is_ready (co_status c)")
  case True
  with assms(6,4) have "d = DReady (co_status c)" "c' = c" "w' = w"
    by (auto simp: ensure_backend_fast)
  with warm_steps [OF assms(1,3,4) True] show ?thesis by (auto simp: reaches_def runs_to_def untouched_def) blast
next
  case False
  have ij: "i \<noteq> j" using assms(1,2) by auto
  obtain c1 where c1: "start_or_join_bootstrap r c = (True, c1)"
    using start_or_join_idle [OF assms(4)] by blast
  let ?ob = "obs_init (Some r) (bt_observe_request (co_bootstrap c1)) (co_status c)"
  obtain d1 c2 w2 where obs:
    "observe_once P tm (Some r) (bt_observe_request (co_bootstrap c1)) (co_status c) c1 w = (d1, c2, w2)"
    by (metis prod_cases3)
  from start_steps [OF assms(1,3,4) False c1] obtain s1 v where
    s1: "runs_to tm i s (TObserve ?ob v) c1 w s1" by blast
  then have "sy_tasks s1 i = TObserve ?ob v" "stands_for s1 c1 w" by (simp_all add: runs_to_def)
  from observe_once_steps [OF obs request_observes this] obtain s2 ob t a where
    s2: "runs_to tm i s1 (TObserve ob v) c1 w2 s2" "obs_step tm t ob a = Some (Finished d1)"
      "c2 = published d1 c1" by blast
  have run: "(lone_step tm)\<^sup>*\<^sup>* s s2" and j: "sy_tasks s2 j = TIdle" and other: "untouched {i, j} s s2"
    using s1 s2(1) assms(2) ij by (auto simp: runs_to_def untouched_def)
  have at: "sy_tasks s2 i = TObserve ob v" "stands_for s2 c1 w2" using s2(1) by (simp_all add: runs_to_def)
  note eval = ensure_backend_def published_def Let_def
  have "\<exists>s'. (lone_step tm)\<^sup>*\<^sup>* s2 s' \<and> sy_tasks s' i = TDone d \<and> stands_for s' c' w' \<and> untouched {i, j} s2 s'"
  proof (cases d1)
    case (DReady st)
    with assms(4,6) False c1 obs s2(3)
    have "d = DReady st" "c' = finish_bootstrap st None (publish st c1)" "w' = w2" by (auto simp: eval)
    with ready_steps [OF at(1) s2(2) [unfolded DReady] at(2)] show ?thesis
      by (auto simp: reaches_def runs_to_def untouched_def)
  next
    case (DFailed st e)
    with assms(4,6) False c1 obs s2(3)
    have "d = DFailed st e" "c' = finish_bootstrap st (Some e) c1" "w' = w2" by (auto simp: eval)
    with failed_steps [OF at(1) s2(2) [unfolded DFailed] at(2)] show ?thesis
      by (auto simp: reaches_def runs_to_def untouched_def)
  next
    case (DWarming st n)
    with assms(4,6) False c1 obs s2(3)
    have "wait_for_ready_or_timeout tm (own_bootstrap P tm) True (publish st c1) w2 = (d, c', w')"
      by (auto simp: eval)
    with wait_steps [OF at(1) s2(2) [unfolded DWarming] j ij at(2) assms(5)] show ?thesis by blast
  qed
  then obtain s' where "(lone_step tm)\<^sup>*\<^sup>* s2 s'" "sy_tasks s' i = TDone d" "stands_for s' c' w'"
    "untouched {i, j} s2 s'" by blast
  with run other show ?thesis
    by (intro exI [of _ s']) (auto simp: untouched_def)
qed

text \<open>
  C10: A request that finds the manager idle, and whose surroundings are the bootstrap it spawned
  itself, gets from the sequential \<open>ensure_backend\<close> what some run of the concurrent system
  gives it: the same decision, and then the same core at the same time. The sequential model
  adds no behaviour.
\<close>

theorem sequential_request_is_a_run:
  assumes "sy_tasks s i = TIdle" "sy_tasks s j = TIdle" "i \<noteq> j" "\<not> active s" "sy_clock s = clock w"
    and "0 < bootstrap_poll_interval_millis tm"
    and "ensure_backend P tm (own_bootstrap P tm) r (sy_core s, w) = (d, c', w')"
  shows "\<exists>s'. (lc_step tm)\<^sup>*\<^sup>* s s' \<and> sy_tasks s' i = TDone d \<and> sy_core s' = c' \<and> sy_clock s' = clock w'"
proof -
  let ?s = "set_task i (TStart r) s"
  have "lc_step tm s ?s" using assms(1) by (rule lc_step.arrive)
  moreover have "\<exists>s'. (lone_step tm)\<^sup>*\<^sup>* ?s s' \<and> sy_tasks s' i = TDone d \<and> stands_for s' c' w' \<and> untouched {i, j} ?s s'"
    by (rule lone_request_steps [OF _ _ _ _ assms(6,7)]) (use assms in \<open>simp_all add: stands_for_def\<close>)
  ultimately show ?thesis
    by (metis lone_steps_lc converse_rtranclp_into_rtranclp stands_for_def)
qed

theorem sequential_request_is_a_run_witness:
  "\<exists>s'. (lc_step default_timing)\<^sup>*\<^sup>* (sys_init backend_status_default) s'
     \<and> sy_tasks s' 0 = TDone (fst (ensure_backend sleeping_ports default_timing
         (own_bootstrap sleeping_ports default_timing) Chat (core_new backend_status_default, example_world)))"
proof -
  let ?s = "sys_init backend_status_default"
  obtain d c' w' where run: "ensure_backend sleeping_ports default_timing
      (own_bootstrap sleeping_ports default_timing) Chat (sy_core ?s, example_world) = (d, c', w')"
    by (metis prod_cases3)
  have "0 < bootstrap_poll_interval_millis default_timing"
    by (simp add: default_timing_def timing_default_def read_env_or_def opt_filter_def)
  from sequential_request_is_a_run [OF _ _ _ _ _ this run, of 0 1] run show ?thesis
    by (auto simp: sys_init_def core_new_def bootstrap_default_def example_world_def)
qed

end
