(* ===== verification/Request_System.thy ===== *)
theory Request_System
  imports Orchestrate Lifecycle_Sequential
begin

text \<open>
  The orchestrator with all its requests at once (\<open>src/src/orchestrate.rs\<close> over
  \<open>lifecycle.rs\<close>, \<open>scheduler.rs\<close> and the semaphore of \<open>state.rs\<close>). \<open>Orchestrate\<close> runs one request
  from end to end; here any number of them take steps in any order, each step the code of one
  request between two points where another can come in. The managers are those of
  \<open>Lifecycle_System\<close>, the scheduler that of \<open>Scheduler\<close>; the libraries, the backend and the
  status of the host answer as they like. A client may go away at every await.
\<close>

section \<open>Requests\<close>

text \<open>What a request asks for, and the setting all of them share.\<close>

record incoming =
  in_kind :: lifecycle_request
  in_body :: bytes
  in_stream :: bool

record 'e proxy =
  px_libs :: "'e libs"
  px_timing :: lifecycle_timing
  px_config :: app_config
  px_incoming :: "nat \<Rightarrow> incoming"

text \<open>
  Where a request is in \<open>execute\<close>: not there yet; about to take a cold-start permit (\<open>True\<close> if
  it found the lifecycle cold); in \<open>ensure_backend\<close> as a task of its manager; in the scheduler,
  before its operation runs; waiting for the backend's answer; back with the forwarder's
  outcome; in \<open>degrade_embeddings\<close> or \<open>mark_warming\<close>; in \<open>ensure_backend\<close> again; waiting for the
  answer to the second post; answered, with the body of the answer still coming from the
  backend, or wholly; and dropped.
\<close>

datatype phase =
    QIdle
  | QAdmit bool
  | QEnsure nat
  | QSched
  | QForward
  | QOutcome "(forward_error, response) res"
  | QDegrade nat
  | QMark nat
  | QRetry nat
  | QRetryForward
  | QStreaming response
  | QDone "response option"
  | QGone

record net =
  ns_life :: "lifecycle_request \<Rightarrow> sys"
  ns_sched :: sched
  ns_cold_used :: nat
  ns_held :: "nat \<Rightarrow> bool"
  ns_phase :: "nat \<Rightarrow> phase"
  ns_prev_tunnel :: "lifecycle_request \<Rightarrow> bool"
  ns_metrics :: metrics
  ns_posts :: "nat \<Rightarrow> nat"

definition net_init :: "app_config \<Rightarrow> net" where
  "net_init cfg = \<lparr>ns_life = (\<lambda>_. sys_init backend_status_default),
     ns_sched = sched_new (ac_warm_execution cfg), ns_cold_used = 0, ns_held = (\<lambda>_. False),
     ns_phase = (\<lambda>_. QIdle), ns_prev_tunnel = (\<lambda>_. False), ns_metrics = metrics_default,
     ns_posts = (\<lambda>_. 0)\<rparr>"

text \<open>\<open>production\<close> gives both kinds the chat manager when there is no embeddings backend.\<close>

definition manager_for :: "app_config \<Rightarrow> lifecycle_request \<Rightarrow> lifecycle_request" where
  "manager_for cfg kind = (case ec_backend (ac_embeddings cfg) of None \<Rightarrow> Chat | Some _ \<Rightarrow> kind)"

abbreviation kind_of :: "'e proxy \<Rightarrow> nat \<Rightarrow> lifecycle_request" where
  "kind_of p i \<equiv> in_kind (px_incoming p i)"

abbreviation manager_of :: "'e proxy \<Rightarrow> nat \<Rightarrow> lifecycle_request" where
  "manager_of p i \<equiv> manager_for (px_config p) (kind_of p i)"

abbreviation hv_of :: "'e proxy \<Rightarrow> string \<Rightarrow> string option" where
  "hv_of p \<equiv> header_value (px_libs p)"

abbreviation go :: "nat \<Rightarrow> phase \<Rightarrow> net \<Rightarrow> net" where
  "go i ph s \<equiv> s\<lparr>ns_phase := (ns_phase s)(i := ph)\<rparr>"

abbreviation set_life :: "lifecycle_request \<Rightarrow> sys \<Rightarrow> net \<Rightarrow> net" where
  "set_life k l s \<equiv> s\<lparr>ns_life := (ns_life s)(k := l)\<rparr>"

abbreviation count :: "(metrics \<Rightarrow> metrics) \<Rightarrow> net \<Rightarrow> net" where
  "count f s \<equiv> s\<lparr>ns_metrics := f (ns_metrics s)\<rparr>"

abbreviation posted :: "nat \<Rightarrow> net \<Rightarrow> net" where
  "posted i s \<equiv> s\<lparr>ns_posts := (ns_posts s)(i := Suc (ns_posts s i))\<rparr>"

text \<open>The end of \<open>execute\<close>, by return or by drop: the cold-start permit is dropped.\<close>

definition settle :: "nat \<Rightarrow> phase \<Rightarrow> net \<Rightarrow> net" where
  "settle i ph s = s\<lparr>ns_phase := (ns_phase s)(i := ph),
     ns_cold_used := (if ns_held s i then cold_release (ns_cold_used s) else ns_cold_used s),
     ns_held := (ns_held s)(i := False)\<rparr>"

text \<open>\<open>check_tunnel_drop\<close> and its counter.\<close>

definition tunnel_seen :: "lifecycle_request \<Rightarrow> tunnel_state \<Rightarrow> net \<Rightarrow> net" where
  "tunnel_seen kind t s =
     (if ns_prev_tunnel s kind \<and> t \<noteq> TsReady then count inc_tunnel_drops s else s)
       \<lparr>ns_prev_tunnel := (ns_prev_tunnel s)(kind := (t = TsReady))\<rparr>"

text \<open>What the forwarder can make of a request, whatever the backend answers.\<close>

definition outcome :: "'e proxy \<Rightarrow> nat \<Rightarrow> (forward_error, response) res \<Rightarrow> bool" where
  "outcome p i r = (\<exists>w w'. forward (px_libs p) \<lparr>fc_port = tunnel_port_for (px_config p) (kind_of p i)\<rparr>
     (request_path (kind_of p i)) (in_body (px_incoming p i)) (in_stream (px_incoming p i)) False
     (model_alias_for (px_config p) (kind_of p i)) w = (r, w'))"

definition answered_phase :: "'e proxy \<Rightarrow> nat \<Rightarrow> response \<Rightarrow> phase" where
  "answered_phase p i r = (if in_stream (px_incoming p i) then QStreaming r else QDone (Some r))"

definition unsupported_reason :: string where
  "unsupported_reason = ''upstream returned 404''"

definition count_refusal :: "warm_execution_error \<Rightarrow> metrics \<Rightarrow> metrics" where
  "count_refusal e = (case e of QueueFull \<Rightarrow> inc_queue_full | QueueTimeout \<Rightarrow> inc_queue_timeouts)"

text \<open>The tasks of one request in the scheduler before its operation.\<close>

definition queueing :: "sched_task \<Rightarrow> bool" where
  "queueing t = (t \<in> {SReserving, SAcquiring, SWaiting, SGranted})"

section \<open>The steps\<close>

inductive net_step :: "'e proxy \<Rightarrow> net \<Rightarrow> net \<Rightarrow> bool" for p :: "'e proxy" where
  come: "ns_phase s i = QIdle \<Longrightarrow>
     net_step p s (go i (QAdmit (bs_lifecycle (co_status (sy_core (ns_life s (manager_of p i)))) = LsCold)) s)"
| admit_full: "ns_phase s i = QAdmit True \<Longrightarrow>
     cold_acquire (ac_cold_start_max_waiting (px_config p)) (ns_cold_used s) = None \<Longrightarrow>
     net_step p s (settle i (QDone (openai_error (hv_of p) 503 ''warming_up''
       ''cold-start queue is full, retry later'' (Some ''10''))) s)"
| admit_permit: "ns_phase s i = QAdmit True \<Longrightarrow>
     cold_acquire (ac_cold_start_max_waiting (px_config p)) (ns_cold_used s) = Some u \<Longrightarrow>
     sy_tasks (ns_life s (manager_of p i)) j = TIdle \<Longrightarrow>
     net_step p s (set_life (manager_of p i)
       (set_task j (TStart (kind_of p i)) (ns_life s (manager_of p i)))
       (go i (QEnsure j) (s\<lparr>ns_cold_used := u, ns_held := (ns_held s)(i := True)\<rparr>)))"
| admit_free: "ns_phase s i = QAdmit False \<Longrightarrow> sy_tasks (ns_life s (manager_of p i)) j = TIdle \<Longrightarrow>
     net_step p s (set_life (manager_of p i)
       (set_task j (TStart (kind_of p i)) (ns_life s (manager_of p i))) (go i (QEnsure j) s))"
| life: "lc_step (px_timing p) (ns_life s k) l \<Longrightarrow> on_its_own (ns_life s k) l \<Longrightarrow>
     net_step p s (set_life k l s)"
| time_passes: "net_step p s
     (s\<lparr>ns_life := (\<lambda>k. (ns_life s k)\<lparr>sy_clock := sy_clock (ns_life s k) + d\<rparr>)\<rparr>)"
| ensure_ready: "ns_phase s i = QEnsure j \<Longrightarrow>
     sy_tasks (ns_life s (manager_of p i)) j = TDone (DReady st) \<Longrightarrow>
     \<not> (kind_of p i = Embeddings \<and> bs_embeddings st = CsDegraded) \<Longrightarrow>
     net_step p s (go i QSched (tunnel_seen (kind_of p i) (bs_tunnel st) s))"
| ensure_degraded: "ns_phase s i = QEnsure j \<Longrightarrow>
     sy_tasks (ns_life s (manager_of p i)) j = TDone (DReady st) \<Longrightarrow>
     kind_of p i = Embeddings \<and> bs_embeddings st = CsDegraded \<Longrightarrow>
     net_step p s (settle i (QDone (openai_error (hv_of p) 400 ''unsupported_embeddings''
       (unwrap_or ''embeddings are degraded'' (bs_embeddings_reason st)) None))
       (tunnel_seen (kind_of p i) (bs_tunnel st) s))"
| ensure_warming: "ns_phase s i = QEnsure j \<Longrightarrow>
     sy_tasks (ns_life s (manager_of p i)) j = TDone (DWarming st n) \<Longrightarrow>
     net_step p s (settle i (QDone (warming_response (hv_of p) n))
       (count inc_wake_attempts (count inc_cold_starts s)))"
| ensure_failed: "ns_phase s i = QEnsure j \<Longrightarrow>
     sy_tasks (ns_life s (manager_of p i)) j = TDone (DFailed st e) \<Longrightarrow>
     net_step p s (settle i (QDone (failed_response (hv_of p) e)) (count inc_wake_failures s))"
| queue: "ns_phase s i = QSched \<Longrightarrow> sched_step (ac_warm_execution (px_config p)) (ns_sched s) sc \<Longrightarrow>
     sc_tasks sc = (sc_tasks (ns_sched s))(i := t) \<Longrightarrow> queueing t \<Longrightarrow>
     net_step p s (s\<lparr>ns_sched := sc\<rparr>)"
| operate: "ns_phase s i = QSched \<Longrightarrow> sched_step (ac_warm_execution (px_config p)) (ns_sched s) sc \<Longrightarrow>
     sc_tasks sc = (sc_tasks (ns_sched s))(i := SRunning c) \<Longrightarrow>
     net_step p s (posted i (go i QForward (s\<lparr>ns_sched := sc\<rparr>)))"
| refuse: "ns_phase s i = QSched \<Longrightarrow> sched_step (ac_warm_execution (px_config p)) (ns_sched s) sc \<Longrightarrow>
     sc_tasks sc = (sc_tasks (ns_sched s))(i := SFinished (Err e)) \<Longrightarrow>
     net_step p s (settle i (QDone (warm_execution_error_response (hv_of p) e))
       (count (count_refusal e) (s\<lparr>ns_sched := sc\<rparr>)))"
| operated: "ns_phase s i = QForward \<Longrightarrow> sc_tasks (ns_sched s) i = SRunning c \<Longrightarrow> outcome p i r \<Longrightarrow>
     net_step p s (go i (QOutcome r) (s\<lparr>ns_sched := release (put i (SFinished (Ok ())) (ns_sched s))\<rparr>))"
| outcome_ok: "ns_phase s i = QOutcome (Ok r) \<Longrightarrow>
     net_step p s (settle i (answered_phase p i r) (count inc_warm_requests s))"
| outcome_unsupported: "ns_phase s i = QOutcome (Err EmbeddingsUnsupported) \<Longrightarrow>
     l = ns_life s (manager_for (px_config p) Embeddings) \<Longrightarrow> sy_tasks l j = TIdle \<Longrightarrow>
     net_step p s (set_life (manager_for (px_config p) Embeddings)
       (set_task j (TDegrade unsupported_reason (co_status (sy_core l))) l)
       (go i (QDegrade j) (count inc_embeddings_degraded s)))"
| degraded: "ns_phase s i = QDegrade j \<Longrightarrow>
     sy_tasks (ns_life s (manager_for (px_config p) Embeddings)) j = TReturned \<Longrightarrow>
     net_step p s (settle i (QDone (openai_error (hv_of p) 400 ''unsupported_embeddings''
       (''upstream backend does not support embeddings: '' @ unsupported_reason) None)) s)"
| outcome_unreachable: "ns_phase s i = QOutcome (Err UpstreamUnreachable) \<Longrightarrow>
     l = ns_life s (manager_of p i) \<Longrightarrow> sy_tasks l j = TIdle \<Longrightarrow>
     net_step p s (set_life (manager_of p i) (set_task j (TMark (co_status (sy_core l))) l)
       (go i (QMark j) (count inc_wake_attempts (count inc_cold_starts s))))"
| marked: "ns_phase s i = QMark j \<Longrightarrow> sy_tasks (ns_life s (manager_of p i)) j = TReturned \<Longrightarrow>
     sy_tasks (ns_life s (manager_of p i)) j' = TIdle \<Longrightarrow>
     net_step p s (set_life (manager_of p i)
       (set_task j' (TStart (kind_of p i)) (ns_life s (manager_of p i))) (go i (QRetry j') s))"
| outcome_error: "ns_phase s i = QOutcome (Err e) \<Longrightarrow> e \<noteq> EmbeddingsUnsupported \<Longrightarrow> e \<noteq> UpstreamUnreachable \<Longrightarrow>
     net_step p s (settle i (QDone (to_openai (hv_of p) e)) (count inc_forwarding_errors s))"
| retry_ready: "ns_phase s i = QRetry j \<Longrightarrow>
     sy_tasks (ns_life s (manager_of p i)) j = TDone (DReady st) \<Longrightarrow>
     net_step p s (posted i (go i QRetryForward s))"
| retry_warming: "ns_phase s i = QRetry j \<Longrightarrow>
     sy_tasks (ns_life s (manager_of p i)) j = TDone (DWarming st n) \<Longrightarrow>
     net_step p s (settle i (QDone (warming_response (hv_of p) n)) s)"
| retry_failed: "ns_phase s i = QRetry j \<Longrightarrow>
     sy_tasks (ns_life s (manager_of p i)) j = TDone (DFailed st e) \<Longrightarrow>
     net_step p s (settle i (QDone (failed_response (hv_of p) e)) s)"
| retried_ok: "ns_phase s i = QRetryForward \<Longrightarrow> outcome p i (Ok r) \<Longrightarrow>
     net_step p s (settle i (answered_phase p i r) s)"
| retried_error: "ns_phase s i = QRetryForward \<Longrightarrow> outcome p i (Err e) \<Longrightarrow>
     net_step p s (settle i (QDone (to_openai (hv_of p) e)) s)"
| stream_end: "ns_phase s i = QStreaming r \<Longrightarrow> net_step p s (go i (QDone (Some r)) s)"
| gone_ensure: "ns_phase s i = QEnsure j \<or> ns_phase s i = QRetry j \<Longrightarrow>
     droppable (sy_tasks (ns_life s (manager_of p i)) j) \<Longrightarrow>
     net_step p s (settle i QGone (set_life (manager_of p i)
       (set_task j TDropped (ns_life s (manager_of p i))) s))"
| gone_sched: "ns_phase s i = QSched \<or> ns_phase s i = QForward \<Longrightarrow>
     sched_step (ac_warm_execution (px_config p)) (ns_sched s) sc \<Longrightarrow>
     sc_tasks sc i = SDropped c \<Longrightarrow> sc_tasks (ns_sched s) i \<noteq> SDropped c \<Longrightarrow>
     net_step p s (settle i QGone (s\<lparr>ns_sched := sc\<rparr>))"
| gone_retry_forward: "ns_phase s i = QRetryForward \<Longrightarrow> net_step p s (settle i QGone s)"

definition net_run :: "'e proxy \<Rightarrow> net \<Rightarrow> bool" where
  "net_run p s = (net_step p)\<^sup>*\<^sup>* (net_init (px_config p)) s"

section \<open>The components in the composition\<close>

text \<open>Seen from the scheduler, and from each manager, a step of the system is one of theirs or none.\<close>

lemma settle_fields [simp]:
  "ns_sched (settle i ph s) = ns_sched s" "ns_life (settle i ph s) = ns_life s"
  "ns_posts (settle i ph s) = ns_posts s" "ns_metrics (settle i ph s) = ns_metrics s"
  "ns_phase (settle i ph s) = (ns_phase s)(i := ph)" "ns_held (settle i ph s) = (ns_held s)(i := False)"
  by (simp_all add: settle_def)

lemma tunnel_seen_fields [simp]:
  "ns_sched (tunnel_seen k t s) = ns_sched s" "ns_life (tunnel_seen k t s) = ns_life s"
  "ns_posts (tunnel_seen k t s) = ns_posts s" "ns_phase (tunnel_seen k t s) = ns_phase s"
  "ns_held (tunnel_seen k t s) = ns_held s" "ns_cold_used (tunnel_seen k t s) = ns_cold_used s"
  by (simp_all add: tunnel_seen_def)

lemma net_init_fields [simp]:
  "ns_life (net_init cfg) k = sys_init backend_status_default"
  "ns_sched (net_init cfg) = sched_new (ac_warm_execution cfg)"
  "ns_cold_used (net_init cfg) = 0" "ns_phase (net_init cfg) i = QIdle" "ns_posts (net_init cfg) i = 0"
  by (simp_all add: net_init_def)

lemma sched_complete:
  "sc_tasks sc i = SRunning c \<Longrightarrow> sched_step cfg sc (release (put i (SFinished (Ok ())) sc))"
  by (rule sched_step.complete)

lemma net_step_sched:
  "net_step p s s' \<Longrightarrow>
     ns_sched s' = ns_sched s \<or> sched_step (ac_warm_execution (px_config p)) (ns_sched s) (ns_sched s')"
  by (induction rule: net_step.induct) (auto intro: sched_complete)

lemma net_step_life:
  "net_step p s s' \<Longrightarrow> ns_life s' k = ns_life s k \<or> lc_step (px_timing p) (ns_life s k) (ns_life s' k)"
  by (induction rule: net_step.induct)
    (auto intro: lc_step.arrive lc_step.degrade_read lc_step.mark_read lc_step.drop lc_step.tick)

interpretation scheduler_of: simulation "\<lambda>s. s = net_init (px_config p)" "net_step p" ns_sched
    "\<lambda>sc. sc = sched_new (ac_warm_execution (px_config p))" "sched_step (ac_warm_execution (px_config p))"
  for p :: "'e proxy"
  by unfold_locales (auto simp: net_init_def dest: net_step_sched)

interpretation manager_in: simulation "\<lambda>s. s = net_init (px_config p)" "net_step p" "\<lambda>s. ns_life s k"
    "\<lambda>l. l = sys_init backend_status_default" "lc_step (px_timing p)"
  for p :: "'e proxy" and k :: lifecycle_request
  by unfold_locales (auto simp: net_init_def dest: net_step_life)

lemma sched_reachable_run: "(sched_step cfg)\<^sup>*\<^sup>* (sched_new cfg) sc \<Longrightarrow> sched_reachable cfg sc"
  by (induction rule: rtranclp_induct) (auto intro: sched_reachable.intros)

lemma lc_reachable_run: "(lc_step tm)\<^sup>*\<^sup>* (sys_init st) l \<Longrightarrow> lc_reachable tm st l"
  by (induction rule: rtranclp_induct) (auto intro: lc_reachable.intros)

lemma run_sched: "net_run p s \<Longrightarrow> sched_reachable (ac_warm_execution (px_config p)) (ns_sched s)"
  unfolding net_run_def using scheduler_of.reachable_view [OF refl] sched_reachable_run by metis

lemma run_life: "net_run p s \<Longrightarrow> lc_reachable (px_timing p) backend_status_default (ns_life s k)"
  unfolding net_run_def using manager_in.reachable_view [OF refl] lc_reachable_run by metis

lemma net_run_init: "net_run p (net_init (px_config p))"
  by (simp add: net_run_def)

lemma net_run_step: "net_run p s \<Longrightarrow> net_step p s s' \<Longrightarrow> net_run p s'"
  unfolding net_run_def by (rule rtranclp.rtrancl_into_rtrancl)

lemma net_run_induct [consumes 1, case_names init step]:
  assumes "net_run p s" "P (net_init (px_config p))"
    and "\<And>s s'. net_run p s \<Longrightarrow> net_step p s s' \<Longrightarrow> P s \<Longrightarrow> P s'"
  shows "P s"
  using assms(1) unfolding net_run_def
proof (induction rule: rtranclp_induct)
  case base
  show ?case by (rule assms(2))
next
  case (step t u)
  then show ?case using assms(3) [of t u] by (simp add: net_run_def)
qed

section \<open>Requests and their tasks in the scheduler\<close>

fun phase_task :: "phase \<Rightarrow> sched_task \<Rightarrow> bool" where
  "phase_task QIdle t = (t = SIdle)"
| "phase_task (QAdmit c) t = (t = SIdle)"
| "phase_task (QEnsure j) t = (t = SIdle)"
| "phase_task QSched t = (t = SIdle \<or> queueing t)"
| "phase_task QForward t = (\<exists>c. t = SRunning c)"
| "phase_task ph t = (\<not> holds_permit t \<and> \<not> holds_ticket t)"

lemma queueing_simps [simp]:
  "queueing SReserving" "queueing SAcquiring" "queueing SWaiting" "queueing SGranted"
  "\<not> queueing SIdle" "\<not> queueing (SRunning c)" "\<not> queueing (SFinished r)" "\<not> queueing (SDropped c)"
  by (simp_all add: queueing_def)

text \<open>Only the acting task and the waiter it wakes change.\<close>

lemma release_others:
  assumes "set (sc_waiters s) \<subseteq> {k. sc_tasks s k = SWaiting}"
  shows "sc_tasks (release s) k = sc_tasks s k \<or> sc_tasks s k = SWaiting \<and> sc_tasks (release s) k = SGranted"
  using assms by (auto simp: release_def split: list.split)

lemma sched_inv_waiters: "sched_inv_gap cfg g s \<Longrightarrow> sc_tasks s i \<noteq> SWaiting \<Longrightarrow>
    set (sc_waiters s) \<subseteq> {k. sc_tasks (put i t s) k = SWaiting}"
  by (auto simp: sched_inv_gap_def)

lemma release_put_others:
  assumes "sched_inv cfg s" "sc_tasks s i \<noteq> SWaiting" "k \<noteq> i"
  shows "sc_tasks (release (put i t s)) k = sc_tasks s k
    \<or> sc_tasks s k = SWaiting \<and> sc_tasks (release (put i t s)) k = SGranted"
  using release_others [of "put i t s" k] sched_inv_waiters [OF assms(1,2)] assms(3) by simp

lemma release_put_self:
  assumes "sched_inv cfg s" "sc_tasks s i \<noteq> SWaiting"
  shows "sc_tasks (release (put i t s)) i = t"
  using assms by (auto simp: release_def sched_inv_gap_def split: list.split)

lemma drop_ticket_fields [simp]:
  "sc_tasks (drop_ticket s) = sc_tasks s" "sc_waiters (drop_ticket s) = sc_waiters s"
  by (simp_all add: drop_ticket_def)

lemma leave_queue_fields [simp]: "sc_tasks (leave_queue i s) = sc_tasks s"
  by (simp add: leave_queue_def)

lemma drop_granted_others:
  assumes "sched_inv cfg s" "sc_tasks s i = SGranted" "k \<noteq> i"
  shows "sc_tasks (release (put i t (drop_ticket s))) k = sc_tasks s k
    \<or> sc_tasks s k = SWaiting \<and> sc_tasks (release (put i t (drop_ticket s))) k = SGranted"
proof -
  have "set (sc_waiters (put i t (drop_ticket s))) \<subseteq> {k. sc_tasks (put i t (drop_ticket s)) k = SWaiting}"
    using assms(1,2) by (auto simp: sched_inv_gap_def)
  from release_others [OF this, of k] assms(3) show ?thesis by simp
qed

lemma sched_drop_others:
  assumes "sched_step cfg s s'" "sched_inv cfg s" "sc_tasks s' i = SDropped c" "sc_tasks s i \<noteq> SDropped c" "k \<noteq> i"
  shows "sc_tasks s' k = sc_tasks s k \<or> sc_tasks s k = SWaiting \<and> sc_tasks s' k = SGranted"
  using assms
proof (induction rule: sched_step.induct)
  case (complete s l d)
  have "i \<noteq> l" using complete release_put_self [OF complete.prems(1), of l] by auto
  with release_put_others [OF complete.prems(1), of l i "SFinished (Ok ())"] complete have False by auto
  then show ?case ..
next
  case (drop_waiting s l)
  then show ?case by (cases "i = l") auto
next
  case (drop_granted s l)
  have "i = l"
  proof (rule ccontr)
    assume "i \<noteq> l"
    with drop_granted_others [OF drop_granted.prems(1) drop_granted.hyps, of i "SDropped cancellation_new"]
      drop_granted.prems show False by auto
  qed
  with drop_granted_others [OF drop_granted.prems(1) drop_granted.hyps, of k "SDropped cancellation_new"]
    drop_granted.prems show ?case by simp
next
  case (drop_running s l d)
  have "i = l"
  proof (rule ccontr)
    assume "i \<noteq> l"
    with release_put_others [OF drop_running.prems(1), of l i "SDropped (cancel d)"] drop_running show False by auto
  qed
  with release_put_others [OF drop_running.prems(1), of l k "SDropped (cancel d)"] drop_running show ?case by simp
qed (auto split: if_splits)

definition tasks_agree :: "net \<Rightarrow> bool" where
  "tasks_agree s = (\<forall>i. phase_task (ns_phase s i) (sc_tasks (ns_sched s) i))"

lemma tasks_agreeD: "tasks_agree s \<Longrightarrow> ns_phase s i = ph \<Longrightarrow> phase_task ph (sc_tasks (ns_sched s) i)"
  by (auto simp: tasks_agree_def)

text \<open>A waiter can only be a request in \<open>QSched\<close>, and stays in agreement when it is granted.\<close>

lemma phase_task_granted: "phase_task ph SWaiting \<Longrightarrow> phase_task ph SGranted"
  by (cases ph) auto

lemma tasks_agree_phase:
  assumes "tasks_agree s" "ns_phase s i = ph0"
    and "ns_sched s' = ns_sched s" "ns_phase s' = (ns_phase s)(i := ph)"
    and "\<And>t. phase_task ph0 t \<Longrightarrow> phase_task ph t"
  shows "tasks_agree s'"
  using assms by (auto simp: tasks_agree_def)

lemma tasks_agree_sched:
  assumes "tasks_agree s" "phase_task ph (sc_tasks (ns_sched s') i)"
    and "ns_phase s' = (ns_phase s)(i := ph)"
    and "\<And>k. k \<noteq> i \<Longrightarrow> sc_tasks (ns_sched s') k = sc_tasks (ns_sched s) k
      \<or> sc_tasks (ns_sched s) k = SWaiting \<and> sc_tasks (ns_sched s') k = SGranted"
  shows "tasks_agree s'"
  unfolding tasks_agree_def
proof
  fix k
  show "phase_task (ns_phase s' k) (sc_tasks (ns_sched s') k)"
  proof (cases "k = i")
    case True
    with assms(2,3) show ?thesis by simp
  next
    case False
    with assms(1,3,4) phase_task_granted show ?thesis by (metis fun_upd_other tasks_agree_def)
  qed
qed

lemma tasks_agree_step:
  assumes "net_step p s s'" "sched_inv (ac_warm_execution (px_config p)) (ns_sched s)" "tasks_agree s"
  shows "tasks_agree s'"
  using assms
proof (induction rule: net_step.induct)
  case (life s k l)
  then show ?case by (simp add: tasks_agree_def)
next
  case (time_passes s d)
  then show ?case by (simp add: tasks_agree_def)
next
  case (queue s i sc t)
  show ?case
    by (rule tasks_agree_sched [OF queue.prems(2), of QSched _ i])
      (use queue in \<open>auto dest: tasks_agreeD\<close>)
next
  case (operate s i sc c)
  show ?case
    by (rule tasks_agree_sched [OF operate.prems(2), of QForward _ i]) (use operate in auto)
next
  case (refuse s i sc e)
  show ?case
    by (rule tasks_agree_sched [OF refuse.prems(2), of "QDone (warm_execution_error_response (hv_of p) e)" _ i])
      (use refuse in auto)
next
  case (operated s i c r)
  show ?case
    by (rule tasks_agree_sched [OF operated.prems(2), of "QOutcome r" _ i])
      (use operated release_put_self [OF operated.prems(1)] release_put_others [OF operated.prems(1)] in auto)
next
  case (gone_sched s i sc c)
  show ?case
    by (rule tasks_agree_sched [OF gone_sched.prems(2), of QGone _ i])
      (use gone_sched sched_drop_others [OF gone_sched.hyps(2) gone_sched.prems(1) gone_sched.hyps(3,4)] in auto)
next
  case (gone_ensure s i j)
  show ?case
    by (rule tasks_agree_phase [OF gone_ensure.prems(2) refl, of _ i QGone]) (use gone_ensure.hyps in auto)
qed (rule tasks_agree_phase, assumption, assumption, simp, simp, (auto simp: answered_phase_def; fail))+

lemma run_tasks_agree: "net_run p s \<Longrightarrow> tasks_agree s"
proof (induction rule: net_run_induct)
  case init
  show ?case by (simp add: tasks_agree_def net_init_def sched_new_def)
next
  case (step s s')
  with tasks_agree_step reachable_sched_inv [OF run_sched [OF step.hyps(1)]] show ?case by blast
qed

section \<open>Posts\<close>

fun phase_posts :: "phase \<Rightarrow> nat \<Rightarrow> bool" where
  "phase_posts QIdle n = (n = 0)"
| "phase_posts (QAdmit c) n = (n = 0)"
| "phase_posts (QEnsure j) n = (n = 0)"
| "phase_posts QSched n = (n = 0)"
| "phase_posts QForward n = (n = 1)"
| "phase_posts (QOutcome r) n = (n = 1)"
| "phase_posts (QDegrade j) n = (n = 1)"
| "phase_posts (QMark j) n = (n = 1)"
| "phase_posts (QRetry j) n = (n = 1)"
| "phase_posts QRetryForward n = (n = 2)"
| "phase_posts (QStreaming r) n = (n = 1 \<or> n = 2)"
| "phase_posts (QDone a) n = (n \<le> 2)"
| "phase_posts QGone n = (n \<le> 2)"

text \<open>A step changes the phase and the posts of one request, or of none.\<close>

definition posts_agree :: "net \<Rightarrow> bool" where
  "posts_agree s = (\<forall>i. phase_posts (ns_phase s i) (ns_posts s i))"

lemma posts_agree_phase:
  assumes "posts_agree s" "ns_phase s i = ph0"
    and "ns_phase s' = (ns_phase s)(i := ph)" "ns_posts s' = (ns_posts s)(i := n)"
    and "phase_posts ph0 (ns_posts s i) \<Longrightarrow> phase_posts ph n"
  shows "posts_agree s'"
  using assms by (auto simp: posts_agree_def)

lemma posts_agree_same:
  assumes "posts_agree s" "ns_phase s i = ph0"
    and "ns_phase s' = (ns_phase s)(i := ph)" "ns_posts s' = ns_posts s"
    and "\<And>n. phase_posts ph0 n \<Longrightarrow> phase_posts ph n"
  shows "posts_agree s'"
  using assms by (auto simp: posts_agree_def)

lemma posts_agree_step: "net_step p s s' \<Longrightarrow> posts_agree s \<Longrightarrow> posts_agree s'"
proof (induction rule: net_step.induct)
  case (operate s i sc c)
  show ?case
    by (rule posts_agree_phase [OF operate.prems operate.hyps(1), of _ QForward "Suc (ns_posts s i)"]) auto
next
  case (retry_ready s i j st)
  show ?case
    by (rule posts_agree_phase [OF retry_ready.prems retry_ready.hyps(1), of _ QRetryForward "Suc (ns_posts s i)"]) auto
next
  case (gone_ensure s i j)
  show ?case
    by (rule posts_agree_same [OF gone_ensure.prems refl, of _ i QGone]) (use gone_ensure.hyps in auto)
next
  case (gone_sched s i sc c)
  show ?case
    by (rule posts_agree_same [OF gone_sched.prems refl, of _ i QGone]) (use gone_sched.hyps in auto)
next
  case (life s k l)
  then show ?case by (simp add: posts_agree_def)
next
  case (time_passes s d)
  then show ?case by (simp add: posts_agree_def)
next
  case (queue s i sc t)
  then show ?case by (simp add: posts_agree_def)
qed (rule posts_agree_same, assumption, assumption, simp, simp, (auto simp: answered_phase_def; fail))+

lemma posts_agree_init: "posts_agree (net_init cfg)"
  by (simp add: posts_agree_def net_init_def)

lemma run_posts_agree: "net_run p s \<Longrightarrow> posts_agree s"
  by (induction rule: net_run_induct) (blast intro: posts_agree_init posts_agree_step)+

section \<open>Cold-start permits\<close>

text \<open>Who holds a permit is on the way; the counter counts the holders.\<close>

definition under_way :: "phase \<Rightarrow> bool" where
  "under_way ph = (case ph of QIdle \<Rightarrow> False | QAdmit _ \<Rightarrow> False | QStreaming _ \<Rightarrow> False | QDone _ \<Rightarrow> False
     | QGone \<Rightarrow> False | _ \<Rightarrow> True)"

definition cold_ok :: "'e proxy \<Rightarrow> net \<Rightarrow> bool" where
  "cold_ok p s = (finite {i. ns_held s i} \<and> card {i. ns_held s i} = ns_cold_used s
     \<and> ns_cold_used s \<le> ac_cold_start_max_waiting (px_config p) \<and> (\<forall>i. ns_held s i \<longrightarrow> under_way (ns_phase s i)))"

lemma cold_ok_same:
  assumes "cold_ok p s" "ns_held s' = ns_held s" "ns_cold_used s' = ns_cold_used s"
    and "ns_phase s i = ph0" "ns_phase s' = (ns_phase s)(i := ph)" "under_way ph0 \<Longrightarrow> under_way ph"
  shows "cold_ok p s'"
  using assms by (auto simp: cold_ok_def)

lemma cold_ok_settle:
  assumes "cold_ok p s" shows "cold_ok p (settle i ph s)"
proof (cases "ns_held s i")
  case True
  then have held: "{k. ((ns_held s)(i := False)) k} = {k. ns_held s k} - {i}" by auto
  from assms True have "{k. ns_held s k} \<noteq> {}" "finite {k. ns_held s k}" "card {k. ns_held s k} = ns_cold_used s"
    by (auto simp: cold_ok_def)
  then have "0 < ns_cold_used s" by (metis card_gt_0_iff)
  moreover from assms True have "card ({k. ns_held s k} - {i}) = ns_cold_used s - 1"
    by (simp add: cold_ok_def)
  ultimately have "card ({k. ns_held s k} - {i}) = ns_cold_used s - 1" "0 < ns_cold_used s" by simp_all
  with assms True held show ?thesis by (auto simp: cold_ok_def settle_def cold_release_def)
next
  case False
  then have "(ns_held s)(i := False) = ns_held s" by (simp add: fun_upd_idem)
  with assms False show ?thesis by (auto simp: cold_ok_def settle_def)
qed

lemma cold_ok_other: "cold_ok p s \<Longrightarrow> ns_held s' = ns_held s \<Longrightarrow> ns_cold_used s' = ns_cold_used s \<Longrightarrow>
    ns_phase s' = ns_phase s \<Longrightarrow> cold_ok p s'"
  by (simp add: cold_ok_def)

lemma cold_ok_step: "net_step p s s' \<Longrightarrow> cold_ok p s \<Longrightarrow> cold_ok p s'"
proof (induction rule: net_step.induct)
  case (admit_permit s i u j)
  have i: "\<not> ns_held s i" using admit_permit by (auto simp: cold_ok_def under_way_def)
  then have "{k. ((ns_held s)(i := True)) k} = insert i {k. ns_held s k}" by auto
  with admit_permit i show ?case
    by (auto simp: cold_ok_def under_way_def cold_acquire_def split: if_splits)
next
  case (come s i)
  show ?case
    by (rule cold_ok_same [OF come.prems _ _ come.hyps]) (auto simp: under_way_def)
next
  case (stream_end s i r)
  show ?case
    by (rule cold_ok_same [OF stream_end.prems _ _ stream_end.hyps]) (auto simp: under_way_def)
qed (rule cold_ok_settle cold_ok_other cold_ok_same, assumption,
     (simp add: under_way_def; fail)+ | (rule cold_ok_settle, rule cold_ok_other, assumption, simp, simp, simp; fail))+

lemma cold_ok_init: "cold_ok p (net_init cfg)"
  by (simp add: cold_ok_def net_init_def)

lemma run_cold_ok: "net_run p s \<Longrightarrow> cold_ok p s"
  by (induction rule: net_run_induct) (blast intro: cold_ok_init cold_ok_step)+

section \<open>Answers\<close>

text \<open>An answer comes from the backend, or is one of the proxy's own errors.\<close>

abbreviation good_answer :: "'e proxy \<Rightarrow> nat \<Rightarrow> response option \<Rightarrow> bool" where
  "good_answer p i a \<equiv> answer_ok (px_libs p) (px_config p) (kind_of p i) (in_body (px_incoming p i))
     (in_stream (px_incoming p i)) a"

abbreviation backend_answer :: "'e proxy \<Rightarrow> nat \<Rightarrow> response \<Rightarrow> bool" where
  "backend_answer p i r \<equiv> from_backend (px_libs p) (px_config p) (kind_of p i) (in_body (px_incoming p i))
     (in_stream (px_incoming p i)) r"

fun phase_answer :: "'e proxy \<Rightarrow> nat \<Rightarrow> phase \<Rightarrow> bool" where
  "phase_answer p i (QOutcome (Inr r)) = backend_answer p i r"
| "phase_answer p i (QStreaming r) = backend_answer p i r"
| "phase_answer p i (QDone a) = good_answer p i a"
| "phase_answer p i _ = True"

lemma outcome_backend: "outcome p i (Ok r) \<Longrightarrow> backend_answer p i r"
  by (auto simp: outcome_def from_backend_def)

lemma phase_answer_outcome: "outcome p i r \<Longrightarrow> phase_answer p i (QOutcome r)"
  by (cases r) (auto intro: outcome_backend)

lemma phase_answer_answered: "backend_answer p i r \<Longrightarrow> phase_answer p i (answered_phase p i r)"
  by (cases "in_stream (px_incoming p i)") (simp_all add: answered_phase_def answer_ok_def)

lemma good_degraded [simp]: "good_answer p i (openai_error h 400 c m None)"
  by (rule answer_ok_error) simp

lemma phase_answer_step:
  "net_step p s s' \<Longrightarrow> \<forall>k. phase_answer p k (ns_phase s k) \<Longrightarrow> \<forall>k. phase_answer p k (ns_phase s' k)"
proof (induction rule: net_step.induct)
  case (operated s i c r)
  then show ?case by (simp add: phase_answer_outcome)
next
  case (outcome_ok s i r)
  then have "backend_answer p i r" by (metis phase_answer.simps(1))
  with outcome_ok show ?case by (simp add: phase_answer_answered)
next
  case (retried_ok s i r)
  then show ?case by (simp add: phase_answer_answered outcome_backend)
next
  case (stream_end s i r)
  then have "backend_answer p i r" by (metis phase_answer.simps(2))
  with stream_end show ?case by (simp add: answer_ok_def)
qed simp_all

lemma run_phase_answer:
  assumes "net_run p s" shows "phase_answer p i (ns_phase s i)"
proof -
  have "\<forall>k. phase_answer p k (ns_phase s k)"
    using assms
  proof (induction rule: net_run_induct)
    case init
    show ?case by (simp add: net_init_def)
  next
    case (step s s')
    then show ?case using phase_answer_step by metis
  qed
  then show ?thesis ..
qed

section \<open>A manager without a driver\<close>

text \<open>
  A request that cannot be served: it has not entered \<open>ensure_backend\<close>, or is in it without a
  decision other than \<open>Warming\<close>, or has been refused with 503, or has gone.
\<close>

definition no_good_decision :: "task \<Rightarrow> bool" where
  "no_good_decision t = (\<forall>d. t = TDone d \<longrightarrow> (\<exists>st n. d = DWarming st n))"

definition unserved :: "'e proxy \<Rightarrow> nat \<Rightarrow> net \<Rightarrow> bool" where
  "unserved p i s = (ns_posts s i = 0 \<and> (case ns_phase s i of QIdle \<Rightarrow> True | QAdmit _ \<Rightarrow> True
     | QEnsure j \<Rightarrow> no_good_decision (sy_tasks (ns_life s (manager_of p i)) j)
     | QDone a \<Rightarrow> (\<forall>r. a = Some r \<longrightarrow> rs_status r = 503) | QGone \<Rightarrow> True | _ \<Rightarrow> False))"

lemma no_good_decision_step:
  assumes "net_step p s s'" "abandoned (ns_life s k)" "no_good_decision (sy_tasks (ns_life s k) j)"
  shows "no_good_decision (sy_tasks (ns_life s' k) j)"
proof -
  have "new_decisions_warming (ns_life s k) (ns_life s' k)"
    using net_step_life [OF assms(1), of k] abandoned_step [OF _ assms(2)] new_decisions_warming_refl by metis
  with assms(3) show ?thesis unfolding new_decisions_warming_def no_good_decision_def by metis
qed

lemma abandoned_net_step: "net_step p s s' \<Longrightarrow> abandoned (ns_life s k) \<Longrightarrow> abandoned (ns_life s' k)"
  using net_step_life [of p s s' k] abandoned_step by metis

lemma posts_same: "net_step p s s' \<Longrightarrow> ns_phase s' i = ns_phase s i \<Longrightarrow> ns_posts s' i = ns_posts s i"
  by (induction rule: net_step.induct) (auto split: if_splits)

text \<open>A step in which request \<open>i\<close> does not act leaves it unserved.\<close>

lemma unserved_other:
  assumes "net_step p s s'" "abandoned (ns_life s (manager_of p i))" "unserved p i s"
    and "ns_phase s' i = ns_phase s i"
  shows "unserved p i s'"
  using assms(3,4) no_good_decision_step [OF assms(1,2)] posts_same [OF assms(1,4)] unfolding unserved_def
  by (auto split: phase.splits)

lemma no_good_start [simp]: "no_good_decision (TStart r)" "no_good_decision TDropped"
  by (simp_all add: no_good_decision_def)

lemma no_good_done [simp]: "no_good_decision (TDone d) = (\<exists>st n. d = DWarming st n)"
  by (simp add: no_good_decision_def)

lemma refusal_status:
  "warming_response h n = Some r \<Longrightarrow> rs_status r = 503"
  "openai_error h 503 c m x = Some r \<Longrightarrow> rs_status r = 503"
  by (auto simp: warming_response_def dest: openai_error_status)

text \<open>The acting request: by cases on its phase before.\<close>

lemma unserved_act:
  assumes "net_step p s s'" "unserved p i s" "ns_phase s' i \<noteq> ns_phase s i"
  shows "unserved p i s'"
  using assms
proof (induction rule: net_step.induct)
  case (come s k)
  then show ?case by (auto simp: unserved_def split: if_splits)
next
  case (admit_full s k)
  then show ?case by (auto simp: unserved_def refusal_status split: if_splits)
next
  case (admit_permit s k u j)
  then show ?case by (auto simp: unserved_def split: if_splits)
next
  case (admit_free s k j)
  then show ?case by (auto simp: unserved_def split: if_splits)
next
  case (ensure_warming s k j st n)
  then show ?case by (auto simp: unserved_def refusal_status split: if_splits)
next
  case (gone_ensure s k j)
  then show ?case by (auto simp: unserved_def split: if_splits)
next
  case (gone_sched s k sc c)
  then show ?case by (auto simp: unserved_def split: if_splits)
next
  case (gone_retry_forward s k)
  then show ?case by (auto simp: unserved_def split: if_splits)
qed (auto simp: unserved_def split: if_splits)

lemma unserved_run:
  assumes "(net_step p)\<^sup>*\<^sup>* s s'" "abandoned (ns_life s (manager_of p i))" "unserved p i s"
  shows "abandoned (ns_life s' (manager_of p i)) \<and> unserved p i s'"
  using assms
proof (induction rule: rtranclp_induct)
  case base
  then show ?case by simp
next
  case (step t u)
  then have "abandoned (ns_life t (manager_of p i))" "unserved p i t" by blast+
  with step.hyps(2) show ?case
    using abandoned_net_step unserved_other unserved_act by metis
qed

section \<open>Properties\<close>

text \<open>A request's phase tells what its task in the scheduler holds.\<close>

lemma phase_holds:
  "phase_task ph t \<Longrightarrow> (\<exists>c. t = SRunning c) \<longleftrightarrow> ph = QForward"
  "phase_task ph t \<Longrightarrow> holds_permit t \<longleftrightarrow> ph = QForward \<or> ph = QSched \<and> t = SGranted"
  "phase_task ph t \<Longrightarrow> holds_ticket t \<longleftrightarrow> ph = QSched \<and> t \<in> {SAcquiring, SWaiting, SGranted}"
  by (cases ph; auto simp: holds_permit_def holds_ticket_def queueing_def)+

text \<open>
  C5: The orchestrator gives the scheduler back everything, whatever its requests go through and
  wherever they are dropped. In every reachable state the operations that run are those of the
  requests that wait for their first answer; the free permits, these requests and those in
  \<open>execute\<close> of the scheduler that were just granted one add up to \<open>max_active_requests\<close>; and the
  queue counter is the number of requests that wait in it. So when no request is in the
  scheduler or at its first post, all permits are free and the queue is empty.
\<close>

theorem scheduler_gets_everything_back:
  assumes "net_run p s"
  shows "{i. \<exists>c. sc_tasks (ns_sched s) i = SRunning c} = {i. ns_phase s i = QForward}
    \<and> sc_permits (ns_sched s)
        + card {i. ns_phase s i = QForward \<or> ns_phase s i = QSched \<and> sc_tasks (ns_sched s) i = SGranted}
      = max_active_requests (ac_warm_execution (px_config p))
    \<and> sc_queued (ns_sched s)
      = card {i. ns_phase s i = QSched \<and> sc_tasks (ns_sched s) i \<in> {SAcquiring, SWaiting, SGranted}}"
proof -
  let ?cfg = "ac_warm_execution (px_config p)" and ?sc = "ns_sched s"
  have agree: "phase_task (ns_phase s i) (sc_tasks ?sc i)" for i
    using run_tasks_agree [OF assms] by (simp add: tasks_agree_def)
  have inv: "sched_inv ?cfg ?sc" using run_sched [OF assms] by (rule reachable_sched_inv)
  have "permit_holders ?sc = {i. holds_permit (sc_tasks ?sc i)}" "ticket_holders ?sc = {i. holds_ticket (sc_tasks ?sc i)}"
    by (auto simp: permit_holders_def ticket_holders_def holds_permit_def holds_ticket_def)
  then have "permit_holders ?sc = {i. ns_phase s i = QForward \<or> ns_phase s i = QSched \<and> sc_tasks ?sc i = SGranted}"
    "ticket_holders ?sc = {i. ns_phase s i = QSched \<and> sc_tasks ?sc i \<in> {SAcquiring, SWaiting, SGranted}}"
    using phase_holds(2,3) [OF agree] by simp_all
  with inv phase_holds(1) [OF agree] show ?thesis by (simp add: sched_inv_gap_def)
qed

text \<open>
  C16: What the scheduler's limit limits. In every reachable state the requests that wait for the
  answer to their first post are at most \<open>max_active_requests\<close>; a request posts at most twice,
  and a request that has not been admitted by the scheduler has posted nothing.
\<close>

theorem first_posts_limited:
  assumes "net_run p s"
  shows "card {i. ns_phase s i = QForward} \<le> max_active_requests (ac_warm_execution (px_config p))
    \<and> ns_posts s i \<le> 2 \<and> (ns_phase s i = QSched \<longrightarrow> ns_posts s i = 0)"
proof -
  let ?cfg = "ac_warm_execution (px_config p)"
  have inv: "sched_inv ?cfg (ns_sched s)" using run_sched [OF assms] by (rule reachable_sched_inv)
  have "{i. ns_phase s i = QForward} \<subseteq> permit_holders (ns_sched s)"
    using run_tasks_agree [OF assms] by (fastforce simp: permit_holders_def dest: tasks_agreeD)
  with inv have "card {i. ns_phase s i = QForward} \<le> max_active_requests ?cfg"
    unfolding sched_inv_gap_def by (metis card_mono le_add1 le_trans add.right_neutral)
  moreover have "phase_posts (ns_phase s i) (ns_posts s i)"
    using run_posts_agree [OF assms] by (simp add: posts_agree_def)
  then have "ns_posts s i \<le> 2 \<and> (ns_phase s i = QSched \<longrightarrow> ns_posts s i = 0)"
    by (cases "ns_phase s i") auto
  ultimately show ?thesis by blast
qed

text \<open>
  C23: Cold-start permits are exact under concurrency and disconnects: in every reachable state
  the counter is the number of requests that hold one, at most the configured number, and only
  a request on its way through \<open>execute\<close> holds one.
\<close>

theorem cold_permits_exact:
  assumes "net_run p s"
  shows "ns_cold_used s = card {i. ns_held s i} \<and> ns_cold_used s \<le> ac_cold_start_max_waiting (px_config p)
    \<and> (ns_held s i \<longrightarrow> under_way (ns_phase s i))"
  using run_cold_ok [OF assms] by (simp add: cold_ok_def)

text \<open>
  C6: Answers under concurrency. However requests interleave, a request that has been answered has
  an answer of status 200 exactly when it is what the forwarder made of the backend's answer to
  that request, and any other answer has status 400, 429 or 503; a stream is always the
  backend's.
\<close>

theorem concurrent_answers:
  assumes "net_run p s"
  shows "case ns_phase s i of
      QStreaming r \<Rightarrow> rs_status r = 200 \<and> outcome p i (Ok r)
    | QDone (Some r) \<Rightarrow> rs_status r \<in> {200, 400, 429, 503} \<and> (rs_status r = 200) = outcome p i (Ok r)
    | QDone None \<Rightarrow> \<exists>n. hv_of p (show_nat n) = None
    | _ \<Rightarrow> True"
proof -
  have eq: "backend_answer p i r = outcome p i (Ok r)" for r by (simp add: outcome_def from_backend_def)
  have "backend_answer p i r \<Longrightarrow> rs_status r = 200" for r by (rule from_backend_status)
  with run_phase_answer [OF assms, of i] show ?thesis
    unfolding eq
    by (auto simp: answer_ok_def own_statuses_def eq split: phase.split option.split)
qed

text \<open>
  C1: The end of the service. Once a manager has an active bootstrap that nobody drives, no
  request of that manager that is still to come is ever forwarded: whatever the host and the
  backend do, it waits, goes away, or gets status 503, and nothing is posted for it.
\<close>

theorem abandoned_manager_refuses:
  assumes "(net_step p)\<^sup>*\<^sup>* s s'" "net_run p s"
    and "bt_active (co_bootstrap (sy_core (ns_life s (manager_of p i))))"
    and "\<And>j. \<not> driver (sy_tasks (ns_life s (manager_of p i)) j)"
    and "ns_phase s i = QIdle"
  shows "ns_posts s' i = 0 \<and> (case ns_phase s' i of QIdle \<Rightarrow> True | QAdmit _ \<Rightarrow> True | QEnsure _ \<Rightarrow> True
      | QGone \<Rightarrow> True | QDone a \<Rightarrow> (\<forall>r. a = Some r \<longrightarrow> rs_status r = 503) | _ \<Rightarrow> False)"
proof -
  have "abandoned (ns_life s (manager_of p i))" using assms(3,4) by (simp add: abandoned_def)
  moreover have "phase_posts (ns_phase s i) (ns_posts s i)"
    using run_posts_agree [OF assms(2)] by (simp add: posts_agree_def)
  with assms(5) have "unserved p i s" by (simp add: unserved_def)
  ultimately have "unserved p i s'" using unserved_run [OF assms(1)] by blast
  then show ?thesis by (auto simp: unserved_def split: phase.splits)
qed

end
