(* ===== verification/Request_Runs.thy ===== *)
theory Request_Runs
  imports Request_System
begin

text \<open>
  Runs of the whole system (\<open>Request_System\<close>) that show what its limits do not limit, what a
  disconnected client can do, and the witnesses of the theorems on it.
\<close>

section \<open>Runs of one manager\<close>

definition own_step :: "lifecycle_timing \<Rightarrow> sys \<Rightarrow> sys \<Rightarrow> bool" where
  "own_step tm l l' = (lc_step tm l l' \<and> on_its_own l l')"

lemma own_stepI:
  assumes "lc_step tm l l'" "sy_tasks l' = (sy_tasks l)(j := t)" "sy_tasks l j \<noteq> TIdle" "t \<noteq> TDropped"
    and "sy_clock l' = sy_clock l"
  shows "own_step tm l l'"
  using assms by (auto simp: own_step_def on_its_own_def)

lemma own_step_run: "own_step tm a b \<Longrightarrow> (own_step tm)\<^sup>*\<^sup>* b c \<Longrightarrow> (own_step tm)\<^sup>*\<^sup>* a c"
  by (rule converse_rtranclp_into_rtranclp)

lemma life_run:
  assumes "(own_step (px_timing p))\<^sup>*\<^sup>* l l'" "ns_life s k = l"
  shows "(net_step p)\<^sup>*\<^sup>* s (set_life k l' s)"
  using assms
proof (induction rule: rtranclp_induct)
  case base
  then have "set_life k l s = s" by (simp add: fun_upd_idem)
  then show ?case by (metis rtranclp.rtrancl_refl)
next
  case (step y z)
  then have "net_step p (set_life k y s) (set_life k z (set_life k y s))"
    by (intro net_step.life) (simp_all add: own_step_def)
  moreover have "set_life k z (set_life k y s) = set_life k z s" by simp
  ultimately show ?case using step.IH [OF step.prems] by (metis rtranclp.rtrancl_into_rtrancl)
qed

text \<open>
  A manager without a bootstrap can make a request's backend ready, whatever its status: at
  once if it is ready, and otherwise by one observation in which everything answers well.
\<close>

definition all_well :: observed_backend_state where
  "all_well = \<lparr>ob_lifecycle = LsReady, ob_chat = CsReady, ob_embeddings = CsReady,
     ob_embeddings_reason = None, ob_error = None, ob_llama_server_unit = UsActive, ob_inhibit_unit = UsActive\<rparr>"

lemma observation_can_succeed:
  fixes wr :: "lifecycle_request option" and r :: lifecycle_request and st :: backend_status
  defines "ob0 \<equiv> obs_init wr r st"
  defines "ob1 \<equiv> ob0\<lparr>o_pc := AtHelper\<rparr>"
  defines "ob2 \<equiv> ob1\<lparr>o_status := apply_observed all_well st, o_pc := AtTunnel\<rparr>"
  defines "ready \<equiv> (apply_observed all_well st)\<lparr>bs_tunnel := TsReady\<rparr>"
  shows "obs_step tm t ob0 (ASsh (Ok True)) = Some (Running ob1)"
    and "obs_step tm t ob1 (AHelper (Ok all_well)) = Some (Running ob2)"
    and "obs_step tm t ob2 (ATunnel (Ok TsReady)) = Some (Finished (DReady ready))"
    and "backend_is_ready ready"
  by (simp_all add: ob0_def ob1_def ob2_def ready_def obs_step_def obs_init_def all_well_def
      apply_observed_def backend_is_ready_def Let_def)

lemma ready_task_finishes:
  assumes j: "sy_tasks l j = TReady st"
  shows "\<exists>l'. (own_step tm)\<^sup>*\<^sup>* l l' \<and> sy_tasks l' = (sy_tasks l)(j := TDone (DReady st))
    \<and> \<not> active l' \<and> co_status (sy_core l') = co_status (sy_core l)"
proof -
  let ?now = "co_status (sy_core l)"
  let ?l1 = "set_task j (TFinish ?now None (DReady st)) l"
  let ?l2 = "set_task j (TDone (DReady st)) (set_core (finish_bootstrap ?now None (sy_core ?l1))
      (?l1\<lparr>sy_finishes := Suc (sy_finishes ?l1)\<rparr>))"
  have "own_step tm l ?l1"
    by (rule own_stepI [where j = j and t = "TFinish ?now None (DReady st)", OF lc_step.ready_borrow]) (simp_all add: j)
  moreover have "own_step tm ?l1 ?l2"
    by (rule own_stepI [where j = j and t = "TDone (DReady st)",
          OF lc_step.finish [of ?l1 j ?now None "DReady st"]]) simp_all
  ultimately have "(own_step tm)\<^sup>*\<^sup>* l ?l2" by (auto intro: rtranclp.rtrancl_into_rtrancl)
  then show ?thesis
    by (intro exI [of _ ?l2]) (simp add: finish_bootstrap_def publish_def Let_def)
qed

text \<open>The way of a request that starts the bootstrap, up to the first answer of the host.\<close>

lemma request_starts_observing:
  assumes j: "sy_tasks l j = TStart r" and idle: "\<not> active l"
    and other: "\<not> backend_is_ready (co_status (sy_core l))"
  shows "\<exists>l' v. (own_step tm)\<^sup>*\<^sup>* l l'
    \<and> sy_tasks l' = (sy_tasks l)(j := TObserve (obs_init (Some r) r (co_status (sy_core l))) v)
    \<and> active l' \<and> co_status (sy_core l') = co_status (sy_core l)"
proof -
  let ?st = "co_status (sy_core l)"
  let ?c = "(sy_core l)\<lparr>co_bootstrap := \<lparr>bt_active = True, bt_last_error = None, bt_observe_request = r\<rparr>\<rparr>"
  let ?l1 = "set_task j (TCheck r ?st) l"
  let ?l2 = "set_task j (TJoin r ?st) ?l1"
  let ?v = "co_version ?c"
  let ?l3 = "set_task j (TObserveReq r ?st ?v) (set_core ?c (?l2\<lparr>sy_starts := Suc (sy_starts ?l2)\<rparr>))"
  let ?l4 = "set_task j (TObserve (obs_init (Some r) r ?st) ?v) ?l3"
  have join: "start_or_join_bootstrap r (sy_core l) = (True, ?c)"
    using idle by (rule start_or_join_idle)
  have s1: "own_step tm l ?l1"
    by (rule own_stepI [OF lc_step.borrow [OF j], of j "TCheck r ?st"]) (simp_all add: j)
  have s2: "own_step tm ?l1 ?l2"
    by (rule own_stepI [where j = j and t = "TJoin r ?st", OF lc_step.check_other]) (simp_all add: other)
  have s3: "own_step tm ?l2 ?l3"
    by (rule own_stepI [where j = j and t = "TObserveReq r ?st ?v", OF lc_step.join_start]) (simp_all add: join)
  have "lc_step tm ?l3 ?l4" using lc_step.observe_request [of ?l3 j r ?st ?v tm] by simp
  then have s4: "own_step tm ?l3 ?l4" by (rule own_stepI [where j = j and t = "TObserve (obs_init (Some r) r ?st) ?v"]) simp_all
  have "(own_step tm)\<^sup>*\<^sup>* l ?l4"
    by (rule own_step_run [OF s1] own_step_run [OF s2] own_step_run [OF s3] own_step_run [OF s4]
        rtranclp.rtrancl_refl)+
  then show ?thesis by (intro exI [of _ ?l4] exI [of _ ?v]) simp
qed

lemma request_keeps_observing:
  assumes "sy_tasks l j = TObserve ob v" "obs_step tm t ob a = Some (Running ob')"
  shows "\<exists>l'. own_step tm l l' \<and> sy_tasks l' = (sy_tasks l)(j := TObserve ob' v) \<and> sy_core l' = sy_core l"
proof -
  let ?l = "set_task j (TObserve ob' v) (l\<lparr>sy_wakes := sy_wakes l @ wake_sent ob'\<rparr>)"
  have "own_step tm l ?l"
    by (rule own_stepI [where j = j and t = "TObserve ob' v", OF lc_step.observe_continue [OF assms]])
      (simp_all add: assms(1))
  then show ?thesis by (intro exI [of _ ?l]) simp
qed

lemma request_finds_ready:
  assumes "sy_tasks l j = TObserve ob v" "obs_step tm t ob a = Some (Finished (DReady st))"
  shows "\<exists>l'. own_step tm l l' \<and> sy_tasks l' = (sy_tasks l)(j := TReady st) \<and> co_status (sy_core l') = st"
proof -
  let ?l = "set_task j (TReady st) (set_core (publish st (sy_core l)) l)"
  have "own_step tm l ?l"
    by (rule own_stepI [where j = j and t = "TReady st", OF lc_step.observe_ready [OF assms]])
      (simp_all add: assms(1))
  then show ?thesis by (intro exI [of _ ?l]) simp
qed

lemma manager_can_get_ready:
  assumes j: "sy_tasks l j = TStart r" and idle: "\<not> active l"
  shows "\<exists>l' st. (own_step tm)\<^sup>*\<^sup>* l l' \<and> sy_tasks l' = (sy_tasks l)(j := TDone (DReady st))
    \<and> \<not> active l' \<and> backend_is_ready (co_status (sy_core l'))"
proof (cases "backend_is_ready (co_status (sy_core l))")
  case True
  let ?st = "co_status (sy_core l)"
  let ?l1 = "set_task j (TCheck r ?st) l"
  have "own_step tm l ?l1"
    by (rule own_stepI [OF lc_step.borrow [OF j], of j "TCheck r ?st"]) (simp_all add: j)
  moreover have "own_step tm ?l1 (set_task j (TDone (DReady ?st)) ?l1)"
    by (rule own_stepI [OF lc_step.check_ready [of ?l1 j r ?st tm], of j "TDone (DReady ?st)"])
      (simp_all add: idle True)
  ultimately have "(own_step tm)\<^sup>*\<^sup>* l (set_task j (TDone (DReady ?st)) l)"
    by (auto intro: rtranclp.rtrancl_into_rtrancl)
  with idle True show ?thesis by (intro exI [of _ "set_task j (TDone (DReady ?st)) l"]) auto
next
  case False
  let ?ready = "(apply_observed all_well (co_status (sy_core l)))\<lparr>bs_tunnel := TsReady\<rparr>"
  note obs = observation_can_succeed(1-3) [where wr = "Some r" and st = "co_status (sy_core l)" and r = r]
  obtain l1 v where l1: "(own_step tm)\<^sup>*\<^sup>* l l1"
      "sy_tasks l1 = (sy_tasks l)(j := TObserve (obs_init (Some r) r (co_status (sy_core l))) v)"
    using request_starts_observing [OF j idle False] by blast
  from l1(2) have "sy_tasks l1 j = TObserve (obs_init (Some r) r (co_status (sy_core l))) v" by simp
  from request_keeps_observing [OF this obs(1)] obtain l2 where l2: "own_step tm l1 l2"
      "sy_tasks l2 = (sy_tasks l1)(j := TObserve ((obs_init (Some r) r (co_status (sy_core l)))\<lparr>o_pc := AtHelper\<rparr>) v)"
    by blast
  from l2(2) have "sy_tasks l2 j = TObserve ((obs_init (Some r) r (co_status (sy_core l)))\<lparr>o_pc := AtHelper\<rparr>) v"
    by simp
  from request_keeps_observing [OF this obs(2)] obtain l3 ob where l3: "own_step tm l2 l3"
      "sy_tasks l3 = (sy_tasks l2)(j := TObserve ob v)" "obs_step tm t ob (ATunnel (Ok TsReady)) = Some (Finished (DReady ?ready))" for t
    using obs(3) by metis
  from l3(2) have "sy_tasks l3 j = TObserve ob v" by simp
  from request_finds_ready [OF this l3(3)] obtain l4 where l4: "own_step tm l3 l4"
      "sy_tasks l4 = (sy_tasks l3)(j := TReady ?ready)" "co_status (sy_core l4) = ?ready" by blast
  from l4(2) have "sy_tasks l4 j = TReady ?ready" by simp
  from ready_task_finishes [OF this, of tm] obtain l' where l': "(own_step tm)\<^sup>*\<^sup>* l4 l'"
    "sy_tasks l' = (sy_tasks l4)(j := TDone (DReady ?ready))" "\<not> active l'"
    "co_status (sy_core l') = co_status (sy_core l4)" by blast
  have "(own_step tm)\<^sup>*\<^sup>* l l'"
    using l1(1) l2(1) l3(1) l4(1) l'(1) by (meson converse_rtranclp_into_rtranclp rtranclp_trans)
  moreover have "sy_tasks l' = (sy_tasks l)(j := TDone (DReady ?ready))"
    unfolding l'(2) l4(2) l3(2) l2(2) l1(2) by simp
  moreover have "backend_is_ready (co_status (sy_core l'))" unfolding l'(4) l4(3) by (rule observation_can_succeed(4))
  ultimately show ?thesis using l'(3) by blast
qed

section \<open>Runs of one request\<close>

lemma manager_for_chat [simp]: "manager_for cfg Chat = Chat"
  by (simp add: manager_for_def split: option.split)

text \<open>A manager that is at rest: no bootstrap, and tasks left for new callers.\<close>

definition at_rest :: "sys \<Rightarrow> bool" where
  "at_rest l = (\<not> active l \<and> infinite {j. sy_tasks l j = TIdle})"

lemma at_rest_idle: "at_rest l \<Longrightarrow> \<exists>j. sy_tasks l j = TIdle"
  unfolding at_rest_def using not_finite_existsD by blast

lemma infinite_idle_update:
  assumes "infinite {j. sy_tasks l j = TIdle}" "sy_tasks l' = (sy_tasks l)(k := t)"
  shows "infinite {j. sy_tasks l' j = TIdle}"
proof -
  have "{j. sy_tasks l j = TIdle} - {k} \<subseteq> {j. sy_tasks l' j = TIdle}" using assms(2) by auto
  moreover have "infinite ({j. sy_tasks l j = TIdle} - {k})" using assms(1) by simp
  ultimately show ?thesis using finite_subset by blast
qed

lemma at_rest_init: "at_rest (sys_init st)"
  by (simp add: at_rest_def sys_init_def core_new_def bootstrap_default_def)

text \<open>From \<open>ensure_backend\<close> (first or second) to a ready decision.\<close>

lemma ensure_can_get_ready:
  assumes "sy_tasks (ns_life s k) j = TStart r" "at_rest (ns_life s k)"
  shows "\<exists>l st. (net_step p)\<^sup>*\<^sup>* s (set_life k l s) \<and> at_rest l \<and> sy_tasks l j = TDone (DReady st)
    \<and> backend_is_ready (co_status (sy_core l))"
proof -
  have "\<not> active (ns_life s k)" using assms(2) by (simp add: at_rest_def)
  from manager_can_get_ready [OF assms(1) this, of "px_timing p"] obtain l st where
    l: "(own_step (px_timing p))\<^sup>*\<^sup>* (ns_life s k) l"
      "sy_tasks l = (sy_tasks (ns_life s k))(j := TDone (DReady st))" "\<not> active l"
      "backend_is_ready (co_status (sy_core l))" by blast
  have "at_rest l"
    using assms(2) l(3) infinite_idle_update [OF _ l(2)] by (simp add: at_rest_def)
  with life_run [OF l(1) refl] l(2,4) show ?thesis by auto
qed

lemma chat_request_reaches_scheduler:
  assumes i: "ns_phase s i = QIdle" and chat: "kind_of p i = Chat"
    and rest: "at_rest (ns_life s Chat)"
    and cold: "bs_lifecycle (co_status (sy_core (ns_life s Chat))) = LsCold \<longrightarrow>
      ns_cold_used s < ac_cold_start_max_waiting (px_config p)"
  shows "\<exists>s'. (net_step p)\<^sup>*\<^sup>* s s' \<and> ns_phase s' = (ns_phase s)(i := QSched) \<and> ns_sched s' = ns_sched s
    \<and> at_rest (ns_life s' Chat) \<and> backend_is_ready (co_status (sy_core (ns_life s' Chat)))"
proof -
  define c where "c = (bs_lifecycle (co_status (sy_core (ns_life s Chat))) = LsCold)"
  obtain j where j: "sy_tasks (ns_life s Chat) j = TIdle" using at_rest_idle [OF rest] by blast
  let ?s1 = "go i (QAdmit c) s"
  have "net_step p s ?s1" using net_step.come [OF i, of p] chat by (simp add: c_def)
  moreover define l where "l = set_task j (TStart Chat) (ns_life s Chat)"
  have l: "at_rest l" "sy_tasks l j = TStart Chat"
    using rest infinite_idle_update [of "ns_life s Chat" l j "TStart Chat"] by (simp_all add: at_rest_def l_def)
  have "\<exists>s2. net_step p ?s1 s2 \<and> ns_phase s2 = (ns_phase s)(i := QEnsure j) \<and> ns_life s2 Chat = l
      \<and> ns_sched s2 = ns_sched s"
  proof (cases c)
    case True
    have "cold_acquire (ac_cold_start_max_waiting (px_config p)) (ns_cold_used ?s1) = Some (Suc (ns_cold_used s))"
      using cold True by (simp add: cold_acquire_def c_def)
    from net_step.admit_permit [OF _ this, of i j] show ?thesis
      using True j chat by (intro exI) (auto simp: l_def)
  next
    case False
    from net_step.admit_free [of ?s1 i p j] show ?thesis
      using False j chat by (intro exI) (auto simp: l_def)
  qed
  then obtain s2 where s2: "net_step p ?s1 s2" "ns_phase s2 = (ns_phase s)(i := QEnsure j)" "ns_life s2 Chat = l"
    "ns_sched s2 = ns_sched s" by blast
  from ensure_can_get_ready [of s2 Chat j Chat p] l s2(3) obtain l' st where
    l': "(net_step p)\<^sup>*\<^sup>* s2 (set_life Chat l' s2)" "at_rest l'" "sy_tasks l' j = TDone (DReady st)"
    "backend_is_ready (co_status (sy_core l'))" by blast
  let ?s3 = "set_life Chat l' s2"
  have "net_step p ?s3 (go i QSched (tunnel_seen (kind_of p i) (bs_tunnel st) ?s3))"
    by (rule net_step.ensure_ready [of _ _ j]) (simp_all add: s2 l' chat)
  ultimately have "(net_step p)\<^sup>*\<^sup>* s (go i QSched (tunnel_seen (kind_of p i) (bs_tunnel st) ?s3))"
    using s2(1) l'(1) by (meson converse_rtranclp_into_rtranclp rtranclp.rtrancl_into_rtrancl)
  then show ?thesis
    by (intro exI [of _ "go i QSched (tunnel_seen (kind_of p i) (bs_tunnel st) ?s3)"])
      (simp add: s2 l')
qed

lemma sched_request_runs:
  assumes "ns_phase s i = QSched" "sc_tasks (ns_sched s) i = SIdle" "0 < sc_permits (ns_sched s)"
  shows "net_step p s (posted i (go i QForward (s\<lparr>ns_sched := put i (SRunning cancellation_new)
    ((ns_sched s)\<lparr>sc_permits := sc_permits (ns_sched s) - 1\<rparr>)\<rparr>)))"
  by (rule net_step.operate [OF assms(1) sched_step.try_ok [OF assms(2,3)]]) simp

text \<open>
  The system between two requests of a series: requests below \<open>n\<close> have come and satisfy \<open>P\<close>,
  the others have not, the manager is at rest, all permits of the scheduler are free.
\<close>

definition between :: "'e proxy \<Rightarrow> (phase \<Rightarrow> bool) \<Rightarrow> nat \<Rightarrow> net \<Rightarrow> bool" where
  "between p P n s = (net_run p s \<and> at_rest (ns_life s Chat)
     \<and> (bs_lifecycle (co_status (sy_core (ns_life s Chat))) = LsCold \<longrightarrow> ns_cold_used s = 0)
     \<and> sc_permits (ns_sched s) = max_active_requests (ac_warm_execution (px_config p))
     \<and> sc_waiters (ns_sched s) = []
     \<and> (\<forall>i<n. P (ns_phase s i)) \<and> (\<forall>i\<ge>n. ns_phase s i = QIdle))"

lemma between_init: "between p P 0 (net_init (px_config p))"
  by (simp add: between_def net_run_init at_rest_init sched_new_def)

lemma net_run_steps: "net_run p s \<Longrightarrow> (net_step p)\<^sup>*\<^sup>* s s' \<Longrightarrow> net_run p s'"
  unfolding net_run_def by (rule rtranclp_trans)

text \<open>The next request of the series gets to the backend, is answered \<open>r\<close> and gives its permit back.\<close>

lemma next_request_operates:
  assumes s: "between p P n s" and chat: "kind_of p n = Chat"
    and limits: "0 < max_active_requests (ac_warm_execution (px_config p))"
      "0 < ac_cold_start_max_waiting (px_config p)"
    and r: "outcome p n r"
  shows "\<exists>s'. net_run p s' \<and> ns_phase s' = (ns_phase s)(n := QOutcome r)
    \<and> at_rest (ns_life s' Chat) \<and> backend_is_ready (co_status (sy_core (ns_life s' Chat)))
    \<and> sc_permits (ns_sched s') = max_active_requests (ac_warm_execution (px_config p))
    \<and> sc_waiters (ns_sched s') = []"
proof -
  have idle: "ns_phase s n = QIdle" and run: "net_run p s" using s by (simp_all add: between_def)
  from chat_request_reaches_scheduler [OF idle chat] s limits obtain s1 where
    s1: "(net_step p)\<^sup>*\<^sup>* s s1" "ns_phase s1 = (ns_phase s)(n := QSched)" "ns_sched s1 = ns_sched s"
      "at_rest (ns_life s1 Chat)" "backend_is_ready (co_status (sy_core (ns_life s1 Chat)))"
    by (auto simp: between_def)
  have "sc_tasks (ns_sched s) n = SIdle"
    using run_tasks_agree [OF run] idle by (fastforce dest: tasks_agreeD)
  with s limits s1 have st: "ns_phase s1 n = QSched" "sc_tasks (ns_sched s1) n = SIdle" "0 < sc_permits (ns_sched s1)"
    by (simp_all add: between_def)
  let ?sc = "put n (SRunning cancellation_new) ((ns_sched s1)\<lparr>sc_permits := sc_permits (ns_sched s1) - 1\<rparr>)"
  let ?s2 = "posted n (go n QForward (s1\<lparr>ns_sched := ?sc\<rparr>))"
  have s2: "net_step p s1 ?s2" using st by (rule sched_request_runs)
  let ?s3 = "go n (QOutcome r) (?s2\<lparr>ns_sched := release (put n (SFinished (Ok ())) (ns_sched ?s2))\<rparr>)"
  have s3: "net_step p ?s2 ?s3" by (rule net_step.operated [OF _ _ r, of ?s2 cancellation_new]) simp_all
  have "net_run p ?s3"
    using net_run_step [OF net_run_step [OF net_run_steps [OF run s1(1)] s2] s3] .
  then show ?thesis
    using s s1 limits by (intro exI [of _ ?s3]) (auto simp: between_def release_def)
qed

lemma series:
  assumes "\<And>n s. between p P n s \<Longrightarrow> \<exists>s'. between p P (Suc n) s'"
  shows "\<exists>s. between p P n s"
  by (induction n) (use between_init assms in blast)+

lemma ready_not_cold: "backend_is_ready st \<Longrightarrow> bs_lifecycle st \<noteq> LsCold"
  by (simp add: backend_is_ready_def)

text \<open>A request whose answer is a stream ends its part in the scheduler when the stream begins.\<close>

lemma next_request_streams:
  assumes s: "between p (\<lambda>ph. \<exists>r. ph = QStreaming r) n s" and chat: "kind_of p n = Chat"
    and limits: "0 < max_active_requests (ac_warm_execution (px_config p))"
      "0 < ac_cold_start_max_waiting (px_config p)"
    and r: "outcome p n (Ok r)" and stream: "in_stream (px_incoming p n)"
  shows "\<exists>s'. between p (\<lambda>ph. \<exists>r. ph = QStreaming r) (Suc n) s'"
proof -
  obtain s1 where s1: "net_run p s1" "ns_phase s1 = (ns_phase s)(n := QOutcome (Ok r))"
    "at_rest (ns_life s1 Chat)" "backend_is_ready (co_status (sy_core (ns_life s1 Chat)))"
    "sc_permits (ns_sched s1) = max_active_requests (ac_warm_execution (px_config p))"
    "sc_waiters (ns_sched s1) = []"
    using next_request_operates [OF s chat limits r] by blast
  let ?s2 = "settle n (answered_phase p n r) (count inc_warm_requests s1)"
  have "net_step p s1 ?s2" using s1(2) by (intro net_step.outcome_ok) simp
  with s1 s stream show ?thesis
    by (intro exI [of _ ?s2])
      (auto simp: between_def answered_phase_def less_Suc_eq ready_not_cold intro: net_run_step)
qed

text \<open>A request whose first post found nobody posts again, outside the scheduler.\<close>

lemma next_request_retries:
  assumes s: "between p (\<lambda>ph. ph = QRetryForward) n s" and chat: "kind_of p n = Chat"
    and limits: "0 < max_active_requests (ac_warm_execution (px_config p))"
      "0 < ac_cold_start_max_waiting (px_config p)"
    and r: "outcome p n (Err UpstreamUnreachable)"
  shows "\<exists>s'. between p (\<lambda>ph. ph = QRetryForward) (Suc n) s'"
proof -
  obtain s1 where s1: "net_run p s1" "ns_phase s1 = (ns_phase s)(n := QOutcome (Err UpstreamUnreachable))"
    "at_rest (ns_life s1 Chat)" "backend_is_ready (co_status (sy_core (ns_life s1 Chat)))"
    "sc_permits (ns_sched s1) = max_active_requests (ac_warm_execution (px_config p))"
    "sc_waiters (ns_sched s1) = []"
    using next_request_operates [OF s chat limits r] by blast
  let ?l1 = "ns_life s1 Chat"
  obtain j where j: "sy_tasks ?l1 j = TIdle" using at_rest_idle [OF s1(3)] by blast
  let ?l2 = "set_task j (TMark (co_status (sy_core ?l1))) ?l1"
  let ?s2 = "set_life Chat ?l2 (go n (QMark j) (count inc_wake_attempts (count inc_cold_starts s1)))"
  have s2: "net_step p s1 ?s2"
    using net_step.outcome_unreachable [of s1 n ?l1 p j] s1(2) j chat by simp
  let ?warm = "(co_status (sy_core ?l1))\<lparr>bs_lifecycle := LsWarming, bs_tunnel := TsDown\<rparr>"
  let ?l3 = "set_task j TReturned (set_core (publish ?warm (sy_core ?l2)) ?l2)"
  have "own_step (px_timing p) ?l2 ?l3"
    by (rule own_stepI [where j = j and t = TReturned, OF lc_step.mark_publish]) simp_all
  then have s3: "net_step p ?s2 (set_life Chat ?l3 ?s2)"
    by (intro net_step.life) (simp_all add: own_step_def)
  have rest3: "at_rest ?l3"
    using s1(3) infinite_idle_update [of ?l1 ?l3 j TReturned] by (simp add: at_rest_def publish_def)
  let ?s3 = "set_life Chat ?l3 ?s2"
  obtain j' where j': "sy_tasks ?l3 j' = TIdle" using at_rest_idle [OF rest3] by blast
  let ?l4 = "set_task j' (TStart Chat) ?l3"
  let ?s4 = "set_life Chat ?l4 (go n (QRetry j') ?s3)"
  have s4: "net_step p ?s3 ?s4"
    using net_step.marked [of ?s3 n j p j'] j' chat by simp
  have rest4: "at_rest ?l4"
    using rest3 infinite_idle_update [of ?l3 ?l4 j' "TStart Chat"] by (simp add: at_rest_def)
  from ensure_can_get_ready [of ?s4 Chat j' Chat p] rest4 obtain l5 st where
    l5: "(net_step p)\<^sup>*\<^sup>* ?s4 (set_life Chat l5 ?s4)" "at_rest l5" "sy_tasks l5 j' = TDone (DReady st)"
      "backend_is_ready (co_status (sy_core l5))" by auto
  let ?s5 = "set_life Chat l5 ?s4"
  have s6: "net_step p ?s5 (posted n (go n QRetryForward ?s5))"
    by (rule net_step.retry_ready [of _ _ j' _ st]) (simp_all add: chat l5)
  have "net_run p ?s4" using s1(1) s2 s3 s4 by (blast intro: net_run_step)
  then have "net_run p (posted n (go n QRetryForward ?s5))"
    using net_run_steps [OF _ l5(1)] s6 by (blast intro: net_run_step)
  then show ?thesis
    using s s1 l5 by (intro exI [of _ "posted n (go n QRetryForward ?s5)"])
      (auto simp: between_def less_Suc_eq ready_not_cold)
qed

section \<open>A cold host\<close>

text \<open>
  The first request finds the host asleep, sends the wake request and publishes \<open>Warming\<close>: from
  then on nobody is cold.
\<close>

definition booting :: "lifecycle_timing \<Rightarrow> lifecycle_request \<Rightarrow> sys \<Rightarrow> bool" where
  "booting tm r l = (active l \<and> bs_lifecycle (co_status (sy_core l)) = LsWarming
     \<and> infinite {j. sy_tasks l j = TIdle} \<and> (\<forall>j d. sy_tasks l j \<noteq> TDone d))"

lemma cold_manager_boots:
  assumes fresh: "\<And>k. k \<noteq> j \<Longrightarrow> sy_tasks l k = TIdle" and j: "sy_tasks l j = TStart r"
    and core: "sy_core l = core_new backend_status_default"
  shows "\<exists>l'. (own_step tm)\<^sup>*\<^sup>* l l' \<and> booting tm r l'"
proof -
  let ?st = "co_status (sy_core l)"
  have cold: "?st = backend_status_default" "\<not> active l"
    by (simp_all add: core core_new_def bootstrap_default_def)
  let ?ob0 = "obs_init (Some r) r ?st"
  let ?ob1 = "?ob0\<lparr>o_status := ?st\<lparr>bs_last_wake_attempt_at := Some 0, bs_tunnel := TsDown\<rparr>, o_pc := AtWake\<rparr>"
  let ?warm = "?st\<lparr>bs_last_wake_attempt_at := Some 0, bs_lifecycle := LsWarming, bs_tunnel := TsDown\<rparr>"
  have obs: "obs_step tm 0 ?ob0 (ASsh (Ok False)) = Some (Running ?ob1)"
    "obs_step tm 0 ?ob1 (AWake (Ok ())) = Some (Finished (DWarming ?warm (retry_after_secs tm)))"
    by (simp_all add: obs_step_def obs_init_def obs_warming_def cold(1) should_request_wake_def
        backend_status_default_def)
  have other: "\<not> backend_is_ready ?st"
    by (simp add: cold(1) backend_is_ready_def backend_status_default_def)
  from request_starts_observing [OF j cold(2) other] obtain l1 v where l1: "(own_step tm)\<^sup>*\<^sup>* l l1"
      "sy_tasks l1 = (sy_tasks l)(j := TObserve ?ob0 v)" "active l1" by blast
  from l1(2) have "sy_tasks l1 j = TObserve ?ob0 v" by simp
  from request_keeps_observing [OF this obs(1)] obtain l2 where l2: "own_step tm l1 l2"
      "sy_tasks l2 = (sy_tasks l1)(j := TObserve ?ob1 v)" "sy_core l2 = sy_core l1" by blast
  have tasks: "sy_tasks l2 = (sy_tasks l)(j := TObserve ?ob1 v)" unfolding l2(2) l1(2) by simp
  let ?l3 = "set_task (Suc j) BStart (set_task j (TWait v (sy_clock l2 + 1000 * unat (cold_wait_budget_secs tm)))
      (set_core (publish ?warm (sy_core l2)) l2))"
  have "lc_step tm l2 ?l3"
    by (rule lc_step.observe_warming [OF _ obs(2)]) (simp_all add: tasks fresh)
  then have "own_step tm l2 ?l3" by (auto simp: own_step_def on_its_own_def tasks)
  with l1(1) l2(1) have "(own_step tm)\<^sup>*\<^sup>* l ?l3" by (meson rtranclp.rtrancl_into_rtrancl)
  moreover have "infinite {k. sy_tasks ?l3 k = TIdle}"
  proof -
    have "{Suc (Suc j)..} \<subseteq> {k. sy_tasks ?l3 k = TIdle}" using fresh by (auto simp: tasks)
    then show ?thesis using infinite_Ici finite_subset by blast
  qed
  moreover have "sy_tasks ?l3 k \<noteq> TDone d" for k d using fresh [of k] by (cases "k = j") (auto simp: tasks)
  moreover have "active ?l3" using l1(3) by (simp add: l2(3))
  ultimately show ?thesis by (intro exI [of _ ?l3]) (auto simp: booting_def)
qed

definition waiting_for_boot :: "nat \<Rightarrow> net \<Rightarrow> bool" where
  "waiting_for_boot i s = (\<exists>j. ns_phase s i = QEnsure j \<and> (\<forall>d. sy_tasks (ns_life s Chat) j \<noteq> TDone d))"

lemma next_request_waits:
  assumes run: "net_run p s" and boot: "booting (px_timing p) Chat (ns_life s Chat)" and n: "ns_phase s n = QIdle"
    and chat: "kind_of p n = Chat"
  shows "\<exists>s'. net_run p s' \<and> booting (px_timing p) Chat (ns_life s' Chat) \<and> waiting_for_boot n s'
    \<and> (\<forall>i. i \<noteq> n \<longrightarrow> ns_phase s' i = ns_phase s i) \<and> ns_held s' = ns_held s"
proof -
  let ?l = "ns_life s Chat"
  from boot obtain j where j: "sy_tasks ?l j = TIdle"
    unfolding booting_def using not_finite_existsD by blast
  let ?s1 = "go n (QAdmit False) s"
  let ?l2 = "set_task j (TStart Chat) ?l"
  let ?s2 = "set_life Chat ?l2 (go n (QEnsure j) ?s1)"
  have "net_step p s ?s1" using net_step.come [OF n, of p] boot chat by (simp add: booting_def)
  moreover have "net_step p ?s1 ?s2" using net_step.admit_free [of ?s1 n p j] j chat by simp
  ultimately have "net_run p ?s2" using run by (blast intro: net_run_step)
  moreover have "booting (px_timing p) Chat ?l2"
    using boot infinite_idle_update [of ?l ?l2 j "TStart Chat"] by (simp add: booting_def)
  ultimately show ?thesis
    by (intro exI [of _ ?s2]) (auto simp: waiting_for_boot_def)
qed

lemma first_request_boots:
  assumes chat: "kind_of p 0 = Chat" and limit: "0 < ac_cold_start_max_waiting (px_config p)"
  shows "\<exists>s. net_run p s \<and> booting (px_timing p) Chat (ns_life s Chat) \<and> waiting_for_boot 0 s
    \<and> (\<forall>i>0. ns_phase s i = QIdle) \<and> {i. ns_held s i} = {0}"
proof -
  let ?s0 = "net_init (px_config p)"
  let ?s1 = "go 0 (QAdmit True) ?s0"
  let ?l2 = "set_task 0 (TStart Chat) (sys_init backend_status_default)"
  let ?s2 = "set_life Chat ?l2 (go 0 (QEnsure 0) (?s1\<lparr>ns_cold_used := 1, ns_held := (ns_held ?s1)(0 := True)\<rparr>))"
  have s1: "net_step p ?s0 ?s1"
    using net_step.come [of ?s0 0 p] chat by (simp add: sys_init_def core_new_def backend_status_default_def)
  have s2: "net_step p ?s1 ?s2"
    using net_step.admit_permit [of ?s1 0 p 1 0] chat limit by (simp add: cold_acquire_def sys_init_def)
  obtain l3 where l3: "(own_step (px_timing p))\<^sup>*\<^sup>* ?l2 l3" "booting (px_timing p) Chat l3"
    using cold_manager_boots [of 0 ?l2 Chat "px_timing p"] by (auto simp: sys_init_def)
  have "(net_step p)\<^sup>*\<^sup>* ?s2 (set_life Chat l3 ?s2)" by (rule life_run [OF l3(1)]) simp
  then have "net_run p (set_life Chat l3 ?s2)"
    using net_run_step [OF net_run_step [OF net_run_init s1] s2] net_run_steps by blast
  moreover have "ns_held ?s0 = (\<lambda>_. False)" by (simp add: net_init_def)
  ultimately show ?thesis
    using l3(2) by (intro exI [of _ "set_life Chat l3 ?s2"]) (auto simp: waiting_for_boot_def booting_def)
qed

section \<open>A client that goes away\<close>

text \<open>
  The first request starts the bootstrap, and its client goes away while it waits for the
  first answer of the host.
\<close>

definition first_gone :: "'e proxy \<Rightarrow> net" where
  "first_gone p = (net_init (px_config p))\<lparr>ns_life := (\<lambda>_. sys_init backend_status_default)(Chat := run_dropped),
     ns_held := (\<lambda>_. False), ns_phase := (\<lambda>_. QIdle)(0 := QGone)\<rparr>"

lemma first_gone_reachable:
  assumes chat: "kind_of p 0 = Chat" and limit: "0 < ac_cold_start_max_waiting (px_config p)"
  shows "net_run p (first_gone p)"
proof -
  let ?b = backend_status_default
  let ?s0 = "net_init (px_config p)"
  let ?s1 = "go 0 (QAdmit True) ?s0"
  let ?l2 = "set_task 0 (TStart Chat) (sys_init ?b)"
  let ?s2 = "set_life Chat ?l2 (go 0 (QEnsure 0) (?s1\<lparr>ns_cold_used := 1, ns_held := (ns_held ?s1)(0 := True)\<rparr>))"
  have s1: "net_step p ?s0 ?s1"
    using net_step.come [of ?s0 0 p] chat by (simp add: sys_init_def core_new_def backend_status_default_def)
  have s2: "net_step p ?s1 ?s2"
    using net_step.admit_permit [of ?s1 0 p 1 0] chat limit by (simp add: cold_acquire_def sys_init_def)
  let ?l3 = "set_task 0 (TCheck Chat ?b) ?l2"
  let ?l4 = "set_task 0 (TJoin Chat ?b) ?l3"
  have t3: "own_step tm ?l2 ?l3" for tm
    using own_stepI [where j = 0 and t = "TCheck Chat ?b", OF lc_step.borrow [of ?l2 0 Chat tm]]
    by (simp add: sys_init_def core_new_def)
  have t4: "own_step tm ?l3 ?l4" for tm
    by (rule own_stepI [where j = 0 and t = "TJoin Chat ?b", OF lc_step.check_other])
      (simp_all add: backend_is_ready_def backend_status_default_def)
  have t5: "own_step tm ?l4 run_started" for tm
  proof (rule own_stepI [where j = 0 and t = "TObserveReq Chat ?b 0"])
    show "lc_step tm ?l4 run_started"
      using lc_step.join_start [of ?l4 0 Chat ?b "sy_core run_started" tm]
      by (simp add: sys_init_def core_new_def bootstrap_default_def run_started_def start_or_join_idle)
  qed (simp_all add: run_started_def sys_init_def fun_eq_iff)
  have "(own_step (px_timing p))\<^sup>*\<^sup>* ?l2 run_started"
    by (rule own_step_run [OF t3] own_step_run [OF t4] own_step_run [OF t5] rtranclp.rtrancl_refl)+
  then have "(net_step p)\<^sup>*\<^sup>* ?s2 (set_life Chat run_started ?s2)" by (rule life_run) simp
  moreover have "net_step p (set_life Chat run_started ?s2) (first_gone p)"
    using net_step.gone_ensure [of "set_life Chat run_started ?s2" 0 0 p] chat
    by (simp add: run_started_def run_dropped_def droppable_def settle_def cold_release_def first_gone_def
        net_init_def fun_upd_def fun_eq_iff cong: if_cong)
  ultimately show ?thesis
    using net_run_step [OF net_run_step [OF net_run_init s1] s2] net_run_steps net_run_step by blast
qed

section \<open>Properties\<close>

text \<open>
  C17: The limit of active requests does not limit streams. Whatever \<open>max_active_requests\<close> is,
  there is for every \<open>n\<close> a reachable state in which the answers to \<open>n\<close> requests are still being
  streamed from the backend while all permits are free: the permit is given back when the head
  of the answer has come.
\<close>

theorem streams_hold_no_permit:
  assumes "0 < max_active_requests (ac_warm_execution (px_config p))"
    and "0 < ac_cold_start_max_waiting (px_config p)"
    and "\<And>i. kind_of p i = Chat" "\<And>i. in_stream (px_incoming p i)" "\<And>i. \<exists>r. outcome p i (Ok r)"
  shows "\<exists>s. net_run p s \<and> (\<forall>i<n. \<exists>r. ns_phase s i = QStreaming r)
    \<and> sc_permits (ns_sched s) = max_active_requests (ac_warm_execution (px_config p))"
proof -
  have "\<exists>s. between p (\<lambda>ph. \<exists>r. ph = QStreaming r) n s"
    by (rule series) (use next_request_streams assms in blast)
  then show ?thesis unfolding between_def by blast
qed

text \<open>
  C18: The limit of active requests does not limit second posts. Whatever \<open>max_active_requests\<close>
  is, there is for every \<open>n\<close> a reachable state in which \<open>n\<close> requests wait for the answer to their
  second post while all permits are free: the post after an unreachable backend does not go
  through the scheduler.
\<close>

theorem second_posts_unlimited:
  assumes "0 < max_active_requests (ac_warm_execution (px_config p))"
    and "0 < ac_cold_start_max_waiting (px_config p)"
    and "\<And>i. kind_of p i = Chat" "\<And>i. outcome p i (Err UpstreamUnreachable)"
  shows "\<exists>s. net_run p s \<and> (\<forall>i<n. ns_phase s i = QRetryForward)
    \<and> sc_permits (ns_sched s) = max_active_requests (ac_warm_execution (px_config p))"
proof -
  have "\<exists>s. between p (\<lambda>ph. ph = QRetryForward) n s"
    by (rule series) (use next_request_retries assms in blast)
  then show ?thesis unfolding between_def by blast
qed

text \<open>
  C24: The limit of cold-start waiters does not limit the waiters. Whatever the limit is, there is
  for every \<open>n\<close> a reachable state in which \<open>n\<close> requests wait for the host to boot, and only the
  first of them holds a cold-start permit: the others came when the lifecycle was \<open>Warming\<close>.
\<close>

theorem cold_waiters_unlimited:
  assumes "0 < ac_cold_start_max_waiting (px_config p)" "\<And>i. kind_of p i = Chat"
  shows "\<exists>s. net_run p s \<and> {i. ns_held s i} = {0}
    \<and> (\<forall>i\<le>n. \<exists>j. ns_phase s i = QEnsure j \<and> (\<forall>d. sy_tasks (ns_life s Chat) j \<noteq> TDone d))"
proof -
  have "\<exists>s. net_run p s \<and> booting (px_timing p) Chat (ns_life s Chat) \<and> {i. ns_held s i} = {0}
      \<and> (\<forall>i\<le>n. \<exists>j. ns_phase s i = QEnsure j) \<and> (\<forall>i>n. ns_phase s i = QIdle)"
  proof (induction n)
    case 0
    from first_request_boots [OF assms(2,1)] show ?case by (auto simp: waiting_for_boot_def)
  next
    case (Suc n)
    then obtain s where s: "net_run p s" "booting (px_timing p) Chat (ns_life s Chat)" "{i. ns_held s i} = {0}"
      "\<forall>i\<le>n. \<exists>j. ns_phase s i = QEnsure j" "\<forall>i>n. ns_phase s i = QIdle" by blast
    from next_request_waits [OF s(1,2), of "Suc n"] s(5) assms(2) obtain s' where
      s': "net_run p s'" "booting (px_timing p) Chat (ns_life s' Chat)" "waiting_for_boot (Suc n) s'"
        "\<forall>i. i \<noteq> Suc n \<longrightarrow> ns_phase s' i = ns_phase s i" "ns_held s' = ns_held s" by auto
    have "\<exists>j. ns_phase s' i = QEnsure j" if "i \<le> Suc n" for i
      using that s'(3,4) s(4) unfolding waiting_for_boot_def by (metis le_Suc_eq)
    moreover have "ns_phase s' i = QIdle" if "i > Suc n" for i
      using that s'(4) s(5) by simp
    ultimately show ?case using s'(1,2,5) s(3) by metis
  qed
  then show ?thesis unfolding booting_def by metis
qed

section \<open>Witnesses\<close>

text \<open>A proxy with one permit, chat requests only, and the small backend of \<open>Orchestrate\<close>.\<close>

definition example_proxy :: "bool \<Rightarrow> nat proxy" where
  "example_proxy stream = \<lparr>px_libs = example_libs 200, px_timing = default_timing,
     px_config = example_config\<lparr>ac_warm_execution := small_config\<rparr>,
     px_incoming = (\<lambda>_. \<lparr>in_kind = Chat, in_body = [], in_stream = stream\<rparr>)\<rparr>"

lemma example_proxy_fields [simp]:
  "kind_of (example_proxy stream) i = Chat" "in_stream (px_incoming (example_proxy stream) i) = stream"
  "max_active_requests (ac_warm_execution (px_config (example_proxy stream))) = 1"
  "ac_cold_start_max_waiting (px_config (example_proxy stream)) = 4"
  "px_timing (example_proxy stream) = default_timing"
  by (simp_all add: example_proxy_def small_config_def example_config_def)

lemma example_stream_ok: "\<exists>r. outcome (example_proxy True) i (Ok r)"
proof -
  let ?w = "\<lparr>clock = 0, env = 0 :: nat\<rparr>"
  have "\<exists>r w'. forward (example_libs 200) c path b True False al ?w = (Ok r, w')" for c path b al
    by (simp add: forward_def forward_streaming_def send_or_cancel_def example_libs_def call_def is_success_def)
  then show ?thesis unfolding outcome_def by (fastforce simp: example_proxy_def)
qed

lemma example_unreachable: "outcome (example_proxy stream) i (Err UpstreamUnreachable)"
proof -
  let ?w = "\<lparr>clock = 0, env = 1 :: nat\<rparr>"
  have "\<exists>w'. forward (example_libs 200) c path b st False al ?w = (Err UpstreamUnreachable, w')" for c path b st al
    by (simp add: forward_def forward_streaming_def forward_non_streaming_def send_or_cancel_def
        example_libs_def call_def from_reqwest_def)
  then show ?thesis unfolding outcome_def by (fastforce simp: example_proxy_def)
qed

theorem streams_hold_no_permit_witness:
  "\<exists>s. net_run (example_proxy True) s \<and> (\<forall>i<5. \<exists>r. ns_phase s i = QStreaming r) \<and> sc_permits (ns_sched s) = 1"
  using streams_hold_no_permit [of "example_proxy True" 5] example_stream_ok by simp

theorem second_posts_unlimited_witness:
  "\<exists>s. net_run (example_proxy False) s \<and> (\<forall>i<5. ns_phase s i = QRetryForward) \<and> sc_permits (ns_sched s) = 1"
  using second_posts_unlimited [of "example_proxy False" 5] example_unreachable by simp

theorem cold_waiters_unlimited_witness:
  "\<exists>s. net_run (example_proxy False) s \<and> {i. ns_held s i} = {0}
    \<and> (\<forall>i\<le>9. \<exists>j. ns_phase s i = QEnsure j \<and> (\<forall>d. sy_tasks (ns_life s Chat) j \<noteq> TDone d))"
  using cold_waiters_unlimited [of "example_proxy False" 9] by simp

lemma example_gone: "net_run (example_proxy False) (first_gone (example_proxy False))"
  by (rule first_gone_reachable) simp_all

theorem scheduler_gets_everything_back_witness:
  "sc_permits (ns_sched (first_gone (example_proxy False))) = 1 \<and> sc_queued (ns_sched (first_gone (example_proxy False))) = 0"
proof -
  let ?s = "first_gone (example_proxy False)"
  have "ns_phase ?s i \<noteq> QForward \<and> ns_phase ?s i \<noteq> QSched" for i by (simp add: first_gone_def)
  with scheduler_gets_everything_back [OF example_gone] show ?thesis by simp
qed

lemma example_streaming: "\<exists>s r. net_run (example_proxy True) s \<and> ns_phase s 0 = QStreaming r"
proof -
  have "\<exists>s. between (example_proxy True) (\<lambda>ph. \<exists>r. ph = QStreaming r) 1 s"
    by (rule series, rule next_request_streams [OF _ _ _ _ someI_ex [OF example_stream_ok]]) simp_all
  then show ?thesis unfolding between_def by auto
qed

theorem first_posts_limited_witness:
  "\<exists>s. net_run (example_proxy True) s \<and> (\<exists>r. ns_phase s 0 = QStreaming r)
    \<and> card {i. ns_phase s i = QForward} \<le> 1 \<and> ns_posts s 0 \<le> 2"
  using example_streaming first_posts_limited [of "example_proxy True"]
  by (metis example_proxy_fields(3))

theorem cold_permits_exact_witness:
  "\<exists>s. net_run (example_proxy False) s \<and> ns_held s 0 \<and> ns_cold_used s = 1 \<and> under_way (ns_phase s 0)"
proof -
  from first_request_boots [of "example_proxy False"] obtain s where
    s: "net_run (example_proxy False) s" "{i. ns_held s i} = {0}" by auto
  then have "ns_held s 0" by auto
  with s cold_permits_exact [OF s(1), of 0] show ?thesis by auto
qed

theorem concurrent_answers_witness:
  "\<exists>s r. net_run (example_proxy True) s \<and> ns_phase s 0 = QStreaming r \<and> rs_status r = 200"
proof -
  from example_streaming obtain s r where s: "net_run (example_proxy True) s" "ns_phase s 0 = QStreaming r" by blast
  from concurrent_answers [OF s(1), of 0] s show ?thesis by auto
qed

theorem abandoned_manager_refuses_witness:
  "\<exists>s s'. net_run (example_proxy False) s \<and> net_step (example_proxy False) s s' \<and> ns_phase s 0 = QGone
    \<and> ns_phase s' 1 = QAdmit True \<and> ns_posts s' 1 = 0"
proof -
  let ?p = "example_proxy False" and ?s = "first_gone (example_proxy False)"
  have idle: "ns_phase ?s 1 = QIdle" by (simp add: first_gone_def)
  let ?s' = "go 1 (QAdmit True) ?s"
  have st: "net_step ?p ?s ?s'"
    using net_step.come [OF idle, of ?p]
    by (simp add: first_gone_def run_dropped_def run_started_def backend_status_default_def)
  have "bt_active (co_bootstrap (sy_core (ns_life ?s (manager_of ?p 1))))"
    "\<And>j. \<not> driver (sy_tasks (ns_life ?s (manager_of ?p 1)) j)"
    using run_dropped_abandoned by (simp_all add: first_gone_def abandoned_def)
  from abandoned_manager_refuses [OF r_into_rtranclp [of "net_step ?p", OF st] example_gone this idle]
  have "ns_posts ?s' 1 = 0" by blast
  with st example_gone show ?thesis
    by (intro exI [of _ ?s] exI [of _ ?s']) (simp add: first_gone_def)
qed

end
