(* ===== verification/Request_Sequential.thy ===== *)
theory Request_Sequential
  imports Request_Runs
begin

text \<open>
  The sequential orchestrator of \<open>Orchestrate\<close> is an execution of the concurrent system of
  \<open>Request_System\<close>: a request that comes when nothing else happens (no bootstrap is active, the
  scheduler has a free permit and nobody waits) is answered by some run as \<open>execute\<close> says, and
  managers, metrics, cold-start permits and clock end as in the state \<open>execute\<close> returns. So is a
  whole history of requests, one after the other.
\<close>

section \<open>States of the two models that belong together\<close>

definition core_of :: "lifecycle_request \<Rightarrow> managers \<Rightarrow> core" where
  "core_of k m = (case k of Chat \<Rightarrow> mg_chat m | Embeddings \<Rightarrow> mg_embeddings m)"

definition set_core_of :: "lifecycle_request \<Rightarrow> core \<Rightarrow> managers \<Rightarrow> managers" where
  "set_core_of k c m = (case k of Chat \<Rightarrow> m\<lparr>mg_chat := c\<rparr> | Embeddings \<Rightarrow> m\<lparr>mg_embeddings := c\<rparr>)"

definition prev_tunnel :: "('m, 'e) app_state \<Rightarrow> lifecycle_request \<Rightarrow> bool" where
  "prev_tunnel st k = (case k of Chat \<Rightarrow> as_prev_chat_tunnel_was_ready st
     | Embeddings \<Rightarrow> as_prev_embeddings_tunnel_was_ready st)"

text \<open>The managers over their ports, wired as \<open>production\<close> does it, each alone with its bootstrap.\<close>

definition wired ::
  "(lifecycle_request \<Rightarrow> 'e ports) \<Rightarrow> 'e proxy \<Rightarrow> (managers, 'e) app_state \<Rightarrow> bool" where
  "wired PP p st = (as_config st = px_config p
     \<and> as_chat_lifecycle st = chat_ops (PP Chat) (px_timing p) (own_bootstrap (PP Chat) (px_timing p))
     \<and> as_embeddings_lifecycle st = (case ec_backend (ac_embeddings (px_config p)) of
          None \<Rightarrow> as_chat_lifecycle st
        | Some _ \<Rightarrow> embeddings_ops (PP Embeddings) (px_timing p) (own_bootstrap (PP Embeddings) (px_timing p))))"

definition in_step :: "net \<Rightarrow> (managers, 'e) app_state \<Rightarrow> bool" where
  "in_step s st = ((\<forall>k. stands_for (ns_life s k) (core_of k (as_managers st)) (as_world st))
     \<and> ns_cold_used s = as_cold_used st \<and> ns_metrics s = as_metrics st
     \<and> ns_prev_tunnel s = prev_tunnel st)"

text \<open>No bootstrap is active; and there are new tasks to be had.\<close>

definition managers_idle :: "net \<Rightarrow> bool" where
  "managers_idle s = (\<forall>k. \<not> active (ns_life s k) \<and> finite {j. sy_tasks (ns_life s k) j \<noteq> TIdle})"

definition scheduler_free :: "net \<Rightarrow> bool" where
  "scheduler_free s = (0 < sc_permits (ns_sched s) \<and> sc_waiters (ns_sched s) = [])"

text \<open>The context of a request that is alone.\<close>

definition alone :: "(managers, 'e) request_context" where
  "alone = \<lparr>rc_admit = at_once None, rc_meanwhile = (\<lambda>m. m)\<rparr>"

lemma prev_tunnel_updates [simp]:
  "prev_tunnel (st\<lparr>as_managers := m\<rparr>) = prev_tunnel st"
  "prev_tunnel (st\<lparr>as_world := w\<rparr>) = prev_tunnel st"
  "prev_tunnel (st\<lparr>as_cold_used := u\<rparr>) = prev_tunnel st"
  "prev_tunnel (st\<lparr>as_metrics := mt\<rparr>) = prev_tunnel st"
  by (simp_all add: prev_tunnel_def fun_eq_iff split: lifecycle_request.split)

lemma core_of_set [simp]:
  "core_of k (set_core_of k' c m) = (if k = k' then c else core_of k m)"
  by (cases k; cases k') (simp_all add: core_of_def set_core_of_def)

lemma set_core_of_same [simp]: "set_core_of k (core_of k m) m = m"
  by (cases k) (simp_all add: core_of_def set_core_of_def)

lemma lifecycle_for_wired:
  assumes "wired PP p st" "k = manager_for (px_config p) kind"
  shows "lo_ensure_backend (lifecycle_for st kind) r (m, w) =
      (case ensure_backend (PP k) (px_timing p) (own_bootstrap (PP k) (px_timing p)) r (core_of k m, w) of
         (d, c, w) \<Rightarrow> (d, set_core_of k c m, w))"
    and "lo_status (lifecycle_for st kind) m = co_status (core_of k m)"
    and "lo_mark_warming (lifecycle_for st kind) m = set_core_of k (mark_warming (core_of k m)) m"
    and "lo_degrade_embeddings (lifecycle_for st kind) reason m
      = set_core_of k (degrade_embeddings reason (core_of k m)) m"
  using assms
  by (cases kind; auto simp: wired_def lifecycle_for_def manager_for_def core_of_def set_core_of_def
      chat_ops_def embeddings_ops_def split: option.splits prod.splits)+

lemma wired_same: "wired PP p st \<Longrightarrow> same_setup st st' \<Longrightarrow> wired PP p st'"
  by (auto simp: wired_def same_setup_def split: option.splits)

text \<open>A whole \<open>ensure_backend\<close> releases the manager.\<close>

lemma ensure_backend_released:
  assumes "ensure_backend P tm (own_bootstrap P tm) r (c, w) = (d, c', w')"
    and "\<not> bt_active (co_bootstrap c)" "0 < bootstrap_poll_interval_millis tm"
  shows "\<not> bt_active (co_bootstrap c')"
proof -
  have settled: "\<not> bt_active (co_bootstrap c2)" if "start_bootstrap P tm c1 w1 = Some (c2, w2)" for c1 w1 c2 w2
    using bootstrap_loop_settled [OF that [unfolded start_bootstrap_def]] by (simp add: bootstrap_settled_def)
  have total: "start_bootstrap P tm c1 w1 \<noteq> None" for c1 w1
    using bootstrap_loop_total [OF assms(3)] by (auto simp: start_bootstrap_def)
  show ?thesis
    using assms(1,2) start_or_join_idle [OF assms(2), of r]
    by (auto simp: ensure_backend_def Let_def wait_for_ready_or_timeout_def own_bootstrap_def no_surroundings_def
        total settled split: if_splits prod.splits lifecycle_decision.splits option.splits)
qed

section \<open>Runs of a manager inside the system\<close>

text \<open>The manager \<open>k\<close> has gone on to \<open>l\<close>, and for all others time has passed.\<close>

definition with_manager :: "lifecycle_request \<Rightarrow> sys \<Rightarrow> net \<Rightarrow> net" where
  "with_manager k l s = s\<lparr>ns_life := (\<lambda>k'. if k' = k then l else (ns_life s k')\<lparr>sy_clock := sy_clock l\<rparr>)\<rparr>"

lemma with_manager_fields [simp]:
  "ns_sched (with_manager k l s) = ns_sched s" "ns_cold_used (with_manager k l s) = ns_cold_used s"
  "ns_held (with_manager k l s) = ns_held s" "ns_phase (with_manager k l s) = ns_phase s"
  "ns_prev_tunnel (with_manager k l s) = ns_prev_tunnel s" "ns_metrics (with_manager k l s) = ns_metrics s"
  "ns_life (with_manager k l s) k = l"
  by (simp_all add: with_manager_def)

lemma same_clock: "sy_clock l = t \<Longrightarrow> l\<lparr>sy_clock := t\<rparr> = l"
  by (cases l) simp

lemma lone_steps_in_system:
  assumes "(lone_step (px_timing p))\<^sup>*\<^sup>* (ns_life s k) l" "\<forall>k'. sy_clock (ns_life s k') = sy_clock (ns_life s k)"
  shows "(net_step p)\<^sup>*\<^sup>* s (with_manager k l s)"
  using assms
proof (induction rule: rtranclp_induct)
  case base
  have "(if k' = k then ns_life s k else (ns_life s k')\<lparr>sy_clock := sy_clock (ns_life s k)\<rparr>) = ns_life s k'" for k'
    using base same_clock [of "ns_life s k'" "sy_clock (ns_life s k)"] by auto
  then have "with_manager k (ns_life s k) s = s" by (simp add: with_manager_def)
  then show ?case by simp
next
  case (step l l')
  let ?s = "with_manager k l s"
  have "net_step p ?s (with_manager k l' s)"
  proof (cases "\<exists>d. l' = l\<lparr>sy_clock := sy_clock l + d\<rparr>")
    case True
    then obtain d where d: "l' = l\<lparr>sy_clock := sy_clock l + d\<rparr>" by blast
    have "with_manager k l' s = ?s\<lparr>ns_life := (\<lambda>k. (ns_life ?s k)\<lparr>sy_clock := sy_clock (ns_life ?s k) + d\<rparr>)\<rparr>"
      by (simp add: with_manager_def d fun_eq_iff)
    then show ?thesis using net_step.time_passes [of p ?s d] by simp
  next
    case False
    with step(2) have own: "lc_step (px_timing p) l l'" "on_its_own l l'" by (auto simp: lone_step_def)
    then have "with_manager k l' s = set_life k l' ?s"
      by (simp add: with_manager_def on_its_own_def fun_eq_iff)
    then show ?thesis using net_step.life [of p ?s k l'] own by simp
  qed
  with step show ?case by (simp add: rtranclp.rtrancl_into_rtrancl)
qed


text \<open>What a run that is only about a manager leaves alone.\<close>

definition same_request :: "net \<Rightarrow> net \<Rightarrow> bool" where
  "same_request s s' = (ns_phase s' = ns_phase s \<and> ns_held s' = ns_held s \<and> ns_sched s' = ns_sched s)"

lemma idle_task:
  assumes "managers_idle s"
  shows "\<exists>j. sy_tasks (ns_life s k) j = TIdle"
proof -
  have "finite {j. sy_tasks (ns_life s k) j \<noteq> TIdle}" using assms by (simp add: managers_idle_def)
  from ex_new_if_finite [OF infinite_UNIV_nat this] show ?thesis by auto
qed

lemma managers_idle_with_manager:
  assumes "managers_idle s" "untouched I (ns_life s k) l" "finite I" "\<not> active l"
  shows "managers_idle (with_manager k l s)"
proof -
  have "{j. sy_tasks l j \<noteq> TIdle} \<subseteq> {j. sy_tasks (ns_life s k) j \<noteq> TIdle} \<union> I"
    using assms(2) by (auto simp: untouched_def)
  then have "finite {j. sy_tasks l j \<noteq> TIdle}"
    using assms(1,3) by (auto simp: managers_idle_def intro: finite_subset)
  with assms(1,4) show ?thesis by (simp add: managers_idle_def with_manager_def)
qed

lemma in_step_with_manager:
  assumes "in_step s st" "stands_for l c w"
  shows "in_step (with_manager k l s) (st\<lparr>as_managers := set_core_of k c (as_managers st), as_world := w\<rparr>)"
  using assms by (simp add: in_step_def with_manager_def stands_for_def)

lemma ask_steps:
  assumes "wired PP p st" "in_step s st" "managers_idle s" "0 < bootstrap_poll_interval_millis (px_timing p)"
    and "k = manager_for (px_config p) kind" "sy_tasks (ns_life s k) j = TStart kind"
    and "ask_backend kind st = (d, st')"
  shows "\<exists>s'. (net_step p)\<^sup>*\<^sup>* s s' \<and> in_step s' st' \<and> managers_idle s' \<and> same_request s s'
    \<and> sy_tasks (ns_life s' k) j = TDone d"
proof -
  let ?c = "core_of k (as_managers st)"
  obtain c' w' where run: "ensure_backend (PP k) (px_timing p) (own_bootstrap (PP k) (px_timing p)) kind
      (?c, as_world st) = (d, c', w')"
    and st': "st' = st\<lparr>as_managers := set_core_of k c' (as_managers st), as_world := w'\<rparr>"
    using assms(7) lifecycle_for_wired(1) [OF assms(1,5)]
    by (auto simp: ask_backend_def split: prod.splits)
  have sf: "stands_for (ns_life s k) ?c (as_world st)" using assms(2) by (simp add: in_step_def)
  then have "sy_core (ns_life s k) = ?c" by (simp add: stands_for_def)
  then have idle: "\<not> bt_active (co_bootstrap ?c)" using assms(3) by (metis managers_idle_def)
  from idle_task [OF assms(3)] obtain j2 where j2: "sy_tasks (ns_life s k) j2 = TIdle" by blast
  from lone_request_steps [OF assms(6) j2 sf idle assms(4) run] obtain l where
    l: "(lone_step (px_timing p))\<^sup>*\<^sup>* (ns_life s k) l" "sy_tasks l j = TDone d" "stands_for l c' w'"
      "untouched {j, j2} (ns_life s k) l" by blast
  have "\<forall>k'. sy_clock (ns_life s k') = sy_clock (ns_life s k)"
    using assms(2) by (simp add: in_step_def stands_for_def)
  from lone_steps_in_system [OF l(1) this] have steps: "(net_step p)\<^sup>*\<^sup>* s (with_manager k l s)" .
  have "\<not> active l" using ensure_backend_released [OF run idle assms(4)] l(3) by (simp add: stands_for_def)
  from managers_idle_with_manager [OF assms(3) l(4) _ this] have "managers_idle (with_manager k l s)" by simp
  with steps in_step_with_manager [OF assms(2) l(3), of k] l(2) show ?thesis
    by (intro exI [of _ "with_manager k l s"]) (simp add: st' same_request_def)
qed

section \<open>The end of a request\<close>

text \<open>
  A state that the sequential one leads to: the request is over with this answer, its
  cold-start permit is back, and all is at rest again.
\<close>

definition ends_with ::
  "'e proxy \<Rightarrow> nat \<Rightarrow> net \<Rightarrow> response option \<Rightarrow> (managers, 'e) app_state \<Rightarrow> bool" where
  "ends_with p i s response st = (\<exists>s'. (net_step p)\<^sup>*\<^sup>* s s' \<and> ns_phase s' = (ns_phase s)(i := QDone response)
     \<and> ns_held s' = (ns_held s)(i := False)
     \<and> in_step s' (if ns_held s i then st\<lparr>as_cold_used := cold_release (as_cold_used st)\<rparr> else st)
     \<and> managers_idle s' \<and> scheduler_free s' \<and> (\<forall>k. k \<noteq> i \<longrightarrow> sc_tasks (ns_sched s') k = sc_tasks (ns_sched s) k))"

text \<open>The request goes on by a step that is not its last.\<close>

definition goes_on :: "nat \<Rightarrow> net \<Rightarrow> net \<Rightarrow> bool" where
  "goes_on i s s' = ((\<forall>k. k \<noteq> i \<longrightarrow> ns_phase s' k = ns_phase s k) \<and> ns_held s' = ns_held s
     \<and> (\<forall>k. k \<noteq> i \<longrightarrow> sc_tasks (ns_sched s') k = sc_tasks (ns_sched s) k))"

lemma ends_with_later:
  assumes "(net_step p)\<^sup>*\<^sup>* s s1" "goes_on i s s1" "ends_with p i s1 r st"
  shows "ends_with p i s r st"
proof -
  from assms(2) have "(ns_phase s1)(i := QDone r) = (ns_phase s)(i := QDone r)" "ns_held s1 = ns_held s"
    by (auto simp: goes_on_def)
  with assms(1,3) show ?thesis
    using assms(2) unfolding ends_with_def goes_on_def by (metis (no_types, lifting) rtranclp_trans)
qed

lemma ends_with_settle:
  assumes "net_step p s (settle i (QDone r) s1)" "in_step s1 st" "managers_idle s1" "scheduler_free s1" "goes_on i s s1"
  shows "ends_with p i s r st"
proof -
  have "in_step (settle i (QDone r) s1) (if ns_held s i then st\<lparr>as_cold_used := cold_release (as_cold_used st)\<rparr> else st)"
    using assms(2,5) by (auto simp: in_step_def settle_def goes_on_def stands_for_def)
  with assms show ?thesis
    unfolding ends_with_def
    by (intro exI [of _ "settle i (QDone r) s1"])
      (auto simp: managers_idle_def scheduler_free_def goes_on_def)
qed


lemma frame_simps [simp]:
  "in_step (s\<lparr>ns_phase := ph\<rparr>) st = in_step s st" "in_step (s\<lparr>ns_posts := n\<rparr>) st = in_step s st"
  "in_step (s\<lparr>ns_sched := sc\<rparr>) st = in_step s st" "in_step (s\<lparr>ns_held := h\<rparr>) st = in_step s st"
  "managers_idle (s\<lparr>ns_phase := ph\<rparr>) = managers_idle s" "managers_idle (s\<lparr>ns_posts := n\<rparr>) = managers_idle s"
  "managers_idle (s\<lparr>ns_metrics := mt\<rparr>) = managers_idle s" "managers_idle (s\<lparr>ns_prev_tunnel := t\<rparr>) = managers_idle s"
  "managers_idle (s\<lparr>ns_sched := sc\<rparr>) = managers_idle s" "managers_idle (s\<lparr>ns_held := h\<rparr>) = managers_idle s"
  "managers_idle (s\<lparr>ns_cold_used := u\<rparr>) = managers_idle s"
  "scheduler_free (s\<lparr>ns_phase := ph\<rparr>) = scheduler_free s"
  "scheduler_free (s\<lparr>ns_posts := n\<rparr>) = scheduler_free s"
  "scheduler_free (s\<lparr>ns_metrics := mt\<rparr>) = scheduler_free s"
  "scheduler_free (s\<lparr>ns_life := l\<rparr>) = scheduler_free s"
  "scheduler_free (s\<lparr>ns_held := h\<rparr>) = scheduler_free s"
  "scheduler_free (s\<lparr>ns_cold_used := u\<rparr>) = scheduler_free s"
  by (simp_all add: in_step_def managers_idle_def scheduler_free_def)

lemma update_metrics_fields [simp]:
  "as_managers (update_metrics f st) = as_managers st" "as_world (update_metrics f st) = as_world st"
  by (simp_all add: update_metrics_def)

lemma in_step_count: "in_step s st \<Longrightarrow> in_step (count f s) (update_metrics f st)"
  by (simp add: in_step_def update_metrics_def)

lemma in_step_life:
  "in_step s st \<Longrightarrow> stands_for l (core_of k (as_managers st)) (as_world st) \<Longrightarrow> in_step (set_life k l s) st"
  by (simp add: in_step_def)

lemma in_step_core:
  "in_step s st \<Longrightarrow> stands_for l c (as_world st) \<Longrightarrow>
     in_step (set_life k l s) (st\<lparr>as_managers := set_core_of k c (as_managers st)\<rparr>)"
  by (simp add: in_step_def)

lemma managers_idle_task:
  assumes "managers_idle s" "sy_tasks l = (sy_tasks (ns_life s k))(j := t)" "\<not> active l"
  shows "managers_idle (set_life k l s)"
proof -
  have "{i. sy_tasks l i \<noteq> TIdle} \<subseteq> insert j {i. sy_tasks (ns_life s k) i \<noteq> TIdle}"
    using assms(2) by auto
  moreover have "finite {i. sy_tasks (ns_life s k) i \<noteq> TIdle}" using assms(1) by (simp add: managers_idle_def)
  ultimately have "finite {i. sy_tasks l i \<noteq> TIdle}" by (meson finite_insert finite_subset)
  with assms(1,3) show ?thesis by (simp add: managers_idle_def)
qed

lemma managers_idle_idle: "managers_idle s \<Longrightarrow> \<not> active (ns_life s k)"
  by (simp add: managers_idle_def)

lemma ends_with_answered:
  assumes "net_step p s (settle i (answered_phase p i r) s1)" "in_step s1 st" "managers_idle s1" "scheduler_free s1"
    "goes_on i s s1"
  shows "ends_with p i s (Some r) st"
proof (cases "in_stream (px_incoming p i)")
  case False
  with assms(1) have "net_step p s (settle i (QDone (Some r)) s1)" by (simp add: answered_phase_def)
  from ends_with_settle [OF this assms(2-5)] show ?thesis .
next
  case True
  let ?s1 = "settle i (QStreaming r) s1"
  have 1: "net_step p s ?s1" using assms(1) True by (simp add: answered_phase_def)
  have 2: "net_step p ?s1 (go i (QDone (Some r)) ?s1)" by (rule net_step.stream_end) simp
  have "in_step ?s1 (if ns_held s i then st\<lparr>as_cold_used := cold_release (as_cold_used st)\<rparr> else st)"
    using assms(2,5) by (auto simp: in_step_def settle_def goes_on_def stands_for_def)
  with 1 2 assms(3-5) show ?thesis
    unfolding ends_with_def
    by (intro exI [of _ "go i (QDone (Some r)) ?s1"] conjI)
      (auto simp: managers_idle_def scheduler_free_def goes_on_def in_step_def)
qed

section \<open>The forwarder\<close>

lemma forward_clock:
  "forward L config path body stream False model_alias w = (r, w') \<Longrightarrow> clock w \<le> clock w'"
  by (auto simp: forward_def forward_streaming_def forward_non_streaming_def send_or_cancel_def call_def Let_def
      split: if_splits prod.splits sum.splits)

lemma time_steps:
  assumes "in_step s st" "clock (as_world st) \<le> clock w"
  shows "\<exists>s'. net_step p s s' \<and> in_step s' (st\<lparr>as_world := w\<rparr>) \<and> same_request s s' \<and> managers_idle s' = managers_idle s"
proof -
  let ?d = "clock w - clock (as_world st)"
  let ?s = "s\<lparr>ns_life := (\<lambda>k. (ns_life s k)\<lparr>sy_clock := sy_clock (ns_life s k) + ?d\<rparr>)\<rparr>"
  have "net_step p s ?s" by (rule net_step.time_passes)
  moreover have "in_step ?s (st\<lparr>as_world := w\<rparr>)"
    using assms by (simp add: in_step_def stands_for_def)
  moreover have "managers_idle ?s = managers_idle s" by (simp add: managers_idle_def)
  ultimately show ?thesis by (intro exI [of _ ?s]) (simp add: same_request_def)
qed

text \<open>The call of the forwarder that a request of the system stands for.\<close>

definition its_forward ::
  "'e proxy \<Rightarrow> nat \<Rightarrow> (managers, 'e) app_state \<Rightarrow> (forward_error, response) res \<times> (managers, 'e) app_state" where
  "its_forward p i = run_forward (px_libs p) alone \<lparr>fc_port = tunnel_port_for (px_config p) (kind_of p i)\<rparr>
     (request_path (kind_of p i)) (in_body (px_incoming p i)) (in_stream (px_incoming p i))
     (model_alias_for (px_config p) (kind_of p i))"

lemma its_forward_steps:
  assumes "its_forward p i st = (f, st')" "in_step s st"
  shows "outcome p i f \<and> same_setup st st'
    \<and> (\<exists>s'. net_step p s s' \<and> in_step s' st' \<and> same_request s s' \<and> managers_idle s' = managers_idle s)"
proof -
  obtain w where w: "forward (px_libs p) \<lparr>fc_port = tunnel_port_for (px_config p) (kind_of p i)\<rparr>
      (request_path (kind_of p i)) (in_body (px_incoming p i)) (in_stream (px_incoming p i)) False
      (model_alias_for (px_config p) (kind_of p i)) (as_world st) = (f, w)"
    and st': "st' = st\<lparr>as_world := w\<rparr>"
    using assms(1) by (auto simp: its_forward_def run_forward_def alone_def split: prod.splits)
  from w have "outcome p i f" by (auto simp: outcome_def)
  with time_steps [OF assms(2) forward_clock [OF w]] st' show ?thesis by auto
qed


section \<open>The retry\<close>

abbreviation its_hv :: "'e proxy \<Rightarrow> string \<Rightarrow> string option" where
  "its_hv p \<equiv> header_value (px_libs p)"

lemma retry_forward_ends:
  assumes "ns_phase s i = QRetryForward" "in_step s st" "managers_idle s" "scheduler_free s"
    and "its_forward p i st = (f, st')"
  shows "ends_with p i s (case f of Inr r \<Rightarrow> Some r | Inl e \<Rightarrow> to_openai (its_hv p) e) st'"
proof -
  from its_forward_steps [OF assms(5,2)] obtain s1 where
    s1: "outcome p i f" "net_step p s s1" "in_step s1 st'" "same_request s s1" "managers_idle s1" using assms(3) by blast
  then have ph: "ns_phase s1 i = QRetryForward" and free: "scheduler_free s1" and on: "goes_on i s s1"
    using assms(1,4) by (simp_all add: same_request_def scheduler_free_def goes_on_def)
  have "ends_with p i s1 (case f of Inr r \<Rightarrow> Some r | Inl e \<Rightarrow> to_openai (its_hv p) e) st'"
  proof (cases f)
    case (Inl e)
    have "net_step p s1 (settle i (QDone (to_openai (its_hv p) e)) s1)"
      by (rule net_step.retried_error [OF ph]) (use s1(1) Inl in simp)
    from ends_with_settle [OF this s1(3,5) free] Inl show ?thesis by (simp add: goes_on_def)
  next
    case (Inr r)
    have "net_step p s1 (settle i (answered_phase p i r) s1)"
      by (rule net_step.retried_ok [OF ph]) (use s1(1) Inr in simp)
    from ends_with_answered [OF this s1(3,5) free] Inr show ?thesis by (simp add: goes_on_def)
  qed
  from ends_with_later [OF r_into_rtranclp [of "net_step p", OF s1(2)] on this] show ?thesis .
qed

text \<open>\<open>ensure_backend\<close> again, and what its decision leads to.\<close>

lemma retry_ends:
  assumes "wired PP p st" "in_step s st" "managers_idle s" "scheduler_free s" "0 < bootstrap_poll_interval_millis (px_timing p)"
    and "ns_phase s i = QRetry j" "sy_tasks (ns_life s (manager_of p i)) j = TStart (kind_of p i)"
    and "(case ask_backend (kind_of p i) st of
        (DReady _, st) \<Rightarrow> (case its_forward p i st of
             (Inr response, st) \<Rightarrow> (Some response, st)
           | (Inl e, st) \<Rightarrow> (to_openai (its_hv p) e, st))
      | (DWarming _ retry, st) \<Rightarrow> (warming_response (its_hv p) retry, st)
      | (DFailed _ error, st) \<Rightarrow> (failed_response (its_hv p) error, st)) = (r, st')"
  shows "ends_with p i s r st'"
proof -
  obtain d st1 where d: "ask_backend (kind_of p i) st = (d, st1)" by fastforce
  from ask_steps [OF assms(1-3,5) refl assms(7) d] obtain s1 where
    s1: "(net_step p)\<^sup>*\<^sup>* s s1" "in_step s1 st1" "managers_idle s1" "same_request s s1"
      "sy_tasks (ns_life s1 (manager_of p i)) j = TDone d" by blast
  then have ph: "ns_phase s1 i = QRetry j" and free: "scheduler_free s1" and on: "goes_on i s s1"
    using assms(4,6) by (simp_all add: same_request_def scheduler_free_def goes_on_def)
  have "ends_with p i s1 r st'"
  proof (cases d)
    case (DReady b)
    let ?s2 = "posted i (go i QRetryForward s1)"
    have step: "net_step p s1 ?s2" by (rule net_step.retry_ready [OF ph]) (use s1(5) DReady in simp)
    obtain f st2 where f: "its_forward p i st1 = (f, st2)" by fastforce
    have "ends_with p i ?s2 (case f of Inr r \<Rightarrow> Some r | Inl e \<Rightarrow> to_openai (its_hv p) e) st2"
      by (rule retry_forward_ends [OF _ _ _ _ f]) (use s1(2,3) free in simp_all)
    moreover have "r = (case f of Inr r \<Rightarrow> Some r | Inl e \<Rightarrow> to_openai (its_hv p) e)" "st' = st2"
      using assms(8) d DReady f by (auto split: sum.splits)
    ultimately show ?thesis
      by (intro ends_with_later [OF r_into_rtranclp [of "net_step p", OF step]]) (simp_all add: goes_on_def)
  next
    case (DWarming b n)
    then have eq: "r = warming_response (its_hv p) n" "st' = st1" using assms(8) d by auto
    have "net_step p s1 (settle i (QDone r) s1)"
      unfolding eq by (rule net_step.retry_warming [OF ph]) (use s1(5) DWarming in simp)
    from ends_with_settle [OF this s1(2,3) free] show ?thesis by (simp add: eq goes_on_def)
  next
    case (DFailed b e)
    then have eq: "r = failed_response (its_hv p) e" "st' = st1" using assms(8) d by auto
    have "net_step p s1 (settle i (QDone r) s1)"
      unfolding eq by (rule net_step.retry_failed [OF ph]) (use s1(5) DFailed in simp)
    from ends_with_settle [OF this s1(2,3) free] show ?thesis by (simp add: eq goes_on_def)
  qed
  with s1(1) on show ?thesis by (rule ends_with_later)
qed

text \<open>The branch of an unreachable backend: the metrics, \<open>mark_warming\<close>, and the second try.\<close>

lemma unreachable_ends:
  assumes "wired PP p st" "in_step s st" "managers_idle s" "scheduler_free s" "0 < bootstrap_poll_interval_millis (px_timing p)"
    and "ns_phase s i = QOutcome (Err UpstreamUnreachable)"
    and "retry_unreachable (px_libs p) alone (kind_of p i) \<lparr>fc_port = tunnel_port_for (px_config p) (kind_of p i)\<rparr>
      (request_path (kind_of p i)) (in_body (px_incoming p i)) (in_stream (px_incoming p i))
      (model_alias_for (px_config p) (kind_of p i))
      (update_metrics inc_wake_attempts (update_metrics inc_cold_starts st)) = (r, st')"
  shows "ends_with p i s r st'"
proof -
  let ?k = "manager_of p i"
  let ?st1 = "update_metrics inc_wake_attempts (update_metrics inc_cold_starts st)"
  let ?c = "core_of ?k (as_managers st)"
  let ?l = "ns_life s ?k"
  obtain j where j: "sy_tasks ?l j = TIdle" using idle_task [OF assms(3)] by blast
  let ?l1 = "set_task j (TMark (co_status (sy_core ?l))) ?l"
  let ?s1 = "set_life ?k ?l1 (go i (QMark j) (count inc_wake_attempts (count inc_cold_starts s)))"
  let ?l2 = "set_task j TReturned (set_core (mark_warming (sy_core ?l)) ?l1)"
  let ?s2 = "set_life ?k ?l2 ?s1"
  let ?st2 = "?st1\<lparr>as_managers := set_core_of ?k (mark_warming ?c) (as_managers ?st1)\<rparr>"
  have 1: "net_step p s ?s1" using net_step.outcome_unreachable [OF assms(6) refl j] .
  have core: "sy_core ?l = ?c" "sy_clock ?l = clock (as_world st)"
    using assms(2) by (simp_all add: in_step_def stands_for_def)
  have "lc_step (px_timing p) ?l1 ?l2"
    using lc_step.mark_publish [of ?l1 j "co_status (sy_core ?l)" "px_timing p"] by (simp add: mark_warming_def)
  then have 2: "net_step p ?s1 ?s2"
    using net_step.life [of p ?s1 ?k ?l2] by (auto simp: on_its_own_def)
  have m0: "in_step (count inc_wake_attempts (count inc_cold_starts s)) ?st1"
    using assms(2) by (intro in_step_count)
  have m2: "in_step ?s2 ?st2"
    by (rule in_step_core, rule in_step_life)
      (use m0 core in \<open>simp_all add: stands_for_def update_metrics_def\<close>)
  have r1: "managers_idle ?s1"
    by (rule managers_idle_task) (use assms(3) managers_idle_idle [OF assms(3), of ?k] in simp_all)
  have r2: "managers_idle ?s2"
    by (rule managers_idle_task [where j = j and t = TReturned]) (use r1 managers_idle_idle [OF assms(3), of ?k] in simp_all)
  obtain j' where j': "sy_tasks (ns_life ?s2 ?k) j' = TIdle" using idle_task [OF r2] by blast
  let ?l3 = "set_task j' (TStart (kind_of p i)) (ns_life ?s2 ?k)"
  let ?s3 = "set_life ?k ?l3 (go i (QRetry j') ?s2)"
  have 3: "net_step p ?s2 ?s3"
    by (rule net_step.marked [where j = j, OF _ _ j']) simp_all
  have m3: "in_step ?s3 ?st2"
    by (rule in_step_life) (use m2 core in \<open>simp_all add: in_step_def stands_for_def update_metrics_def\<close>)
  have r3: "managers_idle ?s3"
    by (rule managers_idle_task) (use r2 managers_idle_idle [OF assms(3), of ?k] in \<open>simp_all add: managers_idle_def\<close>)
  have w1: "wired PP p ?st1" and w2: "wired PP p ?st2"
    using assms(1) by (auto intro: wired_same)
  have "ends_with p i ?s3 r st'"
  proof (rule retry_ends [where j = j', OF w2 m3 r3 _ assms(5)])
    show "scheduler_free ?s3" using assms(4) by (simp add: scheduler_free_def)
    show "(case ask_backend (kind_of p i) ?st2 of
        (DReady _, st) \<Rightarrow> (case its_forward p i st of
             (Inr response, st) \<Rightarrow> (Some response, st)
           | (Inl e, st) \<Rightarrow> (to_openai (its_hv p) e, st))
      | (DWarming _ retry, st) \<Rightarrow> (warming_response (its_hv p) retry, st)
      | (DFailed _ error, st) \<Rightarrow> (failed_response (its_hv p) error, st)) = (r, st')"
      using assms(7) lifecycle_for_wired(3) [OF w1 refl]
      unfolding its_forward_def by (simp add: retry_unreachable_def Let_def)
  qed simp_all
  moreover have "(net_step p)\<^sup>*\<^sup>* s ?s3" using 1 2 3 by (meson rtranclp.rtrancl_into_rtrancl rtranclp.rtrancl_refl)
  moreover have "goes_on i s ?s3" by (simp add: goes_on_def)
  ultimately show ?thesis by (blast intro: ends_with_later)
qed


section \<open>From the scheduler on\<close>

lemma in_step_metrics: "in_step s st \<Longrightarrow> ns_metrics s = as_metrics st"
  by (simp add: in_step_def)

lemma degrade_ends:
  assumes "wired PP p st" "in_step s st" "managers_idle s" "scheduler_free s"
    and "ns_phase s i = QOutcome (Err EmbeddingsUnsupported)"
    and "embedding_degradation_response (its_hv p) (update_metrics inc_embeddings_degraded st) unsupported_reason = (r, st')"
  shows "ends_with p i s r st'"
proof -
  let ?k = "manager_for (px_config p) Embeddings"
  let ?st1 = "update_metrics inc_embeddings_degraded st"
  let ?c = "core_of ?k (as_managers st)"
  let ?l = "ns_life s ?k"
  obtain j where j: "sy_tasks ?l j = TIdle" using idle_task [OF assms(3)] by blast
  let ?l1 = "set_task j (TDegrade unsupported_reason (co_status (sy_core ?l))) ?l"
  let ?s1 = "set_life ?k ?l1 (go i (QDegrade j) (count inc_embeddings_degraded s))"
  let ?l2 = "set_task j TReturned (set_core (degrade_embeddings unsupported_reason (sy_core ?l)) ?l1)"
  let ?s2 = "set_life ?k ?l2 ?s1"
  let ?st2 = "?st1\<lparr>as_managers := set_core_of ?k (degrade_embeddings unsupported_reason ?c) (as_managers ?st1)\<rparr>"
  have 1: "net_step p s ?s1" using net_step.outcome_unsupported [OF assms(5) refl j] .
  have core: "sy_core ?l = ?c" "sy_clock ?l = clock (as_world st)"
    using assms(2) by (simp_all add: in_step_def stands_for_def)
  have "lc_step (px_timing p) ?l1 ?l2"
    using lc_step.degrade_publish [of ?l1 j unsupported_reason "co_status (sy_core ?l)" "px_timing p"]
    by (simp add: degrade_embeddings_def)
  then have 2: "net_step p ?s1 ?s2"
    using net_step.life [of p ?s1 ?k ?l2] by (auto simp: on_its_own_def)
  have m0: "in_step (count inc_embeddings_degraded s) ?st1" using assms(2) by (rule in_step_count)
  have m2: "in_step ?s2 ?st2"
    by (rule in_step_core, rule in_step_life)
      (use m0 core in \<open>simp_all add: stands_for_def update_metrics_def\<close>)
  have r1: "managers_idle ?s1"
    by (rule managers_idle_task) (use assms(3) managers_idle_idle [OF assms(3), of ?k] in simp_all)
  have r2: "managers_idle ?s2"
    by (rule managers_idle_task [where j = j and t = TReturned]) (use r1 managers_idle_idle [OF assms(3), of ?k] in simp_all)
  have eq: "r = openai_error (its_hv p) 400 ''unsupported_embeddings''
      (''upstream backend does not support embeddings: '' @ unsupported_reason) None" "st' = ?st2"
    using assms(6) lifecycle_for_wired(4) [OF assms(1) refl, of Embeddings]
    by (auto simp: embedding_degradation_response_def lifecycle_for_def update_metrics_def)
  have "net_step p ?s2 (settle i (QDone r) ?s2)"
    unfolding eq by (rule net_step.degraded [where j = j]) simp_all
  from ends_with_settle [OF this m2 r2] assms(4) have "ends_with p i ?s2 r st'" by (simp add: eq goes_on_def)
  moreover have "(net_step p)\<^sup>*\<^sup>* s ?s2" using 1 2 by (meson rtranclp.rtrancl_into_rtrancl rtranclp.rtrancl_refl)
  moreover have "goes_on i s ?s2" by (simp add: goes_on_def)
  ultimately show ?thesis by (blast intro: ends_with_later)
qed

text \<open>What \<open>forward_via_scheduler\<close> does with the outcome of the operation.\<close>

definition its_conclusion ::
  "'e proxy \<Rightarrow> nat \<Rightarrow> (forward_error, response) res \<Rightarrow> (managers, 'e) app_state
   \<Rightarrow> response option \<times> (managers, 'e) app_state" where
  "its_conclusion p i f st = (case f of
       Inr response \<Rightarrow> (Some response, update_metrics inc_warm_requests st)
     | Inl EmbeddingsUnsupported \<Rightarrow> embedding_degradation_response (its_hv p)
         (update_metrics inc_embeddings_degraded st) unsupported_reason
     | Inl UpstreamUnreachable \<Rightarrow> retry_unreachable (px_libs p) alone (kind_of p i)
         \<lparr>fc_port = tunnel_port_for (px_config p) (kind_of p i)\<rparr> (request_path (kind_of p i))
         (in_body (px_incoming p i)) (in_stream (px_incoming p i)) (model_alias_for (px_config p) (kind_of p i))
         (update_metrics inc_wake_attempts (update_metrics inc_cold_starts st))
     | Inl error \<Rightarrow> (to_openai (its_hv p) error, update_metrics inc_forwarding_errors st))"

lemma outcome_ends:
  assumes "wired PP p st" "in_step s st" "managers_idle s" "scheduler_free s" "0 < bootstrap_poll_interval_millis (px_timing p)"
    and "ns_phase s i = QOutcome f" "its_conclusion p i f st = (r, st')"
  shows "ends_with p i s r st'"
proof -
  have error: "ends_with p i s r st'"
    if "f = Inl e" "e \<noteq> EmbeddingsUnsupported" "e \<noteq> UpstreamUnreachable" for e
  proof -
    have eq: "r = to_openai (its_hv p) e" "st' = update_metrics inc_forwarding_errors st"
      using that assms(7) by (auto simp: its_conclusion_def split: forward_error.splits)
    have "net_step p s (settle i (QDone r) (count inc_forwarding_errors s))"
      unfolding eq using assms(6) that by (intro net_step.outcome_error) simp_all
    from ends_with_settle [OF this in_step_count [OF assms(2), of inc_forwarding_errors]] assms(3,4) show ?thesis
      by (simp add: eq goes_on_def)
  qed
  show ?thesis
  proof (cases f)
    case (Inr a)
    then have eq: "r = Some a" "st' = update_metrics inc_warm_requests st"
      using assms(7) by (auto simp: its_conclusion_def)
    have "net_step p s (settle i (answered_phase p i a) (count inc_warm_requests s))"
      using assms(6) Inr by (intro net_step.outcome_ok) simp
    from ends_with_answered [OF this in_step_count [OF assms(2), of inc_warm_requests]] assms(3,4) show ?thesis
      by (simp add: eq goes_on_def)
  next
    case (Inl e)
    show ?thesis
    proof (cases "e = EmbeddingsUnsupported \<or> e = UpstreamUnreachable")
      case True
      with Inl assms(6,7) degrade_ends [OF assms(1-4)] unreachable_ends [OF assms(1-5)] show ?thesis
        by (auto simp: its_conclusion_def)
    qed (use error Inl in blast)
  qed
qed

lemma admitted_alone: "call (rc_admit alone) w = (None, w)"
  by (simp add: alone_def)

lemma same_world: "st\<lparr>as_world := as_world st\<rparr> = st"
  by (cases st) simp

lemma forward_via_scheduler_alone:
  "as_config st = px_config p \<Longrightarrow>
   forward_via_scheduler (px_libs p) alone (kind_of p i) (in_body (px_incoming p i)) (in_stream (px_incoming p i))
     (request_path (kind_of p i)) st
   = (case its_forward p i st of (f, st) \<Rightarrow> its_conclusion p i f st)"
  by (simp add: forward_via_scheduler_def its_forward_def its_conclusion_def admitted_alone same_world
      unsupported_reason_def Let_def split: prod.split sum.split forward_error.split)

lemma scheduled_ends:
  assumes "wired PP p st" "in_step s st" "managers_idle s" "scheduler_free s" "0 < bootstrap_poll_interval_millis (px_timing p)"
    and "ns_phase s i = QSched" "sc_tasks (ns_sched s) i = SIdle"
    and "forward_via_scheduler (px_libs p) alone (kind_of p i) (in_body (px_incoming p i)) (in_stream (px_incoming p i))
      (request_path (kind_of p i)) st = (r, st')"
  shows "ends_with p i s r st'"
proof -
  let ?sc = "put i (SRunning cancellation_new) ((ns_sched s)\<lparr>sc_permits := sc_permits (ns_sched s) - 1\<rparr>)"
  let ?s1 = "posted i (go i QForward (s\<lparr>ns_sched := ?sc\<rparr>))"
  have "sched_step (ac_warm_execution (px_config p)) (ns_sched s) ?sc"
    using assms(4,7) by (intro sched_step.try_ok) (simp_all add: scheduler_free_def)
  then have 1: "net_step p s ?s1" by (rule net_step.operate [OF assms(6)]) simp
  obtain f st1 where f: "its_forward p i st = (f, st1)" by fastforce
  have "as_config st = px_config p" using assms(1) by (simp add: wired_def)
  with assms(8) f have concl: "its_conclusion p i f st1 = (r, st')" by (simp add: forward_via_scheduler_alone)
  have m1: "in_step ?s1 st" using assms(2) by simp
  from its_forward_steps [OF f m1] obtain s2 where
    s2: "outcome p i f" "same_setup st st1" "net_step p ?s1 s2" "in_step s2 st1" "same_request ?s1 s2" "managers_idle s2"
    using assms(3) by auto
  let ?sc3 = "release (put i (SFinished (Ok ())) (ns_sched s2))"
  let ?s3 = "go i (QOutcome f) (s2\<lparr>ns_sched := ?sc3\<rparr>)"
  have sc2: "ns_sched s2 = ?sc" and ph2: "ns_phase s2 i = QForward" using s2(5) by (simp_all add: same_request_def)
  have 3: "net_step p s2 ?s3" by (rule net_step.operated [OF ph2]) (use sc2 s2(1) in simp_all)
  have free: "scheduler_free ?s3" and others: "\<forall>k. k \<noteq> i \<longrightarrow> sc_tasks ?sc3 k = sc_tasks (ns_sched s) k"
    using assms(4) by (simp_all add: scheduler_free_def release_def sc2)
  have "ends_with p i ?s3 r st'"
    by (rule outcome_ends [OF wired_same [OF assms(1) s2(2)] _ _ free assms(5) _ concl]) (use s2(4,6) in simp_all)
  moreover have "(net_step p)\<^sup>*\<^sup>* s ?s3"
    using 1 s2(3) 3 by (meson rtranclp.rtrancl_into_rtrancl rtranclp.rtrancl_refl)
  moreover have "goes_on i s ?s3" using s2(5) others by (simp add: goes_on_def same_request_def)
  ultimately show ?thesis by (blast intro: ends_with_later)
qed


section \<open>The whole request\<close>

lemma in_step_tunnel:
  assumes "in_step s st" "check_tunnel_drop st kind t = (b, st1)"
  shows "in_step (tunnel_seen kind t s) (if b then update_metrics inc_tunnel_drops st1 else st1)"
  using assms
  by (cases kind)
    (auto simp: in_step_def check_tunnel_drop_def tunnel_seen_def update_metrics_def stands_for_def
      prev_tunnel_def fun_eq_iff split: lifecycle_request.splits if_splits)

lemma decided_ends:
  assumes "wired PP p st" "in_step s st" "managers_idle s" "scheduler_free s" "0 < bootstrap_poll_interval_millis (px_timing p)"
    and "ns_phase s i = QEnsure j" "sy_tasks (ns_life s (manager_of p i)) j = TDone d" "sc_tasks (ns_sched s) i = SIdle"
    and "(case d of
        DReady ready \<Rightarrow> handle_ready (px_libs p) alone (kind_of p i) (in_body (px_incoming p i))
          (in_stream (px_incoming p i)) ready st
      | DWarming _ retry \<Rightarrow> (warming_response (its_hv p) retry,
           update_metrics inc_wake_attempts (update_metrics inc_cold_starts st))
      | DFailed _ error \<Rightarrow> (failed_response (its_hv p) error, update_metrics inc_wake_failures st)) = (r, st')"
  shows "ends_with p i s r st'"
proof (cases d)
  case (DWarming b n)
  then have eq: "r = warming_response (its_hv p) n"
      "st' = update_metrics inc_wake_attempts (update_metrics inc_cold_starts st)" using assms(9) by auto
  have "net_step p s (settle i (QDone r) (count inc_wake_attempts (count inc_cold_starts s)))"
    unfolding eq by (rule net_step.ensure_warming [OF assms(6)]) (use assms(7) DWarming in simp)
  from ends_with_settle [OF this in_step_count [OF in_step_count [OF assms(2), of inc_cold_starts], of inc_wake_attempts]]
    assms(3,4) show ?thesis by (simp add: eq goes_on_def)
next
  case (DFailed b e)
  then have eq: "r = failed_response (its_hv p) e" "st' = update_metrics inc_wake_failures st" using assms(9) by auto
  have "net_step p s (settle i (QDone r) (count inc_wake_failures s))"
    unfolding eq by (rule net_step.ensure_failed [OF assms(6)]) (use assms(7) DFailed in simp)
  from ends_with_settle [OF this in_step_count [OF assms(2), of inc_wake_failures]] assms(3,4) show ?thesis
    by (simp add: eq goes_on_def)
next
  case (DReady b)
  obtain x st0 where x: "check_tunnel_drop st (kind_of p i) (bs_tunnel b) = (x, st0)" by fastforce
  define st1 where "st1 = (if x then update_metrics inc_tunnel_drops st0 else st0)"
  let ?s1 = "tunnel_seen (kind_of p i) (bs_tunnel b) s"
  have m1: "in_step ?s1 st1" unfolding st1_def using assms(2) x by (rule in_step_tunnel)
  have w1: "wired PP p st1"
    using assms(1) check_tunnel_drop_setup [OF x] by (auto simp: st1_def intro: wired_same)
  have r1: "managers_idle ?s1" using assms(3) by (simp add: managers_idle_def)
  have f1: "scheduler_free ?s1" using assms(4) by (simp add: scheduler_free_def)
  show ?thesis
  proof (cases "kind_of p i = Embeddings \<and> bs_embeddings b = CsDegraded")
    case True
    with assms(9) DReady x have eq: "r = openai_error (its_hv p) 400 ''unsupported_embeddings''
        (unwrap_or ''embeddings are degraded'' (bs_embeddings_reason b)) None" "st' = st1"
      by (auto simp: handle_ready_def st1_def Let_def)
    have "net_step p s (settle i (QDone r) ?s1)"
      unfolding eq by (rule net_step.ensure_degraded [OF assms(6) _ True]) (use assms(7) DReady in simp)
    from ends_with_settle [OF this m1 r1 f1] show ?thesis by (simp add: eq goes_on_def)
  next
    case False
    let ?s2 = "go i QSched ?s1"
    have step: "net_step p s ?s2"
      by (rule net_step.ensure_ready [OF assms(6) _ False]) (use assms(7) DReady in simp)
    have "forward_via_scheduler (px_libs p) alone (kind_of p i) (in_body (px_incoming p i))
        (in_stream (px_incoming p i)) (request_path (kind_of p i)) st1 = (r, st')"
      using assms(9) DReady x False by (simp add: handle_ready_def st1_def Let_def split: if_splits)
    from scheduled_ends [OF w1 _ _ _ assms(5) _ _ this, of ?s2] m1 r1 f1 assms(8)
    have "ends_with p i ?s2 r st'" by simp
    then show ?thesis
      by (intro ends_with_later [OF r_into_rtranclp [of "net_step p", OF step]]) (simp_all add: goes_on_def)
  qed
qed

lemma admitted_ends:
  assumes "wired PP p st" "in_step s st" "managers_idle s" "scheduler_free s" "0 < bootstrap_poll_interval_millis (px_timing p)"
    and "ns_phase s i = QEnsure j" "sy_tasks (ns_life s (manager_of p i)) j = TStart (kind_of p i)"
    and "sc_tasks (ns_sched s) i = SIdle"
    and "execute_admitted (px_libs p) alone (kind_of p i) (in_body (px_incoming p i)) (in_stream (px_incoming p i)) st
      = (r, st')"
  shows "ends_with p i s r st'"
proof -
  obtain d st1 where d: "ask_backend (kind_of p i) st = (d, st1)" by fastforce
  from ask_steps [OF assms(1-3,5) refl assms(7) d] obtain s1 where
    s1: "(net_step p)\<^sup>*\<^sup>* s s1" "in_step s1 st1" "managers_idle s1" "same_request s s1"
      "sy_tasks (ns_life s1 (manager_of p i)) j = TDone d" by blast
  have "wired PP p st1" using assms(1) ask_backend_setup [OF d] by (blast intro: wired_same)
  from decided_ends [OF this s1(2,3) _ assms(5) _ s1(5)] assms s1(4) d
  have "ends_with p i s1 r st'"
    by (auto simp: same_request_def scheduler_free_def execute_admitted_def split: lifecycle_decision.splits)
  with s1(1) show ?thesis
    using s1(4) by (intro ends_with_later [OF s1(1)]) (simp_all add: goes_on_def same_request_def)
qed

text \<open>\<open>execute\<close>, called by a request that is alone.\<close>

definition its_execute ::
  "'e proxy \<Rightarrow> nat \<Rightarrow> (managers, 'e) app_state \<Rightarrow> response option \<times> (managers, 'e) app_state" where
  "its_execute p i st = execute (px_libs p) alone (kind_of p i) (in_body (px_incoming p i))
     (in_stream (px_incoming p i)) st"

lemma execute_ends:
  assumes "wired PP p st" "in_step s st" "managers_idle s" "scheduler_free s" "0 < bootstrap_poll_interval_millis (px_timing p)"
    and "ns_phase s i = QIdle" "sc_tasks (ns_sched s) i = SIdle" "\<not> ns_held s i"
    and "its_execute p i st = (r, st')"
  shows "ends_with p i s r st'"
proof -
  let ?k = "manager_of p i"
  let ?cold = "bs_lifecycle (co_status (sy_core (ns_life s ?k))) = LsCold"
  let ?s1 = "go i (QAdmit ?cold) s"
  have come: "net_step p s ?s1" using assms(6) by (rule net_step.come)
  have "sy_core (ns_life s ?k) = core_of ?k (as_managers st)" using assms(2) by (simp add: in_step_def stands_for_def)
  then have cold: "is_cold st (kind_of p i) = ?cold"
    by (simp add: is_cold_def lifecycle_for_wired(2) [OF assms(1) refl])
  have config: "as_config st = px_config p" using assms(1) by (simp add: wired_def)
  have used: "ns_cold_used s = as_cold_used st" using assms(2) by (simp add: in_step_def)
  obtain j where j: "sy_tasks (ns_life s ?k) j = TIdle" using idle_task [OF assms(3)] by blast
  let ?l = "set_task j (TStart (kind_of p i)) (ns_life s ?k)"
  have m: "in_step (set_life ?k ?l s) st"
    by (rule in_step_life) (use assms(2) in \<open>simp_all add: in_step_def\<close>)
  have r: "managers_idle (set_life ?k ?l s)"
    by (rule managers_idle_task [where j = j and t = "TStart (kind_of p i)"])
      (use assms(3) managers_idle_idle [OF assms(3), of ?k] in simp_all)
  have "ends_with p i ?s1 r st'"
  proof (cases ?cold)
    case False
    let ?s2 = "set_life ?k ?l (go i (QEnsure j) ?s1)"
    have step: "net_step p ?s1 ?s2"
      using net_step.admit_free [of ?s1 i p j] False j by simp
    have "in_step ?s2 st" "managers_idle ?s2"
      using m r by (simp_all add: in_step_def managers_idle_def stands_for_def)
    moreover have "execute_admitted (px_libs p) alone (kind_of p i) (in_body (px_incoming p i))
        (in_stream (px_incoming p i)) st = (r, st')"
      using assms(9) cold False
      by (auto simp: its_execute_def execute_def acquire_cold_permit_def split: prod.splits)
    ultimately have "ends_with p i ?s2 r st'"
      by (intro admitted_ends [OF assms(1), where j = j]) (use assms in simp_all)
    then show ?thesis
      by (intro ends_with_later [OF r_into_rtranclp [of "net_step p", OF step]]) (simp_all add: goes_on_def)
  next
    case True
    show ?thesis
    proof (cases "cold_acquire (ac_cold_start_max_waiting (px_config p)) (ns_cold_used s)")
      case None
      with assms(9) cold True config used have eq: "r = openai_error (its_hv p) 503 ''warming_up''
          ''cold-start queue is full, retry later'' (Some ''10'')" "st' = st"
        by (auto simp: its_execute_def execute_def acquire_cold_permit_def)
      have "net_step p ?s1 (settle i (QDone r) ?s1)"
        unfolding eq by (rule net_step.admit_full) (use True None in simp_all)
      from ends_with_settle [OF this] show ?thesis using assms by (simp add: eq goes_on_def)
    next
      case (Some u)
      let ?s2 = "set_life ?k ?l (go i (QEnsure j) (?s1\<lparr>ns_cold_used := u, ns_held := (ns_held ?s1)(i := True)\<rparr>))"
      have step: "net_step p ?s1 ?s2"
        using net_step.admit_permit [of ?s1 i p u j] True Some j by simp
      obtain st1 where run: "execute_admitted (px_libs p) alone (kind_of p i) (in_body (px_incoming p i))
          (in_stream (px_incoming p i)) (st\<lparr>as_cold_used := u\<rparr>) = (r, st1)"
        and st': "st' = st1\<lparr>as_cold_used := cold_release (as_cold_used st1)\<rparr>"
        using assms(9) cold True Some config used
        by (auto simp: its_execute_def execute_def acquire_cold_permit_def split: prod.splits)
      have "in_step ?s2 (st\<lparr>as_cold_used := u\<rparr>)" "managers_idle ?s2"
        using m r by (simp_all add: in_step_def managers_idle_def stands_for_def)
      moreover have "wired PP p (st\<lparr>as_cold_used := u\<rparr>)"
        using assms(1) by (auto simp: wired_def split: option.splits)
      ultimately have e: "ends_with p i ?s2 r st1"
        by (intro admitted_ends [OF _ _ _ _ assms(5) _ _ _ run, where j = j]) (use assms in simp_all)
      then obtain s' where s': "(net_step p)\<^sup>*\<^sup>* ?s2 s'" "ns_phase s' = (ns_phase ?s2)(i := QDone r)"
        "ns_held s' = (ns_held ?s2)(i := False)" "in_step s' st'" "managers_idle s'" "scheduler_free s'"
        "\<forall>k. k \<noteq> i \<longrightarrow> sc_tasks (ns_sched s') k = sc_tasks (ns_sched s) k"
        by (auto simp: ends_with_def st')
      have "(net_step p)\<^sup>*\<^sup>* ?s1 s'" using step s'(1) by (rule converse_rtranclp_into_rtranclp)
      with s' show ?thesis
        using assms(8) by (auto simp: ends_with_def)
    qed
  qed
  then show ?thesis
    by (intro ends_with_later [OF r_into_rtranclp [of "net_step p", OF come]]) (simp_all add: goes_on_def)
qed


section \<open>A history of requests\<close>

lemma execute_setup:
  assumes "its_execute p i st = (r, st')"
  shows "as_config st' = as_config st \<and> as_chat_lifecycle st' = as_chat_lifecycle st
    \<and> as_embeddings_lifecycle st' = as_embeddings_lifecycle st"
proof -
  have admitted: "same_setup st0 st1" if "execute_admitted L ctx kind b stream st0 = (r1, st1)"
    for L :: "'a libs" and ctx kind b stream st0 r1 st1
  proof -
    obtain d st2 where d: "ask_backend kind st0 = (d, st2)" by fastforce
    have "same_setup st2 st1" if "handle_ready L ctx kind b stream ready st2 = (r1, st1)" for ready
    proof -
      obtain x st3 where x: "check_tunnel_drop st2 kind (bs_tunnel ready) = (x, st3)" by fastforce
      with that forward_via_scheduler_quiet check_tunnel_drop_setup [OF x] show ?thesis
        by (fastforce simp: handle_ready_def Let_def quiet_def intro: same_setup_trans split: if_splits)
    qed
    with that d ask_backend_setup [OF d] show ?thesis
      by (auto simp: execute_admitted_def intro: same_setup_trans split: lifecycle_decision.splits)
  qed
  from assms show ?thesis
    by (auto simp: its_execute_def execute_def acquire_cold_permit_def same_setup_def dest!: admitted
        split: if_splits option.splits prod.splits)
qed

primrec executed ::
  "'e proxy \<Rightarrow> nat list \<Rightarrow> (managers, 'e) app_state \<Rightarrow> response option list \<times> (managers, 'e) app_state" where
  "executed p [] st = ([], st)"
| "executed p (i # is) st = (case its_execute p i st of (r, st) \<Rightarrow>
     (case executed p is st of (rs, st) \<Rightarrow> (r # rs, st)))"

lemma executed_run:
  assumes "wired PP p st" "in_step s st" "managers_idle s" "scheduler_free s" "0 < bootstrap_poll_interval_millis (px_timing p)"
    and "\<forall>i\<in>set is. ns_phase s i = QIdle \<and> sc_tasks (ns_sched s) i = SIdle \<and> \<not> ns_held s i"
    and "distinct is" "executed p is st = (rs, st')"
  shows "\<exists>s'. (net_step p)\<^sup>*\<^sup>* s s' \<and> in_step s' st' \<and> map (ns_phase s') is = map QDone rs
    \<and> (\<forall>k. k \<notin> set is \<longrightarrow> ns_phase s' k = ns_phase s k)"
  using assms(1-4,6-8)
proof (induction "is" arbitrary: s st rs)
  case Nil
  then show ?case by auto
next
  case (Cons i "is")
  obtain r st1 where r: "its_execute p i st = (r, st1)" by fastforce
  obtain rs1 where rs: "executed p is st1 = (rs1, st')" "rs = r # rs1"
    using Cons.prems(7) r by (auto split: prod.splits)
  have i: "ns_phase s i = QIdle" "sc_tasks (ns_sched s) i = SIdle" "\<not> ns_held s i" using Cons.prems(5) by simp_all
  from execute_ends [OF Cons.prems(1-4) assms(5) i r] i(3) obtain s1 where
    s1: "(net_step p)\<^sup>*\<^sup>* s s1" "ns_phase s1 = (ns_phase s)(i := QDone r)" "ns_held s1 = (ns_held s)(i := False)"
      "in_step s1 st1" "managers_idle s1" "scheduler_free s1"
      "\<forall>k. k \<noteq> i \<longrightarrow> sc_tasks (ns_sched s1) k = sc_tasks (ns_sched s) k"
    by (auto simp: ends_with_def)
  have w: "wired PP p st1"
    using Cons.prems(1) execute_setup [OF r] by (auto simp: wired_def split: option.splits)
  have "\<forall>k\<in>set is. ns_phase s1 k = QIdle \<and> sc_tasks (ns_sched s1) k = SIdle \<and> \<not> ns_held s1 k"
    using Cons.prems(5,6) s1(2,3,7) by auto
  from Cons.IH [OF w s1(4-6) this _ rs(1)] Cons.prems(6) obtain s2 where
    s2: "(net_step p)\<^sup>*\<^sup>* s1 s2" "in_step s2 st'" "map (ns_phase s2) is = map QDone rs1"
      "\<forall>k. k \<notin> set is \<longrightarrow> ns_phase s2 k = ns_phase s1 k" by auto
  have "(net_step p)\<^sup>*\<^sup>* s s2" using s1(1) s2(1) by (rule rtranclp_trans)
  with s1(2) s2 Cons.prems(6) rs(2) show ?case by (intro exI [of _ s2]) auto
qed

text \<open>The state of a proxy at its start, with its managers over the ports \<open>PP\<close>.\<close>

definition proxy_start ::
  "(lifecycle_request \<Rightarrow> 'e ports) \<Rightarrow> 'e proxy \<Rightarrow> 'e world \<Rightarrow> (managers, 'e) app_state option" where
  "proxy_start PP p w =
     (let chat = chat_ops (PP Chat) (px_timing p) (own_bootstrap (PP Chat) (px_timing p)) in
      assemble (px_config p) chat (case ec_backend (ac_embeddings (px_config p)) of
          None \<Rightarrow> chat
        | Some _ \<Rightarrow> embeddings_ops (PP Embeddings) (px_timing p) (own_bootstrap (PP Embeddings) (px_timing p))) w)"

lemma proxy_start_facts:
  assumes "proxy_start PP p w = Some st" "clock w = 0"
  shows "wired PP p st" "in_step (net_init (px_config p)) st" "managers_idle (net_init (px_config p))"
proof -
  show "wired PP p st"
    using assms(1) by (auto simp: proxy_start_def assemble_def wired_def Let_def split: option.splits)
  have "as_managers st = managers_default" "as_metrics st = metrics_default" "as_cold_used st = 0"
    "as_world st = w" "prev_tunnel st = (\<lambda>_. False)"
    using assms(1)
    by (auto simp: proxy_start_def assemble_def prev_tunnel_def fun_eq_iff Let_def
        split: option.splits lifecycle_request.splits)
  with assms(2) show "in_step (net_init (px_config p)) st"
    by (auto simp: in_step_def net_init_def sys_init_def stands_for_def core_of_def managers_default_def
        split: lifecycle_request.splits)
  show "managers_idle (net_init (px_config p))"
    by (simp add: managers_idle_def sys_init_def core_new_def bootstrap_default_def)
qed

text \<open>
  C8: Every history of requests that the sequential orchestrator can have from the start of the
  proxy is one of the concurrent system: some run gives each of the requests the same answer,
  and ends with the same managers, metrics, cold-start permits and time. What is proved of all
  runs of the system therefore holds of \<open>execute\<close>, and the sequential model adds no behaviour.
\<close>

theorem sequential_history_is_a_run:
  assumes "proxy_start PP p w = Some st" "clock w = 0"
    and "0 < max_active_requests (ac_warm_execution (px_config p))" "0 < bootstrap_poll_interval_millis (px_timing p)"
    and "distinct is" "executed p is st = (rs, st')"
  shows "\<exists>s. net_run p s \<and> map (ns_phase s) is = map QDone rs \<and> in_step s st'"
proof -
  let ?s = "net_init (px_config p)"
  have free: "scheduler_free ?s" using assms(3) by (simp add: scheduler_free_def sched_new_def)
  have idle: "\<forall>i\<in>set is. ns_phase ?s i = QIdle \<and> sc_tasks (ns_sched ?s) i = SIdle \<and> \<not> ns_held ?s i"
    by (simp add: net_init_def sched_new_def)
  from executed_run [OF proxy_start_facts [OF assms(1,2)] free assms(4) idle assms(5,6)] show ?thesis
    unfolding net_run_def by blast
qed

text \<open>Two requests to a host that is asleep and cannot be woken.\<close>

definition example_ports :: "lifecycle_request \<Rightarrow> nat ports" where
  "example_ports k = noop_ports (\<lambda>_. 0)"

lemma example_proxy_starts: "\<exists>st. proxy_start example_ports (example_proxy False) \<lparr>clock = 0, env = 0\<rparr> = Some st"
  by (simp add: proxy_start_def assemble_def semaphore_new_def example_proxy_def example_config_def
      small_config_def Let_def)

theorem sequential_history_is_a_run_witness:
  "\<exists>st s. proxy_start example_ports (example_proxy False) \<lparr>clock = 0, env = 0\<rparr> = Some st
     \<and> net_run (example_proxy False) s
     \<and> map (ns_phase s) [0, 1] = map QDone (fst (executed (example_proxy False) [0, 1] st))"
proof -
  obtain st where st: "proxy_start example_ports (example_proxy False) \<lparr>clock = 0, env = 0\<rparr> = Some st"
    using example_proxy_starts by blast
  obtain rs st' where run: "executed (example_proxy False) [0, 1] st = (rs, st')" by fastforce
  have poll: "0 < bootstrap_poll_interval_millis (px_timing (example_proxy False))"
    by (simp add: default_timing_def timing_default_def read_env_or_def opt_filter_def)
  have limit: "0 < max_active_requests (ac_warm_execution (px_config (example_proxy False)))" by simp
  from sequential_history_is_a_run [OF st _ limit poll _ run] st run show ?thesis by auto
qed

end
