(* ===== verification/Request_Liveness.thy ===== *)
theory Request_Liveness
  imports Request_Sequential
begin

text \<open>
  No request is ever stuck: from every state that the system can reach, whatever the requests
  did before and whoever went away, each request that has not gone itself can still be answered,
  without any other request moving, and waiting for no longer than the wait budget of its
  manager. Which tasks belong to which request is an invariant; that their owner can go on is
  shown point of the code by point of the code.
\<close>

section \<open>One task of a manager\<close>

text \<open>The tasks of \<open>ensure_backend\<close>, and those of \<open>degrade_embeddings\<close> and \<open>mark_warming\<close>.\<close>

definition ensuring :: "task \<Rightarrow> bool" where
  "ensuring t = (case t of TStart _ \<Rightarrow> True | TCheck _ _ \<Rightarrow> True | TJoin _ _ \<Rightarrow> True
     | TObserveReq _ _ _ \<Rightarrow> True | TObserve _ _ \<Rightarrow> True | TReady _ \<Rightarrow> True | TFinish _ _ _ \<Rightarrow> True
     | TWait _ _ \<Rightarrow> True | TWaitLock _ _ _ \<Rightarrow> True | TSleep _ _ _ \<Rightarrow> True | TDone _ \<Rightarrow> True | _ \<Rightarrow> False)"

definition publishing :: "task \<Rightarrow> bool" where
  "publishing t = (case t of TDegrade _ _ \<Rightarrow> True | TMark _ \<Rightarrow> True | TReturned \<Rightarrow> True | _ \<Rightarrow> False)"

lemma task_kinds [simp]:
  "\<not> ensuring TIdle" "ensuring (TStart r)" "ensuring (TCheck r st)" "ensuring (TJoin r st)"
  "ensuring (TObserveReq r st v)" "ensuring (TObserve ob v)" "ensuring (TReady st)" "ensuring (TFinish st eo d)"
  "ensuring (TWait v dl)" "ensuring (TWaitLock st v dl)" "ensuring (TSleep v dl b)" "ensuring (TDone d)"
  "\<not> ensuring TDropped" "\<not> ensuring BStart" "\<not> ensuring (BLoop dl)" "\<not> ensuring (BPause dl u)"
  "\<not> ensuring (BRead dl st)" "\<not> ensuring (BObserve dl ob)" "\<not> ensuring (BFinish st eo)" "\<not> ensuring BDone"
  "\<not> ensuring (TDegrade rs st)" "\<not> ensuring (TMark st)" "\<not> ensuring TReturned"
  "\<not> publishing TIdle" "\<not> publishing (TStart r)" "\<not> publishing (TCheck r st)" "\<not> publishing (TJoin r st)"
  "\<not> publishing (TObserveReq r st v)" "\<not> publishing (TObserve ob v)" "\<not> publishing (TReady st)"
  "\<not> publishing (TFinish st eo d)" "\<not> publishing (TWait v dl)" "\<not> publishing (TWaitLock st v dl)"
  "\<not> publishing (TSleep v dl b)" "\<not> publishing (TDone d)" "\<not> publishing TDropped" "\<not> publishing BStart"
  "\<not> publishing (BLoop dl)" "\<not> publishing (BPause dl u)" "\<not> publishing (BRead dl st)"
  "\<not> publishing (BObserve dl ob)" "\<not> publishing (BFinish st eo)" "\<not> publishing BDone"
  "publishing (TDegrade rs st)" "publishing (TMark st)" "publishing TReturned"
  by (simp_all add: ensuring_def publishing_def)

text \<open>A step of a manager by itself keeps these kinds, and a deadline is within the budget.\<close>

lemma kinds_kept:
  assumes "lc_step tm l l'" "on_its_own l l'"
  shows "(ensuring (sy_tasks l j) \<longrightarrow> ensuring (sy_tasks l' j))
    \<and> (publishing (sy_tasks l j) \<longrightarrow> publishing (sy_tasks l' j))"
  using assms
proof (induction rule: lc_step.induct)
  case (drop s i)
  then have "sy_tasks s i = TDropped" by (simp add: on_its_own_def)
  then show ?case by (cases "j = i") auto
qed (auto split: if_splits)

definition budget_ms :: "lifecycle_timing \<Rightarrow> nat" where
  "budget_ms tm = 1000 * unat (cold_wait_budget_secs tm)"

fun wait_until :: "task \<Rightarrow> nat option" where
  "wait_until (TWait v dl) = Some dl"
| "wait_until (TWaitLock st v dl) = Some dl"
| "wait_until (TSleep v dl b) = Some dl"
| "wait_until t = None"

definition waits_in_budget :: "lifecycle_timing \<Rightarrow> sys \<Rightarrow> bool" where
  "waits_in_budget tm l = (\<forall>j dl. wait_until (sy_tasks l j) = Some dl \<longrightarrow> dl \<le> sy_clock l + budget_ms tm)"

lemma waits_in_budget_step: "lc_step tm l l' \<Longrightarrow> waits_in_budget tm l \<Longrightarrow> waits_in_budget tm l'"
proof (induction rule: lc_step.induct)
  case (tick s d)
  then show ?case by (force simp: waits_in_budget_def)
qed (simp_all add: waits_in_budget_def budget_ms_def all_conj_distrib; (metis wait_until.simps)?)+

lemma reachable_waits_in_budget: "lc_reachable tm st l \<Longrightarrow> waits_in_budget tm l"
  by (induction rule: lc_reachable.induct)
    (auto simp: waits_in_budget_def sys_init_def intro: waits_in_budget_step [unfolded waits_in_budget_def, rule_format])

text \<open>There is always room for a new task.\<close>

lemma finite_update: "finite {j. f j \<noteq> c} \<Longrightarrow> finite {j. (f(i := t)) j \<noteq> c}"
  by (rule finite_subset [of _ "insert i {j. f j \<noteq> c}"]) auto

lemma finite_tasks_step:
  "lc_step tm l l' \<Longrightarrow> finite {j. sy_tasks l j \<noteq> TIdle} \<Longrightarrow> finite {j. sy_tasks l' j \<noteq> TIdle}"
  by (induction rule: lc_step.induct) (simp_all add: finite_update del: fun_upd_apply)

lemma reachable_idle_task:
  assumes "lc_reachable tm st l"
  shows "\<exists>j. sy_tasks l j = TIdle"
proof -
  from assms have "finite {j. sy_tasks l j \<noteq> TIdle}"
    by (induction rule: lc_reachable.induct) (auto simp: sys_init_def dest: finite_tasks_step)
  from ex_new_if_finite [OF infinite_UNIV_nat this] show ?thesis by auto
qed

text \<open>
  A call of \<open>ensure_backend\<close> can end: at once, or with \<open>Warming\<close> when its budget is over. (The
  host need not help: an observation that fails ends it as well.)
\<close>

definition can_end :: "lifecycle_timing \<Rightarrow> nat \<Rightarrow> nat \<Rightarrow> sys \<Rightarrow> bool" where
  "can_end tm j t0 l = (\<exists>l' d. (lone_step tm)\<^sup>*\<^sup>* l l' \<and> sy_tasks l' j = TDone d
     \<and> (sy_clock l' = t0 \<or> (\<exists>st n. d = DWarming st n) \<and> t0 \<le> sy_clock l' \<and> sy_clock l' \<le> t0 + budget_ms tm))"

lemma can_end_step:
  assumes "lc_step tm l l1" "sy_tasks l1 = (sy_tasks l)(j := t)" "sy_tasks l j \<noteq> TIdle" "t \<noteq> TDropped"
    and "sy_clock l1 = sy_clock l" "can_end tm j t0 l1"
  shows "can_end tm j t0 l"
proof -
  have "lone_step tm l l1" using assms(1-5) by (auto simp: lone_step_def on_its_own_def)
  then have "(lone_step tm)\<^sup>*\<^sup>* l l'" if "(lone_step tm)\<^sup>*\<^sup>* l1 l'" for l'
    using that by (rule converse_rtranclp_into_rtranclp)
  with assms(6) show ?thesis unfolding can_end_def by blast
qed

lemma done_ends: "sy_tasks l j = TDone d \<Longrightarrow> sy_clock l = t0 \<Longrightarrow> can_end tm j t0 l"
  unfolding can_end_def by blast

lemma finish_ends:
  assumes "sy_tasks l j = TFinish st eo d" "sy_clock l = t0"
  shows "can_end tm j t0 l"
  by (rule can_end_step [OF lc_step.finish [OF assms(1)], of j "TDone d"])
    (use assms in \<open>simp_all add: done_ends\<close>)

lemma ready_ends:
  assumes "sy_tasks l j = TReady st" "sy_clock l = t0"
  shows "can_end tm j t0 l"
  by (rule can_end_step [OF lc_step.ready_borrow [OF assms(1)], of j "TFinish (co_status (sy_core l)) None (DReady st)"])
    (use assms in \<open>simp_all add: finish_ends\<close>)

lemma sleep_ends:
  assumes "sy_tasks l j = TSleep v dl b" "sy_clock l = t0" "dl \<le> t0 + budget_ms tm"
  shows "can_end tm j t0 l"
proof -
  let ?l1 = "l\<lparr>sy_clock := sy_clock l + (dl - sy_clock l)\<rparr>"
  let ?d = "DWarming (bootstrap_wait_status (co_status (sy_core ?l1)) b) (retry_after_secs tm)"
  let ?l2 = "set_task j (TDone ?d) ?l1"
  have "lone_step tm l ?l1" by (auto simp: lone_step_def)
  moreover have "lc_step tm ?l1 ?l2" using assms(1) by (intro lc_step.wait_timeout) (simp_all, arith)
  then have "lone_step tm ?l1 ?l2" using assms(1) by (auto simp: lone_step_def on_its_own_def)
  ultimately have "(lone_step tm)\<^sup>*\<^sup>* l ?l2" by (meson r_into_rtranclp rtranclp.rtrancl_into_rtrancl)
  moreover have "t0 \<le> sy_clock ?l2" "sy_clock ?l2 \<le> t0 + budget_ms tm" using assms(2,3) by simp_all
  moreover have "sy_tasks ?l2 j = TDone ?d" by simp
  ultimately show ?thesis unfolding can_end_def by blast
qed

lemma wait_lock_ends:
  assumes "sy_tasks l j = TWaitLock st v dl" "sy_clock l = t0" "dl \<le> t0 + budget_ms tm"
  shows "can_end tm j t0 l"
proof (cases "wait_check tm dl (view_at st l)")
  case None
  show ?thesis
    by (rule can_end_step [OF lc_step.wait_block [OF assms(1) None], of j "TSleep v dl (stale_view (view_at st l))"])
      (use assms in \<open>simp_all add: sleep_ends\<close>)
next
  case (Some d)
  show ?thesis
    by (rule can_end_step [OF lc_step.wait_decide [OF assms(1) Some], of j "TDone d"])
      (use assms in \<open>simp_all add: done_ends\<close>)
qed

lemma wait_ends:
  assumes "sy_tasks l j = TWait v dl" "sy_clock l = t0" "dl \<le> t0 + budget_ms tm"
  shows "can_end tm j t0 l"
  by (rule can_end_step [OF lc_step.wait_borrow [OF assms(1)], of j "TWaitLock (co_status (sy_core l)) v dl"])
    (use assms in \<open>simp_all add: wait_lock_ends\<close>)

lemma observation_can_fail: "\<exists>a st e. obs_step tm t ob a = Some (Finished (DFailed st e))"
proof (cases "o_pc ob")
  case AtSsh
  then have "obs_step tm t ob (ASsh (Err e)) = Some (Finished (DFailed (failed_status (o_status ob)) e))" for e
    by (simp add: obs_step_def)
  then show ?thesis by blast
next
  case AtWake
  then have "obs_step tm t ob (AWake (Err e)) = Some (Finished (DFailed ((o_status ob)\<lparr>bs_lifecycle := LsError\<rparr>) e))" for e
    by (simp add: obs_step_def)
  then show ?thesis by blast
next
  case AtHelper
  then have "obs_step tm t ob (AHelper (Err e)) = Some (Finished (DFailed (failed_status (o_status ob)) e))" for e
    by (simp add: obs_step_def)
  then show ?thesis by blast
next
  case AtTunnel
  then have "obs_step tm t ob (ATunnel (Err e)) = Some (Finished (DFailed (failed_status (o_status ob)) e))" for e
    by (simp add: obs_step_def)
  then show ?thesis by blast
qed

lemma observe_ends:
  assumes "sy_tasks l j = TObserve ob v" "sy_clock l = t0"
  shows "can_end tm j t0 l"
proof -
  obtain a st e where "obs_step tm 0 ob a = Some (Finished (DFailed st e))" using observation_can_fail by blast
  from lc_step.observe_failed [OF assms(1) this]
  show ?thesis
    by (rule can_end_step [where j = j and t = "TFinish st (Some e) (DFailed st e)"])
      (use assms in \<open>simp_all add: finish_ends\<close>)
qed

lemma observe_request_ends:
  assumes "sy_tasks l j = TObserveReq r st v" "sy_clock l = t0"
  shows "can_end tm j t0 l"
  by (rule can_end_step [OF lc_step.observe_request [OF assms(1)], of j
        "TObserve (obs_init (Some r) (bt_observe_request (co_bootstrap (sy_core l))) st) v"])
    (use assms in \<open>simp_all add: observe_ends\<close>)

lemma join_ends:
  assumes "sy_tasks l j = TJoin r st" "sy_clock l = t0"
  shows "can_end tm j t0 l"
proof (cases "start_or_join_bootstrap r (sy_core l)")
  case (Pair starts c)
  show ?thesis
  proof (cases starts)
    case True
    with Pair have start: "start_or_join_bootstrap r (sy_core l) = (True, c)" by simp
    show ?thesis
      by (rule can_end_step [OF lc_step.join_start [OF assms(1) start, of tm], of j "TObserveReq r st (co_version c)"])
        (use assms in \<open>simp_all add: observe_request_ends\<close>)
  next
    case False
    with Pair have join: "start_or_join_bootstrap r (sy_core l) = (False, c)" by simp
    show ?thesis
      by (rule can_end_step [OF lc_step.join_wait [OF assms(1) join, of tm], of j
            "TWait (co_version c) (sy_clock l + 1000 * unat (cold_wait_budget_secs tm))"])
        (use assms in \<open>simp_all add: wait_ends budget_ms_def\<close>)
  qed
qed

lemma check_ends:
  assumes "sy_tasks l j = TCheck r st" "sy_clock l = t0"
  shows "can_end tm j t0 l"
proof (cases "\<not> active l \<and> backend_is_ready st")
  case True
  show ?thesis
    by (rule can_end_step [where j = j and t = "TDone (DReady st)", OF lc_step.check_ready [OF assms(1)]])
      (use assms True in \<open>simp_all add: done_ends\<close>)
next
  case False
  show ?thesis
    by (rule can_end_step [where j = j and t = "TJoin r st", OF lc_step.check_other [OF assms(1)]])
      (use assms False in \<open>auto simp: join_ends\<close>)
qed

lemma start_ends:
  assumes "sy_tasks l j = TStart r" "sy_clock l = t0"
  shows "can_end tm j t0 l"
  by (rule can_end_step [OF lc_step.borrow [OF assms(1)], of j "TCheck r (co_status (sy_core l))"])
    (use assms in \<open>simp_all add: check_ends\<close>)

lemma ensuring_can_end:
  assumes "ensuring (sy_tasks l j)" "waits_in_budget tm l"
  shows "can_end tm j (sy_clock l) l"
proof -
  have "dl \<le> sy_clock l + budget_ms tm" if "wait_until (sy_tasks l j) = Some dl" for dl
    using assms(2) that by (auto simp: waits_in_budget_def)
  with assms(1) show ?thesis
    by (cases "sy_tasks l j")
      (auto intro: start_ends check_ends join_ends observe_request_ends observe_ends ready_ends finish_ends
        wait_ends wait_lock_ends sleep_ends done_ends)
qed

section \<open>Whose a task is\<close>

fun task_of :: "'e proxy \<Rightarrow> nat \<Rightarrow> phase \<Rightarrow> (lifecycle_request \<times> nat) option" where
  "task_of p i (QEnsure j) = Some (manager_of p i, j)"
| "task_of p i (QRetry j) = Some (manager_of p i, j)"
| "task_of p i (QMark j) = Some (manager_of p i, j)"
| "task_of p i (QDegrade j) = Some (manager_for (px_config p) Embeddings, j)"
| "task_of p i ph = None"

fun task_fits :: "phase \<Rightarrow> task \<Rightarrow> bool" where
  "task_fits (QEnsure j) t = ensuring t"
| "task_fits (QRetry j) t = ensuring t"
| "task_fits (QMark j) t = publishing t"
| "task_fits (QDegrade j) t = publishing t"
| "task_fits ph t = True"

definition owned :: "'e proxy \<Rightarrow> net \<Rightarrow> bool" where
  "owned p s = ((\<forall>i k j. task_of p i (ns_phase s i) = Some (k, j) \<longrightarrow> task_fits (ns_phase s i) (sy_tasks (ns_life s k) j))
     \<and> (\<forall>i i' kj. i \<noteq> i' \<longrightarrow> task_of p i (ns_phase s i) = Some kj \<longrightarrow> task_of p i' (ns_phase s i') \<noteq> Some kj))"

lemma fits_not_idle: "task_of p i ph = Some (k, j) \<Longrightarrow> task_fits ph t \<Longrightarrow> t \<noteq> TIdle"
  by (cases ph) auto

lemma owned_fits: "owned p s \<Longrightarrow> task_of p i (ns_phase s i) = Some (k, j) \<Longrightarrow>
    task_fits (ns_phase s i) (sy_tasks (ns_life s k) j)"
  by (simp add: owned_def)

text \<open>One request changes its phase, and with it perhaps its own task, or takes an idle one.\<close>

lemma owned_update:
  assumes "owned p s" "ns_phase s' = (ns_phase s)(i := ph)"
    and "\<And>k j. sy_tasks (ns_life s' k) j = sy_tasks (ns_life s k) j \<or> sy_tasks (ns_life s k) j = TIdle
      \<or> task_of p i (ns_phase s i) = Some (k, j)"
    and "\<And>k j. task_of p i ph = Some (k, j) \<Longrightarrow> sy_tasks (ns_life s k) j = TIdle \<and> task_fits ph (sy_tasks (ns_life s' k) j)"
  shows "owned p s'"
proof -
  have kept: "sy_tasks (ns_life s' k) j = sy_tasks (ns_life s k) j \<and> sy_tasks (ns_life s k) j \<noteq> TIdle"
    if "i' \<noteq> i" "task_of p i' (ns_phase s i') = Some (k, j)" for i' k j
    using assms(1) assms(3) [of k j] that fits_not_idle owned_fits unfolding owned_def by metis
  have taken: "task_of p i' (ns_phase s i') \<noteq> Some (k, j)" if "i' \<noteq> i" "task_of p i ph = Some (k, j)" for i' k j
    using kept [OF that(1)] assms(4) [OF that(2)] by blast
  show ?thesis
    unfolding owned_def assms(2)
  proof (intro conjI allI impI)
    fix i' k j
    assume "task_of p i' (((ns_phase s)(i := ph)) i') = Some (k, j)"
    with assms(4) kept owned_fits [OF assms(1)]
    show "task_fits (((ns_phase s)(i := ph)) i') (sy_tasks (ns_life s' k) j)"
      by (cases "i' = i") auto
  next
    fix i' i'' kj
    assume *: "i' \<noteq> i''" "task_of p i' (((ns_phase s)(i := ph)) i') = Some kj"
    obtain k j where kj: "kj = (k, j)" by fastforce
    show "task_of p i'' (((ns_phase s)(i := ph)) i'') \<noteq> Some kj"
      using * taken assms(1) unfolding owned_def kj by (auto split: if_splits)
  qed
qed

text \<open>A phase without a task is entered, and the managers are left alone.\<close>

lemma owned_free:
  assumes "owned p s" "ns_phase s' = (ns_phase s)(i := ph)" "ns_life s' = ns_life s" "task_of p i ph = None"
  shows "owned p s'"
  by (rule owned_update [OF assms(1,2)]) (use assms in simp_all)

lemma owned_same:
  assumes "owned p s" "ns_phase s' = ns_phase s"
    and "\<And>k j. ensuring (sy_tasks (ns_life s k) j) \<longrightarrow> ensuring (sy_tasks (ns_life s' k) j)"
    and "\<And>k j. publishing (sy_tasks (ns_life s k) j) \<longrightarrow> publishing (sy_tasks (ns_life s' k) j)"
  shows "owned p s'"
proof -
  have "task_fits ph (sy_tasks (ns_life s k) j) \<Longrightarrow> task_fits ph (sy_tasks (ns_life s' k) j)" for ph k j
    using assms(3,4) by (cases ph) auto
  with assms(1,2) show ?thesis by (simp add: owned_def)
qed

lemma owned_step: "net_step p s s' \<Longrightarrow> owned p s \<Longrightarrow> owned p s'"
proof (induction rule: net_step.induct)
  case (life s k l)
  show ?case
    by (rule owned_same [OF life.prems]) (use kinds_kept [OF life.hyps] in auto)
next
  case (time_passes s d)
  show ?case by (rule owned_same [OF time_passes.prems]) auto
next
  case (queue s i sc t)
  show ?case by (rule owned_same [OF queue.prems]) auto
next
  case (admit_permit s i u j)
  show ?case by (rule owned_update [OF admit_permit.prems, of _ i "QEnsure j"]) (use admit_permit.hyps in auto)
next
  case (admit_free s i j)
  show ?case by (rule owned_update [OF admit_free.prems, of _ i "QEnsure j"]) (use admit_free.hyps in auto)
next
  case (outcome_unsupported s i l j)
  show ?case
    by (rule owned_update [OF outcome_unsupported.prems, of _ i "QDegrade j"]) (use outcome_unsupported.hyps in auto)
next
  case (outcome_unreachable s i l j)
  show ?case
    by (rule owned_update [OF outcome_unreachable.prems, of _ i "QMark j"]) (use outcome_unreachable.hyps in auto)
next
  case (marked s i j j')
  show ?case by (rule owned_update [OF marked.prems, of _ i "QRetry j'"]) (use marked.hyps in auto)
next
  case (gone_ensure s i j)
  show ?case by (rule owned_update [OF gone_ensure.prems, of _ i QGone]) (use gone_ensure.hyps in auto)
qed (rule owned_free, assumption, simp; (simp add: answered_phase_def)?; fail)+

lemma run_owned: "net_run p s \<Longrightarrow> owned p s"
  by (induction rule: net_run_induct) (auto simp: owned_def owned_step [unfolded owned_def])

text \<open>All managers read the same clock.\<close>

definition one_clock :: "net \<Rightarrow> bool" where
  "one_clock s = (\<forall>k k'. sy_clock (ns_life s k) = sy_clock (ns_life s k'))"

lemma one_clock_step: "net_step p s s' \<Longrightarrow> one_clock s \<Longrightarrow> one_clock s'"
  by (induction rule: net_step.induct) (auto simp: one_clock_def on_its_own_def)

lemma run_one_clock: "net_run p s \<Longrightarrow> one_clock s"
  by (induction rule: net_run_induct) (auto simp: one_clock_def one_clock_step [unfolded one_clock_def])

section \<open>Finishing a request\<close>

text \<open>
  Request \<open>i\<close> can be answered by the time \<open>b\<close>, and no other request moves. While it is
  \<open>in_time\<close> it still has the whole budget of a wait before it.
\<close>

definition can_finish :: "'e proxy \<Rightarrow> nat \<Rightarrow> nat \<Rightarrow> net \<Rightarrow> bool" where
  "can_finish p i b s = (\<exists>s' a. (net_step p)\<^sup>*\<^sup>* s s' \<and> ns_phase s' i = QDone a
     \<and> (\<forall>k. k \<noteq> i \<longrightarrow> ns_phase s' k = ns_phase s k) \<and> (\<forall>k. sy_clock (ns_life s' k) \<le> b))"

definition in_time :: "'e proxy \<Rightarrow> nat \<Rightarrow> net \<Rightarrow> bool" where
  "in_time p b s = (\<forall>k. sy_clock (ns_life s k) + budget_ms (px_timing p) \<le> b)"

lemma in_time_late: "in_time p b s \<Longrightarrow> sy_clock (ns_life s k) \<le> b"
  by (auto simp: in_time_def dest: spec [of _ k])

lemma can_finish_steps:
  assumes "(net_step p)\<^sup>*\<^sup>* s s1" "\<forall>k. k \<noteq> i \<longrightarrow> ns_phase s1 k = ns_phase s k" "can_finish p i b s1"
  shows "can_finish p i b s"
  using assms unfolding can_finish_def by (metis (no_types, lifting) rtranclp_trans)

lemma can_finish_step:
  assumes "net_step p s s1" "ns_phase s1 = (ns_phase s)(i := ph)" "can_finish p i b s1"
  shows "can_finish p i b s"
  using r_into_rtranclp [of "net_step p", OF assms(1)] _ assms(3) by (rule can_finish_steps) (simp add: assms(2))

lemma finished:
  assumes "ns_phase s i = QDone a" "\<forall>k. sy_clock (ns_life s k) \<le> b"
  shows "can_finish p i b s"
  using assms unfolding can_finish_def by blast

lemma finished_by:
  assumes "net_step p s s1" "ns_phase s1 = (ns_phase s)(i := QDone a)" "\<forall>k. sy_clock (ns_life s1 k) \<le> b"
  shows "can_finish p i b s"
  by (rule can_finish_step [OF assms(1,2)], rule finished) (use assms in simp_all)

lemma streaming_finishes:
  "ns_phase s i = QStreaming r \<Longrightarrow> \<forall>k. sy_clock (ns_life s k) \<le> b \<Longrightarrow> can_finish p i b s"
  by (rule finished_by [OF net_step.stream_end]) auto

lemma answered_finishes:
  assumes "net_step p s (settle i (answered_phase p i r) s1)" "ns_phase s1 = ns_phase s"
    and "\<forall>k. sy_clock (ns_life s1 k) \<le> b"
  shows "can_finish p i b s"
  by (rule can_finish_step [OF assms(1), of i "answered_phase p i r"])
    (use assms in \<open>auto simp: answered_phase_def intro: streaming_finishes finished\<close>)

lemma some_outcome: "\<exists>r. outcome p i r"
  unfolding outcome_def by (meson surj_pair)

lemma retry_forward_finishes:
  assumes "ns_phase s i = QRetryForward" "\<forall>k. sy_clock (ns_life s k) \<le> b"
  shows "can_finish p i b s"
proof -
  obtain r where r: "outcome p i r" using some_outcome by blast
  show ?thesis
  proof (cases r)
    case (Inl e)
    with r have "outcome p i (Err e)" by simp
    from net_step.retried_error [OF assms(1) this] show ?thesis by (rule finished_by) (use assms in simp_all)
  next
    case (Inr a)
    with r have "outcome p i (Ok a)" by simp
    from net_step.retried_ok [OF assms(1) this] show ?thesis
      by (rule answered_finishes) (use assms in simp_all)
  qed
qed

text \<open>The manager's part: the request's own task is brought to its end.\<close>

lemma task_done:
  assumes "net_run p s" "task_of p i (ns_phase s i) = Some (k, j)" "ensuring (sy_tasks (ns_life s k) j)"
  shows "\<exists>s' d. (net_step p)\<^sup>*\<^sup>* s s' \<and> ns_phase s' = ns_phase s \<and> sy_tasks (ns_life s' k) j = TDone d
    \<and> ((\<forall>k. sy_clock (ns_life s' k) = sy_clock (ns_life s k))
      \<or> (\<exists>st n. d = DWarming st n) \<and> (\<forall>k. sy_clock (ns_life s' k) \<le> sy_clock (ns_life s k) + budget_ms (px_timing p)))"
proof -
  obtain t where clock: "\<And>k'. sy_clock (ns_life s k') = t"
    using run_one_clock [OF assms(1)] unfolding one_clock_def by metis
  from ensuring_can_end [OF assms(3) reachable_waits_in_budget [OF run_life [OF assms(1)]]]
  obtain l d where l: "(lone_step (px_timing p))\<^sup>*\<^sup>* (ns_life s k) l" "sy_tasks l j = TDone d"
      "sy_clock l = t \<or> (\<exists>st n. d = DWarming st n) \<and> sy_clock l \<le> t + budget_ms (px_timing p)"
    unfolding can_end_def clock by blast
  have "(net_step p)\<^sup>*\<^sup>* s (with_manager k l s)"
    using l(1) clock by (intro lone_steps_in_system) auto
  moreover have "sy_clock (ns_life (with_manager k l s) k') = sy_clock l" for k'
    by (simp add: with_manager_def)
  ultimately show ?thesis
    using l(2,3) clock by (intro exI [of _ "with_manager k l s"] exI [of _ d]) auto
qed

lemma retry_finishes:
  assumes "net_run p s" "ns_phase s i = QRetry j" "in_time p b s"
  shows "can_finish p i b s"
proof -
  have "ensuring (sy_tasks (ns_life s (manager_of p i)) j)"
    using owned_fits [OF run_owned [OF assms(1)], of i "manager_of p i" j] assms(2) by simp
  from task_done [OF assms(1) _ this, of i] assms(2) obtain s1 d where s1: "(net_step p)\<^sup>*\<^sup>* s s1"
      "ns_phase s1 = ns_phase s" "sy_tasks (ns_life s1 (manager_of p i)) j = TDone d"
      "\<forall>k. sy_clock (ns_life s1 k) \<le> sy_clock (ns_life s k) + budget_ms (px_timing p)"
    by (auto intro: le_add1)
  have late: "\<forall>k. sy_clock (ns_life s1 k) \<le> b" using s1(4) assms(3) by (meson in_time_def le_trans)
  have ph: "ns_phase s1 i = QRetry j" using s1(2) assms(2) by simp
  have "can_finish p i b s1"
  proof (cases d)
    case (DReady st)
    with s1(3) have "sy_tasks (ns_life s1 (manager_of p i)) j = TDone (DReady st)" by simp
    from net_step.retry_ready [OF ph this] show ?thesis
      by (rule can_finish_step) (use late in \<open>auto intro: retry_forward_finishes\<close>)
  next
    case (DWarming st n)
    with s1(3) have "sy_tasks (ns_life s1 (manager_of p i)) j = TDone (DWarming st n)" by simp
    from net_step.retry_warming [OF ph this] show ?thesis by (rule finished_by) (use late in simp_all)
  next
    case (DFailed st e)
    with s1(3) have "sy_tasks (ns_life s1 (manager_of p i)) j = TDone (DFailed st e)" by simp
    from net_step.retry_failed [OF ph this] show ?thesis by (rule finished_by) (use late in simp_all)
  qed
  with s1(1,2) show ?thesis by (intro can_finish_steps [OF s1(1)]) auto
qed

text \<open>The calls of \<open>mark_warming\<close> and \<open>degrade_embeddings\<close> return.\<close>

lemma publishing_returns:
  assumes "publishing (sy_tasks (ns_life s k) j)"
  shows "\<exists>s'. (net_step p)\<^sup>*\<^sup>* s s' \<and> ns_phase s' = ns_phase s \<and> sy_tasks (ns_life s' k) j = TReturned
    \<and> (\<forall>k. sy_clock (ns_life s' k) = sy_clock (ns_life s k))"
proof -
  have one: ?thesis
    if "lc_step (px_timing p) (ns_life s k) l" "sy_tasks l = (sy_tasks (ns_life s k))(j := TReturned)"
      "sy_clock l = sy_clock (ns_life s k)" "sy_tasks (ns_life s k) j \<noteq> TIdle" for l
  proof -
    have "net_step p s (set_life k l s)"
      using that by (intro net_step.life) (auto simp: on_its_own_def)
    then show ?thesis using that by (intro exI [of _ "set_life k l s"]) auto
  qed
  show ?thesis
  proof (cases "sy_tasks (ns_life s k) j")
    case (TDegrade rs st)
    show ?thesis by (rule one [OF lc_step.degrade_publish [OF TDegrade]]) (simp_all add: TDegrade)
  next
    case (TMark st)
    show ?thesis by (rule one [OF lc_step.mark_publish [OF TMark]]) (simp_all add: TMark)
  qed (use assms in auto)
qed

lemma mark_finishes:
  assumes "net_run p s" "ns_phase s i = QMark j" "in_time p b s"
  shows "can_finish p i b s"
proof -
  have "publishing (sy_tasks (ns_life s (manager_of p i)) j)"
    using owned_fits [OF run_owned [OF assms(1)], of i "manager_of p i" j] assms(2) by simp
  from publishing_returns [OF this] obtain s1 where s1: "(net_step p)\<^sup>*\<^sup>* s s1" "ns_phase s1 = ns_phase s"
      "sy_tasks (ns_life s1 (manager_of p i)) j = TReturned"
      "\<forall>k. sy_clock (ns_life s1 k) = sy_clock (ns_life s k)" by metis
  have run: "net_run p s1" by (rule net_run_steps [OF assms(1) s1(1)])
  obtain j' where j': "sy_tasks (ns_life s1 (manager_of p i)) j' = TIdle"
    using reachable_idle_task [OF run_life [OF run]] by blast
  have ph: "ns_phase s1 i = QMark j" using s1(2) assms(2) by simp
  let ?s2 = "set_life (manager_of p i)
    (set_task j' (TStart (kind_of p i)) (ns_life s1 (manager_of p i))) (go i (QRetry j') s1)"
  have step: "net_step p s1 ?s2" by (rule net_step.marked [OF ph s1(3) j'])
  have "in_time p b ?s2" using assms(3) s1(4) by (simp add: in_time_def)
  with step have "can_finish p i b ?s2"
    using net_run_step [OF run step] by (intro retry_finishes [where j = j']) simp_all
  from can_finish_step [OF step _ this] have "can_finish p i b s1" by simp
  with s1(1,2) show ?thesis by (intro can_finish_steps [OF s1(1)]) auto
qed

lemma degrade_finishes:
  assumes "net_run p s" "ns_phase s i = QDegrade j" "in_time p b s"
  shows "can_finish p i b s"
proof -
  let ?k = "manager_for (px_config p) Embeddings"
  have "publishing (sy_tasks (ns_life s ?k) j)"
    using owned_fits [OF run_owned [OF assms(1)], of i ?k j] assms(2) by simp
  from publishing_returns [OF this] obtain s1 where s1: "(net_step p)\<^sup>*\<^sup>* s s1" "ns_phase s1 = ns_phase s"
      "sy_tasks (ns_life s1 ?k) j = TReturned" "\<forall>k. sy_clock (ns_life s1 k) = sy_clock (ns_life s k)" by metis
  have "ns_phase s1 i = QDegrade j" using s1(2) assms(2) by simp
  from net_step.degraded [OF this s1(3)] have "can_finish p i b s1"
    by (rule finished_by) (use in_time_late [OF assms(3)] s1(4) in simp_all)
  with s1(1,2) show ?thesis by (intro can_finish_steps [OF s1(1)]) auto
qed

text \<open>From the outcome of the operation on, and the operation itself.\<close>

lemma outcome_finishes:
  assumes "net_run p s" "ns_phase s i = QOutcome r" "in_time p b s"
  shows "can_finish p i b s"
proof (cases r)
  case (Inr a)
  with assms(2) have "ns_phase s i = QOutcome (Ok a)" by simp
  from net_step.outcome_ok [OF this] show ?thesis
    by (rule answered_finishes) (use in_time_late [OF assms(3)] in simp_all)
next
  case (Inl e)
  with assms(2) have ph: "ns_phase s i = QOutcome (Err e)" by simp
  consider "e = EmbeddingsUnsupported" | "e = UpstreamUnreachable" | "e \<noteq> EmbeddingsUnsupported" "e \<noteq> UpstreamUnreachable"
    by blast
  then show ?thesis
  proof cases
    case 1
    let ?k = "manager_for (px_config p) Embeddings"
    obtain j where "sy_tasks (ns_life s ?k) j = TIdle"
      using reachable_idle_task [OF run_life [OF assms(1)]] by blast
    note step = net_step.outcome_unsupported [OF ph [unfolded 1] refl this]
    show ?thesis
      by (rule can_finish_step [OF step, of i "QDegrade j"], simp, rule degrade_finishes [OF net_run_step [OF assms(1) step]])
        (use assms(3) in \<open>simp_all add: in_time_def\<close>)
  next
    case 2
    obtain j where "sy_tasks (ns_life s (manager_of p i)) j = TIdle"
      using reachable_idle_task [OF run_life [OF assms(1)]] by blast
    note step = net_step.outcome_unreachable [OF ph [unfolded 2] refl this]
    show ?thesis
      by (rule can_finish_step [OF step, of i "QMark j"], simp, rule mark_finishes [OF net_run_step [OF assms(1) step]])
        (use assms(3) in \<open>simp_all add: in_time_def\<close>)
  next
    case 3
    from net_step.outcome_error [OF ph 3] show ?thesis
      by (rule finished_by) (use in_time_late [OF assms(3)] in simp_all)
  qed
qed

lemma forward_finishes:
  assumes "net_run p s" "ns_phase s i = QForward" "in_time p b s"
  shows "can_finish p i b s"
proof -
  obtain c where c: "sc_tasks (ns_sched s) i = SRunning c"
    using tasks_agreeD [OF run_tasks_agree [OF assms(1)] assms(2)] by auto
  obtain r where r: "outcome p i r" using some_outcome by blast
  note step = net_step.operated [OF assms(2) c r]
  show ?thesis
    by (rule can_finish_step [OF step, of i "QOutcome r"], simp, rule outcome_finishes [OF net_run_step [OF assms(1) step]])
      (use assms(3) in \<open>simp_all add: in_time_def\<close>)
qed

text \<open>The way through the scheduler: run at once, or queue, and run or be refused.\<close>

lemma operate_finishes:
  assumes "net_run p s" "ns_phase s i = QSched" "in_time p b s"
    and "sched_step (ac_warm_execution (px_config p)) (ns_sched s) sc"
    and "sc_tasks sc = (sc_tasks (ns_sched s))(i := SRunning c)"
  shows "can_finish p i b s"
proof -
  note step = net_step.operate [OF assms(2,4,5)]
  show ?thesis
    by (rule can_finish_step [OF step, of i QForward], simp, rule forward_finishes [OF net_run_step [OF assms(1) step]])
      (use assms(3) in \<open>simp_all add: in_time_def\<close>)
qed

lemma refuse_finishes:
  assumes "ns_phase s i = QSched" "in_time p b s"
    and "sched_step (ac_warm_execution (px_config p)) (ns_sched s) sc"
    and "sc_tasks sc = (sc_tasks (ns_sched s))(i := SFinished (Err e))"
  shows "can_finish p i b s"
  by (rule finished_by [OF net_step.refuse [OF assms(1,3,4)]]) (use in_time_late [OF assms(2)] in simp_all)

lemma queue_finishes:
  assumes "ns_phase s i = QSched" "sched_step (ac_warm_execution (px_config p)) (ns_sched s) sc"
    and "sc_tasks sc = (sc_tasks (ns_sched s))(i := t)" "queueing t" "can_finish p i b (s\<lparr>ns_sched := sc\<rparr>)"
  shows "can_finish p i b s"
  using r_into_rtranclp [of "net_step p", OF net_step.queue [OF assms(1-4)]] _ assms(5)
  by (rule can_finish_steps) simp

lemma waiting_finishes:
  assumes "ns_phase s i = QSched" "sc_tasks (ns_sched s) i = SWaiting" "in_time p b s"
  shows "can_finish p i b s"
  by (rule refuse_finishes [OF assms(1,3) sched_step.timeout [OF assms(2)]]) simp

lemma granted_finishes:
  assumes "net_run p s" "ns_phase s i = QSched" "sc_tasks (ns_sched s) i = SGranted" "in_time p b s"
  shows "can_finish p i b s"
  by (rule operate_finishes [OF assms(1,2,4) sched_step.granted [OF assms(3)]]) simp

lemma acquiring_finishes:
  assumes "net_run p s" "ns_phase s i = QSched" "sc_tasks (ns_sched s) i = SAcquiring" "in_time p b s"
  shows "can_finish p i b s"
proof (cases "0 < sc_permits (ns_sched s)")
  case True
  note step = sched_step.acquire_now [OF assms(3) True, of "ac_warm_execution (px_config p)"]
  have "net_run p (s\<lparr>ns_sched := put i SGranted ((ns_sched s)\<lparr>sc_permits := sc_permits (ns_sched s) - 1\<rparr>)\<rparr>)"
    by (rule net_run_step [OF assms(1) net_step.queue [OF assms(2) step, of SGranted]]) simp_all
  then show ?thesis
    by (intro queue_finishes [OF assms(2) step, of SGranted] granted_finishes)
      (use assms in \<open>simp_all add: in_time_def\<close>)
next
  case False
  then have "sc_permits (ns_sched s) = 0" by simp
  note step = sched_step.acquire_wait [OF assms(3) this, of "ac_warm_execution (px_config p)"]
  show ?thesis
    by (intro queue_finishes [OF assms(2) step, of SWaiting] waiting_finishes)
      (use assms in \<open>simp_all add: in_time_def\<close>)
qed

lemma reserving_finishes:
  assumes "net_run p s" "ns_phase s i = QSched" "sc_tasks (ns_sched s) i = SReserving" "in_time p b s"
  shows "can_finish p i b s"
proof (cases "ticket_reserve (max_queued_requests (ac_warm_execution (px_config p))) (sc_queued (ns_sched s))")
  case (Inl e)
  show ?thesis by (rule refuse_finishes [OF assms(2,4) sched_step.reserve_full [OF assms(3) Inl]]) simp
next
  case (Inr q)
  note step = sched_step.reserve_ok [OF assms(3) Inr]
  have "net_run p (s\<lparr>ns_sched := put i SAcquiring ((ns_sched s)\<lparr>sc_queued := q\<rparr>)\<rparr>)"
    by (rule net_run_step [OF assms(1) net_step.queue [OF assms(2) step, of SAcquiring]]) simp_all
  then show ?thesis
    by (intro queue_finishes [OF assms(2) step, of SAcquiring] acquiring_finishes)
      (use assms in \<open>simp_all add: in_time_def\<close>)
qed

lemma sched_finishes:
  assumes "net_run p s" "ns_phase s i = QSched" "in_time p b s"
  shows "can_finish p i b s"
proof -
  let ?sc = "ns_sched s"
  have new: ?thesis if "sc_tasks ?sc i = SIdle"
  proof (cases "0 < sc_permits ?sc")
    case True
    show ?thesis by (rule operate_finishes [OF assms sched_step.try_ok [OF that True]]) simp
  next
    case False
    then have "sc_permits ?sc = 0" by simp
    note step = sched_step.try_none [OF that this, of "ac_warm_execution (px_config p)"]
    have "net_run p (s\<lparr>ns_sched := put i SReserving ?sc\<rparr>)"
      by (rule net_run_step [OF assms(1) net_step.queue [OF assms(2) step, of SReserving]]) simp_all
    then show ?thesis
      by (intro queue_finishes [OF assms(2) step, of SReserving] reserving_finishes)
        (use assms in \<open>simp_all add: in_time_def\<close>)
  qed
  from tasks_agreeD [OF run_tasks_agree [OF assms(1)] assms(2)] show ?thesis
    using new reserving_finishes acquiring_finishes waiting_finishes granted_finishes assms
    by (auto simp: queueing_def)
qed

text \<open>From its arrival to the end of \<open>ensure_backend\<close>.\<close>

lemma ensure_finishes:
  assumes "net_run p s" "ns_phase s i = QEnsure j" "in_time p b s"
  shows "can_finish p i b s"
proof -
  have "ensuring (sy_tasks (ns_life s (manager_of p i)) j)"
    using owned_fits [OF run_owned [OF assms(1)], of i "manager_of p i" j] assms(2) by simp
  from task_done [OF assms(1) _ this, of i] assms(2) obtain s1 d where s1: "(net_step p)\<^sup>*\<^sup>* s s1"
      "ns_phase s1 = ns_phase s" "sy_tasks (ns_life s1 (manager_of p i)) j = TDone d"
      "(\<forall>k. sy_clock (ns_life s1 k) = sy_clock (ns_life s k)) \<or> (\<exists>st n. d = DWarming st n)"
      "\<forall>k. sy_clock (ns_life s1 k) \<le> sy_clock (ns_life s k) + budget_ms (px_timing p)"
    by (auto intro: le_add1)
  have late: "\<forall>k. sy_clock (ns_life s1 k) \<le> b" using s1(5) assms(3) by (meson in_time_def le_trans)
  have ph: "ns_phase s1 i = QEnsure j" using s1(2) assms(2) by simp
  have run: "net_run p s1" by (rule net_run_steps [OF assms(1) s1(1)])
  have "can_finish p i b s1"
  proof (cases d)
    case (DReady st)
    with s1(3,4) assms(3) have task: "sy_tasks (ns_life s1 (manager_of p i)) j = TDone (DReady st)"
      and time: "in_time p b s1" by (auto simp: in_time_def)
    show ?thesis
    proof (cases "kind_of p i = Embeddings \<and> bs_embeddings st = CsDegraded")
      case True
      from net_step.ensure_degraded [OF ph task True] show ?thesis by (rule finished_by) (use late in simp_all)
    next
      case False
      note step = net_step.ensure_ready [OF ph task False]
      show ?thesis
        by (rule can_finish_step [OF step, of i QSched], simp, rule sched_finishes [OF net_run_step [OF run step]])
          (use time in \<open>simp_all add: in_time_def\<close>)
    qed
  next
    case (DWarming st n)
    with s1(3) have "sy_tasks (ns_life s1 (manager_of p i)) j = TDone (DWarming st n)" by simp
    from net_step.ensure_warming [OF ph this] show ?thesis by (rule finished_by) (use late in simp_all)
  next
    case (DFailed st e)
    with s1(3) have "sy_tasks (ns_life s1 (manager_of p i)) j = TDone (DFailed st e)" by simp
    from net_step.ensure_failed [OF ph this] show ?thesis by (rule finished_by) (use late in simp_all)
  qed
  with s1(1,2) show ?thesis by (intro can_finish_steps [OF s1(1)]) auto
qed

lemma admit_finishes:
  assumes "net_run p s" "ns_phase s i = QAdmit cold" "in_time p b s"
  shows "can_finish p i b s"
proof -
  obtain j where j: "sy_tasks (ns_life s (manager_of p i)) j = TIdle"
    using reachable_idle_task [OF run_life [OF assms(1)]] by blast
  have go_on: ?thesis
    if "net_step p s s1" "ns_phase s1 = (ns_phase s)(i := QEnsure j)"
      "\<forall>k. sy_clock (ns_life s1 k) = sy_clock (ns_life s k)" for s1
    by (rule can_finish_step [OF that(1,2)], rule ensure_finishes [OF net_run_step [OF assms(1) that(1)], of i j])
      (use that assms(3) in \<open>simp_all add: in_time_def\<close>)
  show ?thesis
  proof (cases cold)
    case False
    with assms(2) have "ns_phase s i = QAdmit False" by simp
    from net_step.admit_free [OF this j] show ?thesis by (rule go_on) simp_all
  next
    case True
    with assms(2) have ph: "ns_phase s i = QAdmit True" by simp
    show ?thesis
    proof (cases "cold_acquire (ac_cold_start_max_waiting (px_config p)) (ns_cold_used s)")
      case None
      from net_step.admit_full [OF ph this] show ?thesis
        by (rule finished_by) (use in_time_late [OF assms(3)] in simp_all)
    next
      case (Some u)
      from net_step.admit_permit [OF ph Some j] show ?thesis by (rule go_on) simp_all
    qed
  qed
qed

lemma idle_finishes:
  assumes "net_run p s" "ns_phase s i = QIdle" "in_time p b s"
  shows "can_finish p i b s"
proof -
  note step = net_step.come [OF assms(2), of p]
  show ?thesis
    by (rule can_finish_step [OF step, of i], simp, rule admit_finishes [OF net_run_step [OF assms(1) step]])
      (use assms(3) in \<open>simp_all add: in_time_def\<close>)
qed

text \<open>
  C7: No request is ever stuck. In every state the system can reach, each request that has not gone
  away can still be answered, however the others are placed and even if none of them moves again,
  and the time it has to wait in the lifecycle manager is within the cold-wait budget. (The
  scheduler's own queue timeout is not measured on this clock.)
\<close>

theorem every_request_can_finish:
  assumes "net_run p s" "ns_phase s i \<noteq> QGone"
  shows "\<exists>s' a. (net_step p)\<^sup>*\<^sup>* s s' \<and> ns_phase s' i = QDone a \<and> (\<forall>k. k \<noteq> i \<longrightarrow> ns_phase s' k = ns_phase s k)
    \<and> (\<forall>k. sy_clock (ns_life s' k) \<le> sy_clock (ns_life s k) + 1000 * unat (cold_wait_budget_secs (px_timing p)))"
proof -
  obtain t where clock: "\<And>k. sy_clock (ns_life s k) = t"
    using run_one_clock [OF assms(1)] unfolding one_clock_def by metis
  let ?b = "t + budget_ms (px_timing p)"
  have time: "in_time p ?b s" by (simp add: in_time_def clock)
  then have late: "\<forall>k. sy_clock (ns_life s k) \<le> ?b" using in_time_late by blast
  have "can_finish p i ?b s"
    using assms(2)
    by (cases "ns_phase s i")
      (auto intro: idle_finishes [OF assms(1) _ time] admit_finishes [OF assms(1) _ time]
        ensure_finishes [OF assms(1) _ time] sched_finishes [OF assms(1) _ time]
        forward_finishes [OF assms(1) _ time] outcome_finishes [OF assms(1) _ time]
        degrade_finishes [OF assms(1) _ time] mark_finishes [OF assms(1) _ time]
        retry_finishes [OF assms(1) _ time] retry_forward_finishes [OF _ late]
        streaming_finishes [OF _ late] finished [OF _ late])
  then show ?thesis unfolding can_finish_def budget_ms_def clock by blast
qed

text \<open>The first request to a host that is asleep, waiting for its boot.\<close>

theorem every_request_can_finish_witness:
  "\<exists>s s' j a. net_run (example_proxy False) s \<and> ns_phase s 0 = QEnsure j
     \<and> (\<forall>d. sy_tasks (ns_life s Chat) j \<noteq> TDone d)
     \<and> (net_step (example_proxy False))\<^sup>*\<^sup>* s s' \<and> ns_phase s' 0 = QDone a"
proof -
  obtain s where s: "net_run (example_proxy False) s" "waiting_for_boot 0 s"
    using first_request_boots [of "example_proxy False"] by auto
  then obtain j where j: "ns_phase s 0 = QEnsure j" "\<forall>d. sy_tasks (ns_life s Chat) j \<noteq> TDone d"
    unfolding waiting_for_boot_def by blast
  then have "ns_phase s 0 \<noteq> QGone" by simp
  from every_request_can_finish [OF s(1) this] s(1) j show ?thesis by metis
qed

end
