(* ===== verification/Helper_Json.thy ===== *)
theory Helper_Json
  imports Helper_Main
begin

text \<open>
  What the helper's answers look like in JSON (the derived \<open>Serialize\<close> of \<open>src/src/helper.rs\<close>:
  the fields in their order under their names, \<open>rename_all = "snake_case"\<close> for the status,
  \<open>null\<close> for \<open>None\<close>), and what \<open>print_json\<close> of \<open>src/src/bin/helper.rs\<close> hands to the printer.
\<close>

definition option_json :: "('a \<Rightarrow> json) \<Rightarrow> 'a option \<Rightarrow> json" where
  "option_json f v = (case v of None \<Rightarrow> JNull | Some x \<Rightarrow> f x)"

definition helper_status_json :: "helper_status \<Rightarrow> json" where
  "helper_status_json s = JString (case s of HsOk \<Rightarrow> ''ok'' | HsMismatch \<Rightarrow> ''mismatch'' | HsError \<Rightarrow> ''error'')"

definition unit_info_json :: "unit_info \<Rightarrow> json" where
  "unit_info_json u = JObject
     [(''unit_name'', JString (ui_unit_name u)), (''active_state'', JString (ui_active_state u)),
      (''sub_state'', JString (ui_sub_state u)), (''description'', JString (ui_description u))]"

definition model_info_json :: "model_info \<Rightarrow> json" where
  "model_info_json m = JObject
     [(''model_alias'', JString (mi_model_alias m)), (''model_path'', JString (mi_model_path m)),
      (''serving'', JBool (mi_serving m)), (''ready'', JBool (mi_ready m)),
      (''reported_id'', option_json JString (mi_reported_id m))]"

definition status_response_json :: "status_response \<Rightarrow> json" where
  "status_response_json r = JObject
     [(''status'', helper_status_json (sr_status r)), (''message'', JString (sr_message r)),
      (''llama_server'', option_json unit_info_json (sr_llama_server r)),
      (''inhibit_holder'', option_json unit_info_json (sr_inhibit_holder r)),
      (''active_model'', option_json model_info_json (sr_active_model r)),
      (''llama_server_embeddings'', option_json unit_info_json (sr_llama_server_embeddings r)),
      (''active_model_embeddings'', option_json model_info_json (sr_active_model_embeddings r))]"

definition ensure_started_json :: "ensure_started_response \<Rightarrow> json" where
  "ensure_started_json r = JObject
     [(''status'', helper_status_json (er_status r)), (''message'', JString (er_message r)),
      (''model_alias'', JString (er_model_alias r)), (''model_path'', JString (er_model_path r)),
      (''startup_triggered'', JBool (er_startup_triggered r)), (''server_ready'', JBool (er_server_ready r)),
      (''model_verified'', JBool (er_model_verified r)),
      (''llama_server'', option_json unit_info_json (er_llama_server r))]"

definition lease_acquire_json :: "lease_acquire_response \<Rightarrow> json" where
  "lease_acquire_json r = JObject
     [(''status'', helper_status_json (la_status r)), (''message'', JString (la_message r)),
      (''inhibit_holder'', option_json unit_info_json (la_inhibit_holder r)),
      (''ttl_secs'', JNumber (PosInt (la_ttl_secs r))), (''renewed'', JBool (la_renewed r))]"

definition lease_release_json :: "lease_release_response \<Rightarrow> json" where
  "lease_release_json r = JObject
     [(''status'', helper_status_json (lr_status r)), (''message'', JString (lr_message r)),
      (''inhibit_holder'', option_json unit_info_json (lr_inhibit_holder r))]"

definition lease_inspect_json :: "lease_inspect_response \<Rightarrow> json" where
  "lease_inspect_json r = JObject
     [(''status'', helper_status_json (li_status r)), (''message'', JString (li_message r)),
      (''inhibit_holder'', option_json unit_info_json (li_inhibit_holder r))]"

definition print_json :: "helper_output \<Rightarrow> json" where
  "print_json out = (case out of OStatus r \<Rightarrow> status_response_json r | OEnsure r \<Rightarrow> ensure_started_json r
     | OAcquire r \<Rightarrow> lease_acquire_json r | ORelease r \<Rightarrow> lease_release_json r
     | OInspect r \<Rightarrow> lease_inspect_json r)"

section \<open>The JSON determines the answer\<close>

lemma option_json_inj:
  assumes "\<And>x y. f x = f y \<Longrightarrow> x = y" "\<And>x. f x \<noteq> JNull"
  shows "option_json f a = option_json f b \<longleftrightarrow> a = b"
proof (cases a)
  case None
  then show ?thesis by (cases b) (simp_all add: option_json_def assms(2) [symmetric])
next
  case (Some x)
  then show ?thesis by (cases b) (auto simp: option_json_def assms(2) dest: assms(1))
qed

lemma helper_status_json_inj [simp]: "helper_status_json a = helper_status_json b \<longleftrightarrow> a = b"
  by (cases a; cases b) (simp_all add: helper_status_json_def)

lemma unit_info_json_inj [simp]: "unit_info_json a = unit_info_json b \<longleftrightarrow> a = b"
  by (cases a; cases b) (simp add: unit_info_json_def)

lemma option_string_inj [simp]: "option_json JString a = option_json JString b \<longleftrightarrow> a = b"
  by (rule option_json_inj) simp_all

lemma model_info_json_inj [simp]: "model_info_json a = model_info_json b \<longleftrightarrow> a = b"
  by (cases a; cases b) (simp add: model_info_json_def)

lemma option_unit_inj [simp]: "option_json unit_info_json a = option_json unit_info_json b \<longleftrightarrow> a = b"
  by (rule option_json_inj) (simp_all add: unit_info_json_def)

lemma option_model_inj [simp]: "option_json model_info_json a = option_json model_info_json b \<longleftrightarrow> a = b"
  by (rule option_json_inj) (simp_all add: model_info_json_def)

text \<open>
  Two answers of the same command are printed as the same JSON value only if they are the
  same: whoever reads the JSON can tell every field back.
\<close>

theorem status_response_json_inj: "status_response_json a = status_response_json b \<longleftrightarrow> a = b"
  by (cases a; cases b) (simp add: status_response_json_def)

theorem ensure_started_json_inj: "ensure_started_json a = ensure_started_json b \<longleftrightarrow> a = b"
  by (cases a; cases b) (simp add: ensure_started_json_def)

theorem lease_acquire_json_inj: "lease_acquire_json a = lease_acquire_json b \<longleftrightarrow> a = b"
  by (cases a; cases b) (simp add: lease_acquire_json_def)

end
