(* ===== verification/Helper_Tests.thy ===== *)
theory Helper_Tests
  imports Helper_Json
begin

text \<open>
  The unit tests of the host helper (\<open>src/src/helper.rs\<close>, module \<open>tests\<close>), run on the model. A
  test is a Boolean: the conjunction of its assertions, evaluated on the model's functions with
  the test's own doubles for \<open>SystemdControl\<close> and \<open>ServerCheck\<close>, which answer at once. The
  tests start at any time of the monotonic clock that leaves room for the timeout; what
  \<open>serde_json::from_str\<close> makes of the doubles' answers is a hypothesis.
\<close>

section \<open>Doubles\<close>

definition with_services ::
  "helper_config \<Rightarrow> 'e systemd_control \<Rightarrow> 'e server_check \<Rightarrow> 'e helper" where
  "with_services config systemd http = \<lparr>h_config = config, h_sys = systemd, h_http = http\<rparr>"

definition unit_map :: "string \<Rightarrow> string \<Rightarrow> string \<Rightarrow> (string \<rightharpoonup> string)" where
  "unit_map active_state sub_state unit = [''ActiveState'' \<mapsto> active_state, ''SubState'' \<mapsto> sub_state,
     ''Description'' \<mapsto> unit @ '' unit'']"

text \<open>A double whose answers never change; the other methods are the trait's defaults.\<close>

definition fixed_systemd ::
  "(string \<Rightarrow> (string, string \<rightharpoonup> string) res) \<Rightarrow> (string, bool) res \<Rightarrow> (string, unit) res
   \<Rightarrow> 'e systemd_control" where
  "fixed_systemd shown active started = \<lparr>
     show_unit = (\<lambda>unit. at_once (shown unit)),
     is_active = (\<lambda>_. at_once active),
     start_unit = (\<lambda>_. at_once started),
     stop_unit = stop_unit_default,
     replace_transient_unit = replace_transient_unit_default\<rparr>"

definition fixed_server :: "(string, string) res \<Rightarrow> 'e server_check" where
  "fixed_server answer = \<lparr>get_text = (\<lambda>_. at_once answer)\<rparr>"

definition test_unit :: "string \<Rightarrow> string \<Rightarrow> string \<Rightarrow> string \<Rightarrow> unit_info" where
  "test_unit name active_state sub_state description = \<lparr>ui_unit_name = name,
     ui_active_state = active_state, ui_sub_state = sub_state, ui_description = description\<rparr>"

section \<open>The answers in JSON\<close>

definition status_response_serializes_to_json :: bool where
  "status_response_serializes_to_json =
     (let response = \<lparr>sr_status = HsOk, sr_message = ''current host unit state'',
            sr_llama_server = Some (test_unit ''llama-server'' ''active'' ''running'' ''llama.cpp server''),
            sr_inhibit_holder = Some (test_unit ''llm-wake-proxy-inhibit'' ''active'' ''running''
              ''Inhibit holder for llm-wake-proxy''),
            sr_active_model = Some \<lparr>mi_model_alias = ''llama-3.2-3b'',
              mi_model_path = ''/models/llama-3.2-3b.Q4_K_M.gguf'', mi_serving = True, mi_ready = True,
              mi_reported_id = Some ''/models/llama-3.2-3b.Q4_K_M.gguf''\<rparr>,
            sr_llama_server_embeddings = None, sr_active_model_embeddings = None\<rparr>;
          json = status_response_json response
      in json_get json ''status'' = JString ''ok''
       \<and> json_get (json_get json ''llama_server'') ''unit_name'' = JString ''llama-server''
       \<and> json_get (json_get json ''llama_server'') ''active_state'' = JString ''active''
       \<and> json_get (json_get json ''active_model'') ''model_alias'' = JString ''llama-3.2-3b''
       \<and> json_get (json_get json ''active_model'') ''reported_id''
           = JString ''/models/llama-3.2-3b.Q4_K_M.gguf'')"

definition status_response_handles_missing_units :: bool where
  "status_response_handles_missing_units =
     (let response = \<lparr>sr_status = HsOk, sr_message = ''current host unit state'',
            sr_llama_server = None, sr_inhibit_holder = None, sr_active_model = None,
            sr_llama_server_embeddings = None, sr_active_model_embeddings = None\<rparr>;
          json = status_response_json response
      in json_get json ''llama_server'' = JNull \<and> json_get json ''active_model'' = JNull)"

definition ensure_started_ok_serializes_to_json :: bool where
  "ensure_started_ok_serializes_to_json =
     (let response = \<lparr>er_status = HsOk, er_message = ''model is already running and ready'',
            er_model_alias = ''llama-3.2-3b'', er_model_path = ''/models/llama-3.2-3b.Q4_K_M.gguf'',
            er_startup_triggered = False, er_server_ready = True, er_model_verified = True,
            er_llama_server = Some (test_unit ''llama-server'' ''active'' ''running'' ''llama.cpp server'')\<rparr>;
          json = ensure_started_json response
      in json_get json ''status'' = JString ''ok''
       \<and> json_get json ''model_alias'' = JString ''llama-3.2-3b''
       \<and> json_get json ''startup_triggered'' = JBool False
       \<and> json_get json ''server_ready'' = JBool True
       \<and> json_get json ''model_verified'' = JBool True
       \<and> json_get (json_get json ''llama_server'') ''active_state'' = JString ''active'')"

definition ensure_started_mismatch_serializes_to_json :: bool where
  "ensure_started_mismatch_serializes_to_json =
     (let response = \<lparr>er_status = HsMismatch,
            er_message = ''expected model path '' @ [CHR 0x27] @ ''/models/a.gguf'' @ [CHR 0x27]
              @ '', but server reports '' @ [CHR 0x27] @ ''/models/b.gguf'' @ [CHR 0x27],
            er_model_alias = ''model-a'', er_model_path = ''/models/a.gguf'',
            er_startup_triggered = False, er_server_ready = True, er_model_verified = False,
            er_llama_server = Some (test_unit ''llama-server'' ''active'' ''running'' [])\<rparr>;
          json = ensure_started_json response
      in json_get json ''status'' = JString ''mismatch''
       \<and> json_get json ''model_verified'' = JBool False
       \<and> json_get json ''server_ready'' = JBool True
       \<and> json_get json ''model_alias'' = JString ''model-a'')"

definition ensure_started_error_serializes_to_json :: bool where
  "ensure_started_error_serializes_to_json =
     (let response = \<lparr>er_status = HsError, er_message = ''failed to start llama-server: exit code 1'',
            er_model_alias = ''llama-3.2-3b'', er_model_path = ''/models/llama-3.2-3b.gguf'',
            er_startup_triggered = True, er_server_ready = False, er_model_verified = False,
            er_llama_server = Some (test_unit ''llama-server'' ''failed'' ''startup_error'' [])\<rparr>;
          json = ensure_started_json response
      in json_get json ''status'' = JString ''error''
       \<and> json_get json ''startup_triggered'' = JBool True
       \<and> json_get (json_get json ''llama_server'') ''active_state'' = JString ''failed'')"

definition ensure_started_error_with_null_llama_server :: bool where
  "ensure_started_error_with_null_llama_server =
     (let response = \<lparr>er_status = HsError,
            er_message = ''model identity check failed: connection refused'',
            er_model_alias = ''test-model'', er_model_path = ''/models/test.gguf'',
            er_startup_triggered = True, er_server_ready = False, er_model_verified = False,
            er_llama_server = None\<rparr>;
          json = ensure_started_json response
      in json_get json ''llama_server'' = JNull)"

definition lease_acquire_response_serializes_to_json :: bool where
  "lease_acquire_response_serializes_to_json =
     (let response = \<lparr>la_status = HsOk, la_message = ''lease renewed'',
            la_inhibit_holder = Some (test_unit ''llm-wake-proxy-inhibit'' ''active'' ''running''
              ''llm-wake-proxy inhibit holder''),
            la_ttl_secs = 900, la_renewed = True\<rparr>;
          json = lease_acquire_json response
      in json_get json ''status'' = JString ''ok''
       \<and> json_get json ''ttl_secs'' = JNumber (PosInt 900)
       \<and> json_get json ''renewed'' = JBool True
       \<and> json_get (json_get json ''inhibit_holder'') ''active_state'' = JString ''active'')"

definition lease_acquire_response_with_error :: bool where
  "lease_acquire_response_with_error =
     (let response = \<lparr>la_status = HsError,
            la_message = ''failed to acquire lease: systemd-run not found'',
            la_inhibit_holder = None, la_ttl_secs = 900, la_renewed = False\<rparr>;
          json = lease_acquire_json response
      in json_get json ''status'' = JString ''error'' \<and> json_get json ''inhibit_holder'' = JNull)"

definition lease_release_response_serializes_to_json :: bool where
  "lease_release_response_serializes_to_json =
     (let response = \<lparr>lr_status = HsOk, lr_message = ''lease released'',
            lr_inhibit_holder = Some (test_unit ''llm-wake-proxy-inhibit'' ''inactive'' ''dead'' [])\<rparr>;
          json = lease_release_json response
      in json_get json ''status'' = JString ''ok''
       \<and> json_get (json_get json ''inhibit_holder'') ''active_state'' = JString ''inactive'')"

definition lease_release_response_with_error :: bool where
  "lease_release_response_with_error =
     (let response = \<lparr>lr_status = HsError, lr_message = ''failed to release lease: unit not found'',
            lr_inhibit_holder = None\<rparr>;
          json = lease_release_json response
      in json_get json ''status'' = JString ''error'' \<and> json_get json ''inhibit_holder'' = JNull)"

definition lease_inspect_response_serializes_to_json :: bool where
  "lease_inspect_response_serializes_to_json =
     (let response = \<lparr>li_status = HsOk, li_message = ''current lease state'',
            li_inhibit_holder = Some (test_unit ''llm-wake-proxy-inhibit'' ''active'' ''running''
              ''llm-wake-proxy inhibit holder'')\<rparr>;
          json = lease_inspect_json response
      in json_get json ''status'' = JString ''ok''
       \<and> json_get (json_get json ''inhibit_holder'') ''active_state'' = JString ''active'')"

definition json_tests :: "bool list" where
  "json_tests = [status_response_serializes_to_json, status_response_handles_missing_units,
     ensure_started_ok_serializes_to_json, ensure_started_mismatch_serializes_to_json,
     ensure_started_error_serializes_to_json, ensure_started_error_with_null_llama_server,
     lease_acquire_response_serializes_to_json, lease_acquire_response_with_error,
     lease_release_response_serializes_to_json, lease_release_response_with_error,
     lease_inspect_response_serializes_to_json]"

lemmas json_test_defs =
  status_response_serializes_to_json_def status_response_handles_missing_units_def
  ensure_started_ok_serializes_to_json_def ensure_started_mismatch_serializes_to_json_def
  ensure_started_error_serializes_to_json_def ensure_started_error_with_null_llama_server_def
  lease_acquire_response_serializes_to_json_def lease_acquire_response_with_error_def
  lease_release_response_serializes_to_json_def lease_release_response_with_error_def
  lease_inspect_response_serializes_to_json_def

lemma json_tests_pass: "all_pass json_tests"
  by (simp add: json_tests_def json_test_defs Let_def json_get_def test_unit_def option_json_def
      unwrap_or_def status_response_json_def ensure_started_json_def lease_acquire_json_def
      lease_release_json_def lease_inspect_json_def helper_status_json_def unit_info_json_def
      model_info_json_def)

section \<open>Parsing and configuration\<close>

definition parses_systemctl_show_output :: bool where
  "parses_systemctl_show_output =
     (let output = ''ActiveState=active'' @ [CHR 0x0A] @ ''SubState=running'' @ [CHR 0x0A]
            @ ''Description=llama.cpp server'' @ [CHR 0x0A]
      in case parse_systemctl_output output of
           Inl _ \<Rightarrow> False
         | Inr m \<Rightarrow> m ''ActiveState'' = Some ''active'' \<and> m ''SubState'' = Some ''running''
             \<and> m ''Description'' = Some ''llama.cpp server'')"

definition parses_systemctl_output_with_empty_values :: bool where
  "parses_systemctl_output_with_empty_values =
     (let output = ''ActiveState=inactive'' @ [CHR 0x0A] @ ''SubState=dead'' @ [CHR 0x0A]
            @ ''Description='' @ [CHR 0x0A]
      in case parse_systemctl_output output of
           Inl _ \<Rightarrow> False
         | Inr m \<Rightarrow> m ''ActiveState'' = Some ''inactive'' \<and> m ''Description'' = Some [])"

definition helper_config_defaults :: bool where
  "helper_config_defaults =
     (let config = helper_config_default
      in llama_server_unit config = ''llama-server''
       \<and> inhibit_holder_unit config = ''llm-wake-proxy-inhibit''
       \<and> llama_server_port config = 8080
       \<and> llama_server_embeddings_unit config = ''llama-server-embeddings''
       \<and> llama_server_embeddings_port config = 8081
       \<and> server_start_timeout_secs config = 60)"

definition helper_config_unit_for_and_port_for :: bool where
  "helper_config_unit_for_and_port_for =
     (let config = helper_config_default
      in unit_for config TChat = ''llama-server''
       \<and> unit_for config TEmbeddings = ''llama-server-embeddings''
       \<and> port_for config TChat = 8080
       \<and> port_for config TEmbeddings = 8081)"

definition target_as_str_and_from_str :: bool where
  "target_as_str_and_from_str =
     (as_str TChat = ''chat''
      \<and> as_str TEmbeddings = ''embeddings''
      \<and> from_str ''chat'' = Ok TChat
      \<and> from_str ''embeddings'' = Ok TEmbeddings
      \<and> (case from_str ''bogus'' of Inl _ \<Rightarrow> True | Inr _ \<Rightarrow> False))"

definition text_tests :: "bool list" where
  "text_tests = [parses_systemctl_show_output, parses_systemctl_output_with_empty_values,
     helper_config_defaults, helper_config_unit_for_and_port_for, target_as_str_and_from_str]"

lemma text_tests_pass: "all_pass text_tests"
  by code_simp

section \<open>Starting a model\<close>

text \<open>
  Two answers of a models endpoint, in the text the doubles return, and as the values they
  denote (maps sorted by their keys).
\<close>

definition quoted_text :: "string \<Rightarrow> string" where
  "quoted_text t = [CHR 0x22] @ t @ [CHR 0x22]"

definition models_text :: "string \<Rightarrow> string" where
  "models_text name = ''{'' @ quoted_text ''object'' @ '':'' @ quoted_text ''list'' @ '','' @ quoted_text ''data''
     @ '':[{'' @ quoted_text ''id'' @ '':'' @ quoted_text name @ '','' @ quoted_text ''object'' @ '':''
     @ quoted_text ''model'' @ '','' @ quoted_text ''created'' @ '':1717156800,'' @ quoted_text ''owned_by''
     @ '':'' @ quoted_text ''llama.cpp'' @ ''}]}''"

definition models_value :: "string \<Rightarrow> json" where
  "models_value name = JObject [
     (''data'', JArray [JObject [(''created'', JNumber (PosInt 1717156800)), (''id'', JString name),
        (''object'', JString ''model''), (''owned_by'', JString ''llama.cpp'')]]),
     (''object'', JString ''list'')]"

text \<open>The documented behaviour of \<open>serde_json::from_str\<close> that the tests use.\<close>

definition reads_models :: "(string \<Rightarrow> (string, json) res) \<Rightarrow> bool" where
  "reads_models parse = (\<forall>name\<in>set [''/models/llama-3.2-3b.Q4_K_M.gguf'', ''/models/llama-3.1-8b.Q4_K_M.gguf''].
     parse (models_text name) = Ok (models_value name))"

definition one_second :: helper_config where
  "one_second = helper_config_default\<lparr>server_start_timeout_secs := 1\<rparr>"

definition ensure_llama ::
  "(string \<Rightarrow> (string, json) res) \<Rightarrow> 'e helper \<Rightarrow> 'e world \<Rightarrow> ensure_started_response option" where
  "ensure_llama parse h w = map_option fst
     (ensure_started parse h TChat ''llama-3.2-3b'' ''/models/llama-3.2-3b.Q4_K_M.gguf'' w)"

definition ensure_test_model ::
  "(string \<Rightarrow> (string, json) res) \<Rightarrow> 'e helper \<Rightarrow> 'e world \<Rightarrow> ensure_started_response option" where
  "ensure_test_model parse h w = map_option fst
     (ensure_started parse h TChat ''test-model'' ''/models/test.gguf'' w)"

definition ready_systemd :: "'e systemd_control" where
  "ready_systemd = fixed_systemd (\<lambda>unit. Ok (unit_map ''active'' ''running'' unit)) (Ok True) (Ok ())"

definition ready_server :: "'e server_check" where
  "ready_server = fixed_server (Ok (models_text ''/models/llama-3.2-3b.Q4_K_M.gguf''))"

definition ensure_started_with_already_active_server ::
  "(string \<Rightarrow> (string, json) res) \<Rightarrow> nat \<Rightarrow> bool" where
  "ensure_started_with_already_active_server parse at =
     (let helper = with_services one_second ready_systemd ready_server in
      case ensure_llama parse helper \<lparr>clock = at, env = ()\<rparr> of
        None \<Rightarrow> False
      | Some response \<Rightarrow> er_status response = HsOk
          \<and> \<not> er_startup_triggered response
          \<and> er_server_ready response
          \<and> er_model_verified response
          \<and> er_message response = ''model is already running and ready'')"

text \<open>The shared state of the doubles of the next test: \<open>active\<close>, \<open>ready\<close> and \<open>call_count\<close>.\<close>

record on_demand =
  od_active :: bool
  od_ready :: bool
  od_call_count :: nat

definition start_on_demand_systemd :: "on_demand systemd_control" where
  "start_on_demand_systemd = \<lparr>
     show_unit = (\<lambda>unit s. (Ok (unit_map (if od_active s then ''active'' else ''inactive'')
                                  (if od_active s then ''running'' else ''dead'') unit), 0, s)),
     is_active = (\<lambda>_ s. (Ok (od_active s), 0, s)),
     start_unit = (\<lambda>_ s. (Ok (), 0, s\<lparr>od_active := True\<rparr>)),
     stop_unit = stop_unit_default,
     replace_transient_unit = replace_transient_unit_default\<rparr>"

definition delayed_server :: "on_demand server_check" where
  "delayed_server = \<lparr>get_text = (\<lambda>_ s.
     (let s = s\<lparr>od_call_count := od_call_count s + 1\<rparr>;
          s = (if od_call_count s > 1 then s\<lparr>od_ready := True\<rparr> else s)
      in if od_ready s then (Ok (models_text ''/models/llama-3.2-3b.Q4_K_M.gguf''), 0, s)
         else (Err ''connection refused'', 0, s)))\<rparr>"

definition ensure_started_starts_inactive_server_and_verifies_model ::
  "(string \<Rightarrow> (string, json) res) \<Rightarrow> nat \<Rightarrow> bool" where
  "ensure_started_starts_inactive_server_and_verifies_model parse at =
     (let helper = with_services one_second start_on_demand_systemd delayed_server;
          s = \<lparr>od_active = False, od_ready = False, od_call_count = 0\<rparr> in
      case ensure_llama parse helper \<lparr>clock = at, env = s\<rparr> of
        None \<Rightarrow> False
      | Some response \<Rightarrow> er_status response = HsOk
          \<and> er_startup_triggered response
          \<and> er_server_ready response
          \<and> er_model_verified response
          \<and> er_message response = ''model started and verified successfully'')"

definition mismatch_systemd :: "'e systemd_control" where
  "mismatch_systemd = fixed_systemd (\<lambda>unit. Ok (unit_map ''active'' ''running'' unit)) (Ok True) (Ok ())"

definition wrong_model_server :: "'e server_check" where
  "wrong_model_server = fixed_server (Ok (models_text ''/models/llama-3.1-8b.Q4_K_M.gguf''))"

definition ensure_started_detects_model_mismatch ::
  "(string \<Rightarrow> (string, json) res) \<Rightarrow> nat \<Rightarrow> bool" where
  "ensure_started_detects_model_mismatch parse at =
     (let helper = with_services one_second mismatch_systemd wrong_model_server in
      case ensure_llama parse helper \<lparr>clock = at, env = ()\<rparr> of
        None \<Rightarrow> False
      | Some response \<Rightarrow> er_status response = HsMismatch
          \<and> er_server_ready response
          \<and> \<not> er_model_verified response
          \<and> (contains_str (er_message response) ''mismatch''
             \<or> contains_str (er_message response) ''expected''))"

definition failing_systemd :: "'e systemd_control" where
  "failing_systemd = fixed_systemd (\<lambda>unit. Ok (unit_map ''failed'' ''failed'' unit)) (Ok False)
     (Err ''unit failed to start: exit code 1'')"

definition unused_server :: "'e server_check" where
  "unused_server = fixed_server (Err ''should not be called'')"

definition ensure_started_reports_startup_failure ::
  "(string \<Rightarrow> (string, json) res) \<Rightarrow> nat \<Rightarrow> bool" where
  "ensure_started_reports_startup_failure parse at =
     (let helper = with_services helper_config_default failing_systemd unused_server in
      case ensure_test_model parse helper \<lparr>clock = at, env = ()\<rparr> of
        None \<Rightarrow> False
      | Some response \<Rightarrow> er_status response = HsError
          \<and> \<not> er_startup_triggered response
          \<and> \<not> er_server_ready response
          \<and> contains_str (er_message response) ''failed to start'')"

definition stuck_systemd :: "'e systemd_control" where
  "stuck_systemd = fixed_systemd (\<lambda>unit. Ok (unit_map ''activating'' ''start'' unit)) (Ok False) (Ok ())"

definition never_ready_server :: "'e server_check" where
  "never_ready_server = fixed_server (Err ''connection refused'')"

definition ensure_started_reports_timeout_when_server_never_ready ::
  "(string \<Rightarrow> (string, json) res) \<Rightarrow> nat \<Rightarrow> bool" where
  "ensure_started_reports_timeout_when_server_never_ready parse at =
     (let helper = with_services (helper_config_default\<lparr>server_start_timeout_secs := 0\<rparr>)
            stuck_systemd never_ready_server in
      case ensure_test_model parse helper \<lparr>clock = at, env = ()\<rparr> of
        None \<Rightarrow> False
      | Some response \<Rightarrow> er_status response = HsError
          \<and> \<not> er_server_ready response
          \<and> contains_str (er_message response) ''did not become ready'')"

definition start_tests :: "(string \<Rightarrow> (string, json) res) \<Rightarrow> nat \<Rightarrow> bool list" where
  "start_tests parse at = [ensure_started_with_already_active_server parse at,
     ensure_started_starts_inactive_server_and_verifies_model parse at,
     ensure_started_detects_model_mismatch parse at,
     ensure_started_reports_startup_failure parse at,
     ensure_started_reports_timeout_when_server_never_ready parse at]"

lemmas double_defs = with_services_def at_once_def fixed_systemd_def fixed_server_def unit_map_def
  ready_systemd_def ready_server_def start_on_demand_systemd_def delayed_server_def
  mismatch_systemd_def wrong_model_server_def failing_systemd_def unused_server_def
  stuck_systemd_def never_ready_server_def one_second_def helper_config_default_def

lemmas start_defs = ensure_llama_def ensure_test_model_def ensure_started_def Let_def start_if_inactive_def
  call_def wait_for_server_def instant_add_secs_def is_server_alive_def verify_model_def unit_info_or_def
  collect_unit_info_def unit_info_of_def check_model_identity_def reported_model_id_def models_value_def
  json_get_def json_as_array_def json_as_str_def unit_for_def port_for_def sleep_ms_def unwrap_or_def
  start_failed_response_def not_ready_response_def mismatch_message_def path_matches_def

lemma test_texts:
  "contains_str ''/models/llama-3.2-3b.Q4_K_M.gguf'' ''/models/llama-3.2-3b.Q4_K_M.gguf''"
  "\<not> contains_str ''/models/llama-3.1-8b.Q4_K_M.gguf'' ''/models/llama-3.2-3b.Q4_K_M.gguf''"
  "\<not> contains_str ''/models/llama-3.2-3b.Q4_K_M.gguf'' ''/models/llama-3.1-8b.Q4_K_M.gguf''"
  by code_simp+

lemma start_tests_pass:
  assumes "reads_models parse"
    and "at div 1000 + 60 < 2 ^ 63"
  shows "all_pass (start_tests parse at)"
proof -
  have a: "ensure_started_with_already_active_server parse at"
    using assms by (simp add: reads_models_def ensure_started_with_already_active_server_def double_defs start_defs poll_server.simps
        test_texts)
  have b: "ensure_started_starts_inactive_server_and_verifies_model parse at"
    using assms by (simp add: reads_models_def ensure_started_starts_inactive_server_and_verifies_model_def double_defs start_defs poll_server.simps
        test_texts)
  have c: "ensure_started_detects_model_mismatch parse at"
    using assms by (simp add: reads_models_def ensure_started_detects_model_mismatch_def double_defs start_defs poll_server.simps
        test_texts)
  have d: "ensure_started_reports_startup_failure parse at"
    using assms by (simp add: reads_models_def ensure_started_reports_startup_failure_def double_defs start_defs poll_server.simps
        test_texts)
  have e: "ensure_started_reports_timeout_when_server_never_ready parse at"
    using assms by (simp add: reads_models_def ensure_started_reports_timeout_when_server_never_ready_def double_defs start_defs poll_server.simps
        test_texts)
  from a b c d e show ?thesis by (simp add: start_tests_def)
qed

section \<open>The leases\<close>

definition lease_systemd :: "'e systemd_control" where
  "lease_systemd = (fixed_systemd (\<lambda>unit. Ok (unit_map ''active'' ''running'' unit)) (Ok False) (Ok ()))
     \<lparr>replace_transient_unit := (\<lambda>_ _ _. at_once (Ok ()))\<rparr>"

definition lease_acquire_creates_transient_unit :: "nat \<Rightarrow> bool" where
  "lease_acquire_creates_transient_unit at =
     (let helper = with_services helper_config_default lease_systemd (fixed_server (Ok []));
          response = fst (lease_acquire helper 900 \<lparr>clock = at, env = ()\<rparr>)
      in la_status response = HsOk
       \<and> la_message response = ''lease acquired''
       \<and> la_ttl_secs response = 900
       \<and> \<not> la_renewed response)"

definition renew_lease_systemd :: "'e systemd_control" where
  "renew_lease_systemd = (fixed_systemd (\<lambda>unit. Ok (unit_map ''active'' ''running'' unit)) (Ok True) (Ok ()))
     \<lparr>replace_transient_unit := (\<lambda>_ _ _. at_once (Ok ()))\<rparr>"

definition lease_acquire_renews_existing_lease :: "nat \<Rightarrow> bool" where
  "lease_acquire_renews_existing_lease at =
     (let helper = with_services helper_config_default renew_lease_systemd (fixed_server (Ok []));
          response = fst (lease_acquire helper 600 \<lparr>clock = at, env = ()\<rparr>)
      in la_status response = HsOk
       \<and> la_message response = ''lease renewed''
       \<and> la_renewed response)"

definition failing_lease_systemd :: "'e systemd_control" where
  "failing_lease_systemd = (fixed_systemd (\<lambda>unit. Ok (unit_map ''inactive'' ''dead'' unit)) (Ok False) (Ok ()))
     \<lparr>replace_transient_unit := (\<lambda>_ _ _. at_once (Err ''systemd-run binary not found''))\<rparr>"

definition lease_acquire_reports_failure :: "nat \<Rightarrow> bool" where
  "lease_acquire_reports_failure at =
     (let helper = with_services helper_config_default failing_lease_systemd (fixed_server (Ok []));
          response = fst (lease_acquire helper 900 \<lparr>clock = at, env = ()\<rparr>)
      in la_status response = HsError
       \<and> contains_str (la_message response) ''systemd-run''
       \<and> \<not> la_renewed response)"

definition stoppable_systemd :: "'e systemd_control" where
  "stoppable_systemd = (fixed_systemd (\<lambda>unit. Ok (unit_map ''inactive'' ''dead'' unit)) (Ok False) (Ok ()))
     \<lparr>stop_unit := (\<lambda>_. at_once (Ok ()))\<rparr>"

definition lease_release_stops_inhibit_unit :: "nat \<Rightarrow> bool" where
  "lease_release_stops_inhibit_unit at =
     (let helper = with_services helper_config_default stoppable_systemd (fixed_server (Ok []));
          response = fst (lease_release helper \<lparr>clock = at, env = ()\<rparr>)
      in lr_status response = HsOk \<and> lr_message response = ''lease released'')"

definition unstoppable_systemd :: "'e systemd_control" where
  "unstoppable_systemd = (fixed_systemd (\<lambda>_. Err ''unit not found'') (Ok False) (Ok ()))
     \<lparr>stop_unit := (\<lambda>_. at_once (Err ''unit not found''))\<rparr>"

definition lease_release_reports_failure :: "nat \<Rightarrow> bool" where
  "lease_release_reports_failure at =
     (let helper = with_services helper_config_default unstoppable_systemd (fixed_server (Ok []));
          response = fst (lease_release helper \<lparr>clock = at, env = ()\<rparr>)
      in lr_status response = HsError \<and> contains_str (lr_message response) ''unit not found'')"

definition inspectable_systemd :: "'e systemd_control" where
  "inspectable_systemd = fixed_systemd (\<lambda>unit. Ok (unit_map ''active'' ''running'' unit)) (Ok True) (Ok ())"

definition lease_inspect_returns_current_state :: "nat \<Rightarrow> bool" where
  "lease_inspect_returns_current_state at =
     (let helper = with_services helper_config_default inspectable_systemd (fixed_server (Ok []));
          response = fst (lease_inspect helper \<lparr>clock = at, env = ()\<rparr>)
      in li_status response = HsOk
       \<and> (case li_inhibit_holder response of None \<Rightarrow> False
            | Some unit \<Rightarrow> ui_active_state unit = ''active''))"

definition lease_tests :: "nat \<Rightarrow> bool list" where
  "lease_tests at = [lease_acquire_creates_transient_unit at, lease_acquire_renews_existing_lease at,
     lease_acquire_reports_failure at, lease_release_stops_inhibit_unit at,
     lease_release_reports_failure at, lease_inspect_returns_current_state at]"

lemmas lease_double_defs = lease_systemd_def renew_lease_systemd_def failing_lease_systemd_def
  stoppable_systemd_def unstoppable_systemd_def inspectable_systemd_def with_services_def
  fixed_systemd_def fixed_server_def at_once_def unit_map_def helper_config_default_def

lemmas lease_test_defs = lease_acquire_creates_transient_unit_def lease_acquire_renews_existing_lease_def
  lease_acquire_reports_failure_def lease_release_stops_inhibit_unit_def
  lease_release_reports_failure_def lease_inspect_returns_current_state_def

lemma lease_tests_pass: "all_pass (lease_tests at)"
  by (simp add: lease_tests_def lease_test_defs lease_double_defs Let_def lease_acquire_def
      lease_release_def lease_inspect_def call_def clamp_u64_def collect_unit_info_def
      unit_info_of_def unwrap_or_def result_ok_def)

section \<open>All tests\<close>

definition helper_tests :: "(string \<Rightarrow> (string, json) res) \<Rightarrow> nat \<Rightarrow> bool list" where
  "helper_tests parse at = json_tests @ text_tests @ start_tests parse at @ lease_tests at"

lemma helper_tests_pass:
  assumes "reads_models parse"
    and "at div 1000 + 60 < 2 ^ 63"
  shows "all_pass (helper_tests parse at)"
  using json_tests_pass text_tests_pass start_tests_pass [OF assms] lease_tests_pass [of at]
  by (simp add: helper_tests_def)

end
