(* ===== verification/Config_Tests.thy ===== *)
theory Config_Tests
  imports Host Config
begin

text \<open>
  The unit tests of the configuration (\<open>src/src/config.rs\<close>, module \<open>tests\<close>) and of the host
  adapters (\<open>src/src/host.rs\<close>, module \<open>tests\<close>), run on the model. A test that writes the
  process environment is a function on it: it gives its verdict and the environment it leaves.
  The lock of the test module serialises these tests but fixes no order, so they are run in
  every order and from every environment.
\<close>

section \<open>The host of the tests\<close>

definition host_config_default :: host_config where
  "host_config_default = \<lparr>hc_host = ''192.168.1.100'', hc_ssh_user = ''test-user'', hc_ssh_port = 22,
     hc_wol_mac = [0xAA, 0xBB, 0xCC, 0xDD, 0xEE, 0xFF], hc_wol_broadcast = ''255.255.255.255'',
     hc_wol_port = 9, hc_helper_path = ''/usr/local/bin/llm-wake-proxy-helper'',
     hc_model_path = ''/models/test-model.gguf'', hc_ssh_key_path = ''~/.ssh/ssh-privatekey'',
     hc_tunnel_local_port = 18080, hc_remote_port = 8080\<rparr>"

section \<open>Tests on the environment\<close>

type_synonym env_test = "environment \<Rightarrow> bool \<times> environment"

definition set_var :: "string \<Rightarrow> string \<Rightarrow> environment \<Rightarrow> environment" where
  "set_var name value e = e(name \<mapsto> value)"

definition remove_var :: "string \<Rightarrow> environment \<Rightarrow> environment" where
  "remove_var name e = e(name := None)"

definition set_required_host_env :: "environment \<Rightarrow> environment" where
  "set_required_host_env e =
     set_var ''MODEL_PATH'' ''/models/test.gguf''
       (set_var ''WOL_MAC_ADDRESS'' ''AA:BB:CC:DD:EE:FF''
         (set_var ''SSH_USER'' ''test-user'' (set_var ''SSH_HOST'' ''test-host'' e)))"

definition remove_required_host_env :: "environment \<Rightarrow> environment" where
  "remove_required_host_env e =
     remove_var ''MODEL_PATH'' (remove_var ''WOL_MAC_ADDRESS''
       (remove_var ''SSH_USER'' (remove_var ''SSH_HOST'' e)))"

text \<open>\<open>AppConfig::from_env()\<close> and the assertions on its result; a panic fails the test.\<close>

definition config_such_that :: "(app_config \<Rightarrow> bool) \<Rightarrow> environment \<Rightarrow> bool" where
  "config_such_that P e = (case from_env e of Inl panic \<Rightarrow> False | Inr config \<Rightarrow> P config)"

definition default_warm_execution_limits_are_positive :: env_test where
  "default_warm_execution_limits_are_positive e =
     (let e = set_required_host_env e;
          e = remove_var ''WARM_MAX_ACTIVE_REQUESTS'' e;
          e = remove_var ''WARM_MAX_QUEUED_REQUESTS'' e
      in (config_such_that (\<lambda>config. max_active_requests (ac_warm_execution config) > 0
            \<and> max_queued_requests (ac_warm_execution config) > 0) e,
          remove_required_host_env e))"

definition queue_limit_allows_zero_while_active_limit_stays_positive :: env_test where
  "queue_limit_allows_zero_while_active_limit_stays_positive e =
     (let e = set_required_host_env e;
          e = set_var ''WARM_MAX_ACTIVE_REQUESTS'' ''0'' e;
          e = set_var ''WARM_MAX_QUEUED_REQUESTS'' ''0'' e
      in (config_such_that (\<lambda>config. max_active_requests (ac_warm_execution config) = 2
            \<and> max_queued_requests (ac_warm_execution config) = 0) e,
          remove_required_host_env (remove_var ''WARM_MAX_QUEUED_REQUESTS''
            (remove_var ''WARM_MAX_ACTIVE_REQUESTS'' e))))"

definition embeddings_backend_is_none_when_model_path_unset :: env_test where
  "embeddings_backend_is_none_when_model_path_unset e =
     (let e = set_required_host_env e;
          e = remove_var ''EMBEDDINGS_MODEL_PATH'' e
      in (config_such_that (\<lambda>config. ec_backend (ac_embeddings config) = None) e,
          remove_required_host_env e))"

definition embeddings_backend_uses_defaults_when_only_model_path_set :: env_test where
  "embeddings_backend_uses_defaults_when_only_model_path_set e =
     (let e = set_required_host_env e;
          e = set_var ''EMBEDDINGS_MODEL_PATH'' ''/models/embed.gguf'' e;
          e = remove_var ''EMBEDDINGS_MODEL_ALIAS'' e;
          e = remove_var ''EMBEDDINGS_MODEL_PROVIDER_ID'' e;
          e = remove_var ''EMBEDDINGS_MODEL_OWNED_BY'' e;
          e = remove_var ''EMBEDDINGS_TUNNEL_LOCAL_PORT'' e;
          e = remove_var ''EMBEDDINGS_LLAMA_SERVER_PORT'' e
      in (config_such_that (\<lambda>config. case ec_backend (ac_embeddings config) of
              None \<Rightarrow> False
            | Some backend \<Rightarrow> eb_model_path backend = ''/models/embed.gguf''
                \<and> eb_alias backend = mc_alias (ac_model config) @ ''-embeddings''
                \<and> eb_provider_id backend = mc_provider_id (ac_model config)
                \<and> eb_owned_by backend = mc_owned_by (ac_model config)
                \<and> eb_tunnel_local_port backend = 18081
                \<and> eb_remote_port backend = 8081) e,
          remove_required_host_env (remove_var ''EMBEDDINGS_MODEL_PATH'' e)))"

definition embeddings_backend_honors_overrides :: env_test where
  "embeddings_backend_honors_overrides e =
     (let e = set_required_host_env e;
          e = set_var ''EMBEDDINGS_MODEL_PATH'' ''/models/embed.gguf'' e;
          e = set_var ''EMBEDDINGS_MODEL_ALIAS'' ''embed-alias'' e;
          e = set_var ''EMBEDDINGS_MODEL_PROVIDER_ID'' ''custom-provider'' e;
          e = set_var ''EMBEDDINGS_MODEL_OWNED_BY'' ''custom-owner'' e;
          e = set_var ''EMBEDDINGS_TUNNEL_LOCAL_PORT'' ''28081'' e;
          e = set_var ''EMBEDDINGS_LLAMA_SERVER_PORT'' ''9090'' e
      in (config_such_that (\<lambda>config. case ec_backend (ac_embeddings config) of
              None \<Rightarrow> False
            | Some backend \<Rightarrow> eb_alias backend = ''embed-alias''
                \<and> eb_provider_id backend = ''custom-provider''
                \<and> eb_owned_by backend = ''custom-owner''
                \<and> eb_tunnel_local_port backend = 28081
                \<and> eb_remote_port backend = 9090) e,
          remove_required_host_env
            (fold remove_var [''EMBEDDINGS_MODEL_PATH'', ''EMBEDDINGS_MODEL_ALIAS'',
               ''EMBEDDINGS_MODEL_PROVIDER_ID'', ''EMBEDDINGS_MODEL_OWNED_BY'',
               ''EMBEDDINGS_TUNNEL_LOCAL_PORT'', ''EMBEDDINGS_LLAMA_SERVER_PORT''] e)))"

definition embeddings_backend_forces_enabled_even_if_explicitly_disabled :: env_test where
  "embeddings_backend_forces_enabled_even_if_explicitly_disabled e =
     (let e = set_required_host_env e;
          e = set_var ''EMBEDDINGS_MODEL_PATH'' ''/models/embed.gguf'' e;
          e = set_var ''EMBEDDINGS_ENABLED'' ''false'' e
      in (config_such_that (\<lambda>config. ec_enabled (ac_embeddings config)
            \<and> ec_backend (ac_embeddings config) \<noteq> None) e,
          remove_required_host_env (remove_var ''EMBEDDINGS_ENABLED''
            (remove_var ''EMBEDDINGS_MODEL_PATH'' e))))"

definition env_tests :: "env_test list" where
  "env_tests = [default_warm_execution_limits_are_positive,
     queue_limit_allows_zero_while_active_limit_stays_positive,
     embeddings_backend_is_none_when_model_path_unset,
     embeddings_backend_uses_defaults_when_only_model_path_set,
     embeddings_backend_honors_overrides,
     embeddings_backend_forces_enabled_even_if_explicitly_disabled]"

fun run_tests :: "env_test list \<Rightarrow> environment \<Rightarrow> bool" where
  "run_tests [] e = True"
| "run_tests (t # ts) e = (case t e of (passed, e') \<Rightarrow> passed \<and> run_tests ts e')"

text \<open>A variable is looked up, update by update.\<close>

lemma env_lookup:
  "set_var name value e x = (if x = name then Some value else e x)"
  "remove_var name e x = (if x = name then None else e x)"
  by (simp_all add: set_var_def remove_var_def)

lemmas env_steps = set_required_host_env_def env_lookup

lemma required_host:
  assumes "e ''SSH_HOST'' = Some ''test-host''" "e ''SSH_USER'' = Some ''test-user''"
    "e ''WOL_MAC_ADDRESS'' = Some ''AA:BB:CC:DD:EE:FF''" "e ''MODEL_PATH'' = Some ''/models/test.gguf''"
  shows "\<exists>host. read_host e = Inr host"
proof -
  have blank: "\<not> is_blank ''test-host''" "\<not> is_blank ''test-user''" "\<not> is_blank ''AA:BB:CC:DD:EE:FF''"
      "\<not> is_blank ''/models/test.gguf''" "parse_mac ''AA:BB:CC:DD:EE:FF'' \<noteq> None"
    by code_simp+
  with assms show ?thesis
    by (auto simp: read_host_def expect_var_def read_var_def)
qed

lemma config_such_that_iff:
  assumes "e ''SSH_HOST'' = Some ''test-host''" "e ''SSH_USER'' = Some ''test-user''"
    "e ''WOL_MAC_ADDRESS'' = Some ''AA:BB:CC:DD:EE:FF''" "e ''MODEL_PATH'' = Some ''/models/test.gguf''"
    "\<And>config. from_env e = Inr config \<Longrightarrow> P config"
  shows "config_such_that P e"
proof -
  from required_host [OF assms(1-4)] obtain host where "read_host e = Inr host" ..
  then obtain config where "from_env e = Inr config" by (auto simp: from_env_def Let_def)
  with assms(5) show ?thesis by (simp add: config_such_that_def)
qed

lemma test_values:
  "parse_usize ''0'' = Some 0" "parse_u16 ''28081'' = Some 28081" "parse_u16 ''9090'' = Some 9090"
  by (simp_all add: parse_usize_def parse_u16_def parse_unsigned_def max_u16_def max_u64_def digit_val_def)

lemma test_not_blank:
  "\<not> is_blank ''0''" "\<not> is_blank ''28081''" "\<not> is_blank ''9090''" "\<not> is_blank ''/models/embed.gguf''"
  "\<not> is_blank ''embed-alias''" "\<not> is_blank ''custom-provider''" "\<not> is_blank ''custom-owner''"
  by code_simp+

lemma from_env_fields:
  assumes "from_env e = Inr config"
  shows "ac_model config = read_model e"
    and "ac_embeddings config = \<lparr>ec_enabled = (read_embeddings_backend e (read_model e) \<noteq> None
           \<or> embeddings_enabled_flag e), ec_backend = read_embeddings_backend e (read_model e)\<rparr>"
    and "max_active_requests (ac_warm_execution config) = read_positive_usize e ''WARM_MAX_ACTIVE_REQUESTS'' 2"
    and "max_queued_requests (ac_warm_execution config)
           = read_nonnegative_usize e ''WARM_MAX_QUEUED_REQUESTS'' 16"
  using assms by (auto simp: from_env_def Let_def split: sum.splits)

lemmas reader_defs = read_positive_usize_def read_nonnegative_usize_def read_var_def
  read_embeddings_backend_def read_port_def read_string_def unwrap_or_def

lemmas env_test_defs = default_warm_execution_limits_are_positive_def
  queue_limit_allows_zero_while_active_limit_stays_positive_def
  embeddings_backend_is_none_when_model_path_unset_def
  embeddings_backend_uses_defaults_when_only_model_path_set_def
  embeddings_backend_honors_overrides_def
  embeddings_backend_forces_enabled_even_if_explicitly_disabled_def

lemma limits_positive_pass: "fst (default_warm_execution_limits_are_positive e)"
  unfolding default_warm_execution_limits_are_positive_def Let_def fst_conv
  by (rule config_such_that_iff)
    (simp_all add: env_steps from_env_fields reader_defs test_values test_not_blank)

lemma zero_queue_pass: "fst (queue_limit_allows_zero_while_active_limit_stays_positive e)"
  unfolding queue_limit_allows_zero_while_active_limit_stays_positive_def Let_def fst_conv
  by (rule config_such_that_iff)
    (simp_all add: env_steps from_env_fields reader_defs test_values test_not_blank)

lemma none_unset_pass: "fst (embeddings_backend_is_none_when_model_path_unset e)"
  unfolding embeddings_backend_is_none_when_model_path_unset_def Let_def fst_conv
  by (rule config_such_that_iff)
    (simp_all add: env_steps from_env_fields reader_defs test_values test_not_blank)

lemma default_backend:
  assumes "e ''EMBEDDINGS_MODEL_PATH'' = Some ''/models/embed.gguf''"
    and "e ''EMBEDDINGS_MODEL_ALIAS'' = None" "e ''EMBEDDINGS_MODEL_PROVIDER_ID'' = None"
      "e ''EMBEDDINGS_MODEL_OWNED_BY'' = None" "e ''EMBEDDINGS_TUNNEL_LOCAL_PORT'' = None"
      "e ''EMBEDDINGS_LLAMA_SERVER_PORT'' = None"
  shows "read_embeddings_backend e model = Some \<lparr>eb_alias = mc_alias model @ ''-embeddings'',
    eb_provider_id = mc_provider_id model, eb_owned_by = mc_owned_by model,
    eb_model_path = ''/models/embed.gguf'', eb_tunnel_local_port = 18081, eb_remote_port = 8081\<rparr>"
  by (simp add: reader_defs assms test_not_blank)

lemma backend_such_that:
  assumes "e ''SSH_HOST'' = Some ''test-host''" "e ''SSH_USER'' = Some ''test-user''"
    "e ''WOL_MAC_ADDRESS'' = Some ''AA:BB:CC:DD:EE:FF''" "e ''MODEL_PATH'' = Some ''/models/test.gguf''"
    and "\<And>model. read_embeddings_backend e model = Some (backend model)"
    and "\<And>config. ec_backend (ac_embeddings config) = Some (backend (ac_model config)) \<Longrightarrow> P config"
  shows "config_such_that P e"
  using assms(1-4) by (rule config_such_that_iff) (simp add: assms(5,6) from_env_fields(1,2))

lemma defaults_only_pass: "fst (embeddings_backend_uses_defaults_when_only_model_path_set e)"
  unfolding embeddings_backend_uses_defaults_when_only_model_path_set_def Let_def fst_conv
  by (rule backend_such_that [OF _ _ _ _ default_backend]) (simp_all add: env_steps)

lemma overridden_backend:
  assumes "e ''EMBEDDINGS_MODEL_PATH'' = Some ''/models/embed.gguf''"
    and "e ''EMBEDDINGS_MODEL_ALIAS'' = Some ''embed-alias''"
    and "e ''EMBEDDINGS_MODEL_PROVIDER_ID'' = Some ''custom-provider''"
    and "e ''EMBEDDINGS_MODEL_OWNED_BY'' = Some ''custom-owner''"
    and "e ''EMBEDDINGS_TUNNEL_LOCAL_PORT'' = Some ''28081''"
    and "e ''EMBEDDINGS_LLAMA_SERVER_PORT'' = Some ''9090''"
  shows "read_embeddings_backend e model = Some \<lparr>eb_alias = ''embed-alias'',
    eb_provider_id = ''custom-provider'', eb_owned_by = ''custom-owner'',
    eb_model_path = ''/models/embed.gguf'', eb_tunnel_local_port = 28081, eb_remote_port = 9090\<rparr>"
  by (simp add: reader_defs assms test_values test_not_blank)

lemma overrides_pass: "fst (embeddings_backend_honors_overrides e)"
  unfolding embeddings_backend_honors_overrides_def Let_def fst_conv
  by (rule backend_such_that [OF _ _ _ _ overridden_backend]) (simp_all add: env_steps)

lemma forces_enabled_pass: "fst (embeddings_backend_forces_enabled_even_if_explicitly_disabled e)"
  unfolding embeddings_backend_forces_enabled_even_if_explicitly_disabled_def Let_def fst_conv
  by (rule config_such_that_iff)
    (simp_all add: env_steps from_env_fields reader_defs test_values test_not_blank)

lemma env_tests_pass: "t \<in> set env_tests \<Longrightarrow> fst (t e)"
  using limits_positive_pass zero_queue_pass none_unset_pass defaults_only_pass overrides_pass
    forces_enabled_pass
  by (auto simp: env_tests_def)

lemma run_tests_pass: "set ts \<subseteq> set env_tests \<Longrightarrow> run_tests ts e"
proof (induction ts arbitrary: e)
  case Nil
  then show ?case by simp
next
  case (Cons t ts e)
  from Cons.prems env_tests_pass [of t e] Cons.IH [of "snd (t e)"] show ?case
    by (simp add: case_prod_beta)
qed

section \<open>Tests of functions\<close>

definition parse_mac_accepts_colon_format :: bool where
  "parse_mac_accepts_colon_format =
     (parse_mac ''AA:BB:CC:DD:EE:FF'' = Some [0xAA, 0xBB, 0xCC, 0xDD, 0xEE, 0xFF])"

definition parse_mac_rejects_short_input :: bool where
  "parse_mac_rejects_short_input = (parse_mac ''AA:BB:CC:DD:EE'' = None)"

definition parse_mac_rejects_invalid_hex :: bool where
  "parse_mac_rejects_invalid_hex = (parse_mac ''AA:BB:CC:DD:EE:GG'' = None)"

definition select_unit_picks_target_specific_unit :: bool where
  "select_unit_picks_target_specific_unit =
     (let chat_unit = \<lparr>ui_unit_name = ''llama-server'', ui_active_state = ''active'',
            ui_sub_state = ''running'', ui_description = ''chat''\<rparr>;
          embeddings_unit = \<lparr>ui_unit_name = ''llama-server-embeddings'', ui_active_state = ''inactive'',
            ui_sub_state = ''dead'', ui_description = ''embeddings''\<rparr>;
          st = \<lparr>sr_status = HsOk, sr_message = [], sr_llama_server = Some chat_unit,
            sr_inhibit_holder = None, sr_active_model = None,
            sr_llama_server_embeddings = Some embeddings_unit, sr_active_model_embeddings = None\<rparr>
      in map_option ui_unit_name (select_unit TChat st) = Some (ui_unit_name chat_unit)
       \<and> map_option ui_unit_name (select_unit TEmbeddings st) = Some (ui_unit_name embeddings_unit))"

definition map_unit_state_known_values :: bool where
  "map_unit_state_known_values =
     (map_unit_state (Some ''active'') = UsActive
      \<and> map_unit_state (Some ''inactive'') = UsInactive
      \<and> map_unit_state (Some ''activating'') = UsActivating
      \<and> map_unit_state (Some ''failed'') = UsFailed
      \<and> map_unit_state None = UsUnknown
      \<and> map_unit_state (Some ''garbage'') = UsUnknown)"

definition host_tests :: "bool list" where
  "host_tests = [parse_mac_accepts_colon_format, parse_mac_rejects_short_input,
     parse_mac_rejects_invalid_hex, select_unit_picks_target_specific_unit,
     map_unit_state_known_values]"

lemma host_tests_pass: "all_pass host_tests"
  by code_simp

end
