(* ===== verification/Scheduler_Tests.thy ===== *)
theory Scheduler_Tests
  imports Forward
begin

text \<open>
  The scheduler's steps as a function of an event, equivalent to the step relation of
  \<open>Scheduler\<close>; and on it the unit tests of \<open>src/src/scheduler.rs\<close> (module \<open>tests\<close>). A test's
  tasks run on one thread, so the test fixes the order of the events; its tasks are numbered
  in the order in which it starts them. At the end come the two tests of
  \<open>src/src/forward.rs\<close>.
\<close>

section \<open>The steps as a function\<close>

text \<open>A task runs on to its next suspension, its timer fires, its operation ends, it is dropped.\<close>

datatype sched_event = Advance nat | Expire nat | Finish nat | Abort nat

definition advance :: "warm_execution_config \<Rightarrow> nat \<Rightarrow> sched \<Rightarrow> sched option" where
  "advance cfg i s = (case sc_tasks s i of
       SIdle \<Rightarrow> Some (if 0 < sc_permits s
          then put i (SRunning cancellation_new) (s\<lparr>sc_permits := sc_permits s - 1\<rparr>)
          else put i SReserving s)
     | SReserving \<Rightarrow> Some (case ticket_reserve (max_queued_requests cfg) (sc_queued s) of
          Inl e \<Rightarrow> put i (SFinished (Err e)) s
        | Inr q \<Rightarrow> put i SAcquiring (s\<lparr>sc_queued := q\<rparr>))
     | SAcquiring \<Rightarrow> Some (if 0 < sc_permits s
          then put i SGranted (s\<lparr>sc_permits := sc_permits s - 1\<rparr>)
          else put i SWaiting (s\<lparr>sc_waiters := sc_waiters s @ [i]\<rparr>))
     | SGranted \<Rightarrow> Some (put i (SRunning cancellation_new) (drop_ticket s))
     | _ \<Rightarrow> None)"

definition abort :: "nat \<Rightarrow> sched \<Rightarrow> sched option" where
  "abort i s = (case sc_tasks s i of
       SWaiting \<Rightarrow> Some (put i (SDropped cancellation_new) (drop_ticket (leave_queue i s)))
     | SGranted \<Rightarrow> Some (release (put i (SDropped cancellation_new) (drop_ticket s)))
     | SRunning c \<Rightarrow> Some (release (put i (SDropped (cancel c)) s))
     | _ \<Rightarrow> None)"

definition sched_do :: "warm_execution_config \<Rightarrow> sched_event \<Rightarrow> sched \<Rightarrow> sched option" where
  "sched_do cfg ev s = (case ev of
       Advance i \<Rightarrow> advance cfg i s
     | Expire i \<Rightarrow> (case sc_tasks s i of
          SWaiting \<Rightarrow> Some (put i (SFinished (Err QueueTimeout)) (drop_ticket (leave_queue i s)))
        | _ \<Rightarrow> None)
     | Finish i \<Rightarrow> (case sc_tasks s i of
          SRunning c \<Rightarrow> Some (release (put i (SFinished (Ok ())) s))
        | _ \<Rightarrow> None)
     | Abort i \<Rightarrow> abort i s)"

lemmas sched_steps = sched_step.intros [simplified]

lemma advance_step: "advance cfg i s = Some s' \<Longrightarrow> sched_step cfg s s'"
  by (auto simp: advance_def intro: sched_steps split: sched_task.splits sum.splits if_splits)

lemma abort_step: "abort i s = Some s' \<Longrightarrow> sched_step cfg s s'"
  by (auto simp: abort_def intro: sched_step.intros split: sched_task.splits)

lemma sched_do_step: "sched_do cfg ev s = Some s' \<Longrightarrow> sched_step cfg s s'"
  by (cases ev)
    (auto simp: sched_do_def intro: advance_step abort_step sched_step.intros split: sched_task.splits)

lemma advances:
  "sc_tasks s i = SIdle \<Longrightarrow> 0 < sc_permits s \<Longrightarrow> sched_do cfg (Advance i) s
     = Some (put i (SRunning cancellation_new) (s\<lparr>sc_permits := sc_permits s - 1\<rparr>))"
  "sc_tasks s i = SIdle \<Longrightarrow> sc_permits s = 0 \<Longrightarrow> sched_do cfg (Advance i) s = Some (put i SReserving s)"
  "sc_tasks s i = SReserving \<Longrightarrow> ticket_reserve (max_queued_requests cfg) (sc_queued s) = Err e \<Longrightarrow>
     sched_do cfg (Advance i) s = Some (put i (SFinished (Err e)) s)"
  "sc_tasks s i = SReserving \<Longrightarrow> ticket_reserve (max_queued_requests cfg) (sc_queued s) = Ok q \<Longrightarrow>
     sched_do cfg (Advance i) s = Some (put i SAcquiring (s\<lparr>sc_queued := q\<rparr>))"
  "sc_tasks s i = SAcquiring \<Longrightarrow> 0 < sc_permits s \<Longrightarrow> sched_do cfg (Advance i) s
     = Some (put i SGranted (s\<lparr>sc_permits := sc_permits s - 1\<rparr>))"
  "sc_tasks s i = SAcquiring \<Longrightarrow> sc_permits s = 0 \<Longrightarrow> sched_do cfg (Advance i) s
     = Some (put i SWaiting (s\<lparr>sc_waiters := sc_waiters s @ [i]\<rparr>))"
  "sc_tasks s i = SGranted \<Longrightarrow> sched_do cfg (Advance i) s
     = Some (put i (SRunning cancellation_new) (drop_ticket s))"
  by (simp_all add: sched_do_def advance_def)

lemma sched_step_do:
  assumes "sched_step cfg s s'"
  shows "\<exists>ev. sched_do cfg ev s = Some s'"
  using assms
proof (cases rule: sched_step.cases)
  case (timeout i)
  then have "sched_do cfg (Expire i) s = Some s'" by (simp add: sched_do_def)
  then show ?thesis ..
next
  case (complete i c)
  then have "sched_do cfg (Finish i) s = Some s'" by (simp add: sched_do_def)
  then show ?thesis ..
next
  case (drop_waiting i)
  then have "sched_do cfg (Abort i) s = Some s'" by (simp add: sched_do_def abort_def)
  then show ?thesis ..
next
  case (drop_granted i)
  then have "sched_do cfg (Abort i) s = Some s'" by (simp add: sched_do_def abort_def)
  then show ?thesis ..
next
  case (drop_running i c)
  then have "sched_do cfg (Abort i) s = Some s'" by (simp add: sched_do_def abort_def)
  then show ?thesis ..
qed (metis (no_types, lifting) advances)+

fun sched_run :: "warm_execution_config \<Rightarrow> sched_event list \<Rightarrow> sched \<Rightarrow> sched option" where
  "sched_run cfg [] s = Some s"
| "sched_run cfg (ev # evs) s = (case sched_do cfg ev s of None \<Rightarrow> None | Some s' \<Rightarrow> sched_run cfg evs s')"

lemma sched_run_append:
  "sched_run cfg (evs @ evs') s = Option.bind (sched_run cfg evs s) (sched_run cfg evs')"
  by (induction evs arbitrary: s) (auto split: option.splits)

lemma sched_run_reachable:
  "sched_run cfg evs s = Some s' \<Longrightarrow> sched_reachable cfg s \<Longrightarrow> sched_reachable cfg s'"
  by (induction evs arbitrary: s) (auto dest: sched_do_step sched_reachable.step split: option.splits)

text \<open>
  The step relation of the scheduler and the executable driver of its unit tests describe the same
  machine: a state of the semaphores, the queue and the calls is reachable by steps (reserving,
  waiting, granting, timing out, finishing, dropping a call) exactly when some list of events leads the
  driver from the new scheduler to it. So the invariants that are proved of the relation hold wherever
  the tests can get, and the relation has no states that no sequence of calls produces.
\<close>

theorem sched_reachable_iff_run:
  "sched_reachable cfg s \<longleftrightarrow> (\<exists>evs. sched_run cfg evs (sched_new cfg) = Some s)"
proof
  assume "sched_reachable cfg s"
  then show "\<exists>evs. sched_run cfg evs (sched_new cfg) = Some s"
  proof (induction rule: sched_reachable.induct)
    case init
    then show ?case by (rule exI [of _ "[]"]) simp
  next
    case (step s s')
    then obtain evs ev where "sched_run cfg evs (sched_new cfg) = Some s" "sched_do cfg ev s = Some s'"
      using sched_step_do by blast
    then have "sched_run cfg (evs @ [ev]) (sched_new cfg) = Some s'" by (simp add: sched_run_append)
    then show ?case ..
  qed
next
  assume "\<exists>evs. sched_run cfg evs (sched_new cfg) = Some s"
  then show "sched_reachable cfg s" using sched_run_reachable sched_reachable.init by blast
qed

text \<open>The first poll of \<open>cancelled\<close>, which takes a caller to its next suspension.\<close>

definition cancelled_poll :: "cancellation \<Rightarrow> waiter" where
  "cancelled_poll c = (if is_cancelled c then WReturned else WAwaiting (cn_notifications c))"

lemma cancelled_poll_steps:
  assumes "cs_waiters s j = WNew"
  shows "cancel_step\<^sup>*\<^sup>* s (set_waiter j (cancelled_poll (cs_handle s)) s)"
proof -
  let ?n = "cn_notifications (cs_handle s)"
  let ?s = "set_waiter j (WCreated ?n) s"
  have "cancel_step ?s (set_waiter j (cancelled_poll (cs_handle s)) ?s)"
    using cancel_step.check_cancelled [of ?s j ?n] cancel_step.check_pending [of ?s j ?n]
    by (simp add: cancelled_poll_def)
  with cancel_step.create [OF assms] show ?thesis
    by (auto intro: converse_rtranclp_into_rtranclp)
qed

section \<open>Tests of the scheduler\<close>

definition sched_test_config :: warm_execution_config where
  "sched_test_config = \<lparr>max_active_requests = 1, max_queued_requests = 1, queue_timeout_ms = 25\<rparr>"

text \<open>The events, then the assertions on what has become of the tasks.\<close>

definition after_events ::
  "warm_execution_config \<Rightarrow> sched_event list \<Rightarrow> ((nat \<Rightarrow> sched_task) \<Rightarrow> bool) \<Rightarrow> bool" where
  "after_events cfg evs P = (case sched_run cfg evs (sched_new cfg) of
       None \<Rightarrow> False | Some s \<Rightarrow> P (sc_tasks s))"

definition queued_request_times_out_with_overload_error :: bool where
  "queued_request_times_out_with_overload_error =
     after_events sched_test_config
       ([Advance 0] @ replicate 3 (Advance 1) @ [Expire 1, Finish 0])
       (\<lambda>tasks. tasks 1 = SFinished (Err QueueTimeout) \<and> tasks 0 = SFinished (Ok ()))"

definition queue_limit_is_shared_across_request_types :: bool where
  "queue_limit_is_shared_across_request_types =
     after_events sched_test_config
       ([Advance 0] @ replicate 3 (Advance 1) @ replicate 2 (Advance 2)
         @ [Finish 0, Advance 1, Finish 1])
       (\<lambda>tasks. tasks 2 = SFinished (Err QueueFull) \<and> tasks 0 = SFinished (Ok ())
          \<and> tasks 1 = SFinished (Ok ()))"

definition aborting_queued_request_releases_queue_slot :: bool where
  "aborting_queued_request_releases_queue_slot =
     after_events sched_test_config
       ([Advance 0] @ replicate 3 (Advance 1) @ [Abort 1] @ replicate 3 (Advance 2)
         @ [Finish 0, Advance 2, Finish 2])
       (\<lambda>tasks. tasks 0 = SFinished (Ok ()) \<and> tasks 2 = SFinished (Ok ()))"

definition aborting_active_request_cancels_work_and_releases_permit :: bool where
  "aborting_active_request_cancels_work_and_releases_permit =
     after_events \<lparr>max_active_requests = 1, max_queued_requests = 0, queue_timeout_ms = 25\<rparr>
       [Advance 0, Abort 0, Advance 1, Finish 1]
       (\<lambda>tasks. (case tasks 0 of SDropped cancellation \<Rightarrow> cancelled_poll cancellation = WReturned
            | _ \<Rightarrow> False)
          \<and> tasks 1 = SFinished (Ok ()))"

definition scheduler_tests :: "bool list" where
  "scheduler_tests = [queued_request_times_out_with_overload_error,
     queue_limit_is_shared_across_request_types,
     aborting_queued_request_releases_queue_slot,
     aborting_active_request_cancels_work_and_releases_permit]"

lemma scheduler_tests_pass: "all_pass scheduler_tests"
  by code_simp

section \<open>Tests of the rewriting\<close>

text \<open>
  The JSON text of the tests, and the documented behaviour of \<open>serde_json\<close> they use: the text
  is parsed as the object it denotes (a map sorted by its keys), and the object with the alias is printed as a text that
  is parsed as that object and spells its strings.
\<close>

definition completion_text :: string where
  "completion_text = ''{'' @ quoted_model @ '':'' @ [CHR 0x22] @ ''llama-3-8b'' @ [CHR 0x22] @ '',''
     @ [CHR 0x22] @ ''choices'' @ [CHR 0x22] @ '':[]}''"

definition event_text :: string where
  "event_text = ''data: '' @ completion_text"

definition completion_value :: "string \<Rightarrow> json" where
  "completion_value model = JObject [(''choices'', JArray []), (''model'', JString model)]"

definition rewrites_completions ::
  "(string \<Rightarrow> (string, json) res) \<Rightarrow> (json \<Rightarrow> (string, string) res) \<Rightarrow> string \<Rightarrow> bool" where
  "rewrites_completions parse print alias =
     (parse completion_text = Ok (completion_value ''llama-3-8b'')
      \<and> (case print (completion_value alias) of Inl _ \<Rightarrow> False
           | Inr rewritten \<Rightarrow> parse rewritten = Ok (completion_value alias) \<and> contains_str rewritten alias))"

definition test_rewrite_model_alias_non_streaming ::
  "(string \<Rightarrow> (string, json) res) \<Rightarrow> (json \<Rightarrow> (string, string) res) \<Rightarrow> bool" where
  "test_rewrite_model_alias_non_streaming parse print =
     (let json_body = completion_text;
          rewritten = rewrite_model_alias parse print json_body ''my-custom-model''
      in case parse rewritten of
           Inl _ \<Rightarrow> False
         | Inr parsed \<Rightarrow> json_get parsed ''model'' = JString ''my-custom-model'')"

definition test_rewrite_model_alias_streaming ::
  "(string \<Rightarrow> (string, json) res) \<Rightarrow> (json \<Rightarrow> (string, string) res) \<Rightarrow> bool" where
  "test_rewrite_model_alias_streaming parse print =
     (let sse_chunk = event_text;
          rewritten = rewrite_model_alias parse print sse_chunk ''my-custom-model''
      in contains_str rewritten ''my-custom-model'')"

definition forward_tests ::
  "(string \<Rightarrow> (string, json) res) \<Rightarrow> (json \<Rightarrow> (string, string) res) \<Rightarrow> bool list" where
  "forward_tests parse print = [test_rewrite_model_alias_non_streaming parse print,
     test_rewrite_model_alias_streaming parse print]"

lemma completion_text_facts:
  "contains_str completion_text quoted_model" "contains_str event_text quoted_model"
  "split_char (CHR 0x0A) completion_text = [completion_text]"
  "split_char (CHR 0x0A) event_text = [event_text]"
  "strip_suffix_char completion_text (CHR 0x0D) = None"
  "strip_suffix_char event_text (CHR 0x0D) = None"
  "strip_prefix completion_text data_prefix = None"
  "strip_prefix event_text data_prefix = Some completion_text"
  by code_simp+

lemma rewrite_completion:
  assumes "rewrites_completions parse print alias"
  shows "\<exists>r. parse r = Ok (completion_value alias) \<and> contains_str r alias
    \<and> rewrite_model_alias parse print completion_text alias = r
    \<and> rewrite_model_alias parse print event_text alias = data_prefix @ r"
proof -
  from assms obtain r where r: "parse completion_text = Ok (completion_value ''llama-3-8b'')"
      "print (completion_value alias) = Ok r" "parse r = Ok (completion_value alias)" "contains_str r alias"
    by (auto simp: rewrites_completions_def split: sum.splits)
  then have json: "rewrite_json parse print alias completion_text = Some r"
    by (simp add: rewrite_json_def rewrite_value_def completion_value_def result_ok_def)
  with r show ?thesis
    by (simp add: rewrite_model_alias_def completion_text_facts rewrite_part_def rewrite_line_def)
qed

lemma forward_tests_pass:
  assumes "rewrites_completions parse print ''my-custom-model''"
  shows "all_pass (forward_tests parse print)"
proof -
  obtain r where r: "parse r = Ok (completion_value ''my-custom-model'')"
      "contains_str r ''my-custom-model''"
      "rewrite_model_alias parse print completion_text ''my-custom-model'' = r"
      "rewrite_model_alias parse print event_text ''my-custom-model'' = data_prefix @ r"
    using rewrite_completion [OF assms] by blast
  from r(2) have "contains_str (data_prefix @ r) ''my-custom-model''"
    unfolding contains_str_iff by (metis append.assoc)
  with r show ?thesis
    by (simp add: forward_tests_def test_rewrite_model_alias_non_streaming_def
        test_rewrite_model_alias_streaming_def json_get_def completion_value_def)
qed

end
