(* ===== verification/Orchestrate_Tests.thy ===== *)
theory Orchestrate_Tests
  imports Orchestrate Config_Tests Scheduler_Tests
begin

text \<open>
  The unit tests of the orchestrator (\<open>src/src/orchestrate.rs\<close>, module \<open>tests\<close>), run on the
  model, with the constructors of \<open>src/src/state.rs\<close> that exist for tests only. The lifecycle
  is a double that gives fixed decisions, the backend is a double of the HTTP client's answers,
  and the verdict on the request is the one of the scheduler's own step function. A test that
  does not reach the backend passes whatever the client is.
\<close>

section \<open>States for tests\<close>

definition with_dual_lifecycles ::
  "app_config \<Rightarrow> ('m, 'e) lifecycle_ops \<Rightarrow> ('m, 'e) lifecycle_ops \<Rightarrow> 'm \<Rightarrow> 'e world
   \<Rightarrow> ('m, 'e) app_state option" where
  "with_dual_lifecycles config chat embeddings m w =
     (case semaphore_new (max_active_requests (ac_warm_execution config)) of None \<Rightarrow> None
      | Some _ \<Rightarrow>
     (case semaphore_new (ac_cold_start_max_waiting config) of None \<Rightarrow> None
      | Some _ \<Rightarrow> Some \<lparr>as_config = config, as_chat_lifecycle = chat, as_embeddings_lifecycle = embeddings,
          as_managers = m, as_metrics = metrics_default,
          as_prev_chat_tunnel_was_ready = False, as_prev_embeddings_tunnel_was_ready = False,
          as_cold_used = 0, as_world = w\<rparr>))"

text \<open>\<open>with_services\<close> gets the scheduler too, which here is in the context of a request.\<close>

definition state_with_services ::
  "app_config \<Rightarrow> ('m, 'e) lifecycle_ops \<Rightarrow> 'm \<Rightarrow> 'e world \<Rightarrow> ('m, 'e) app_state option" where
  "state_with_services config lifecycle m w =
     (case semaphore_new (ac_cold_start_max_waiting config) of None \<Rightarrow> None
      | Some _ \<Rightarrow> Some \<lparr>as_config = config, as_chat_lifecycle = lifecycle,
          as_embeddings_lifecycle = lifecycle, as_managers = m, as_metrics = metrics_default,
          as_prev_chat_tunnel_was_ready = False, as_prev_embeddings_tunnel_was_ready = False,
          as_cold_used = 0, as_world = w\<rparr>)"

definition with_lifecycle ::
  "app_config \<Rightarrow> ('m, 'e) lifecycle_ops \<Rightarrow> 'm \<Rightarrow> 'e world \<Rightarrow> ('m, 'e) app_state option" where
  "with_lifecycle config lifecycle m w =
     (case semaphore_new (max_active_requests (ac_warm_execution config)) of None \<Rightarrow> None
      | Some _ \<Rightarrow> state_with_services config lifecycle m w)"

section \<open>Doubles\<close>

definition static_lifecycle :: "lifecycle_decision \<Rightarrow> ('m, 'e) lifecycle_ops" where
  "static_lifecycle decision = \<lparr>
     lo_status = (\<lambda>_. decision_status decision),
     lo_ensure_backend = (\<lambda>_ (m, w). (decision, m, w)),
     lo_degrade_embeddings = (\<lambda>_ m. m),
     lo_mark_warming = (\<lambda>m. m)\<rparr>"

text \<open>The successive decisions, the last one repeated; the store is the index.\<close>

definition sequence_lifecycle :: "lifecycle_decision list \<Rightarrow> (nat, 'e) lifecycle_ops" where
  "sequence_lifecycle decisions = \<lparr>
     lo_status = (\<lambda>_. decision_status (last decisions)),
     lo_ensure_backend = (\<lambda>_ (i, w). (decisions ! min i (length decisions - 1), i + 1, w)),
     lo_degrade_embeddings = (\<lambda>_ m. m),
     lo_mark_warming = (\<lambda>m. m)\<rparr>"

definition test_config :: app_config where
  "test_config = \<lparr>ac_listen_port = 3000,
     ac_model = \<lparr>mc_alias = ''proxy-model'', mc_provider_id = ''llama.cpp'', mc_owned_by = ''test-suite''\<rparr>,
     ac_embeddings = \<lparr>ec_enabled = True, ec_backend = None\<rparr>,
     ac_warm_execution = warm_execution_default,
     ac_host = host_config_default,
     ac_cold_start_max_waiting = 32\<rparr>"

definition ready_status :: backend_status where
  "ready_status = backend_status_default\<lparr>bs_lifecycle := LsReady, bs_tunnel := TsReady\<rparr>"

definition on_port :: "u16 \<Rightarrow> app_config" where
  "on_port port = test_config\<lparr>ac_host := (ac_host test_config)\<lparr>hc_tunnel_local_port := port\<rparr>\<rparr>"

text \<open>The body of an answer as JSON: its value, or its text parsed.\<close>

definition json_body :: "'e libs \<Rightarrow> response \<Rightarrow> json option" where
  "json_body L r = (case rs_body r of JsonBody v \<Rightarrow> Some v
     | TextBody text \<Rightarrow> result_ok (json_parse L text)
     | StreamBody _ \<Rightarrow> None)"

text \<open>A server on the port, with one route; and a port on which nothing listens.\<close>

definition spawn_backend :: "u16 \<Rightarrow> string \<Rightarrow> upstream \<Rightarrow> 'e libs \<Rightarrow> 'e libs" where
  "spawn_backend port route answer L = L\<lparr>post_json := (\<lambda>url _. at_once
     (if url = upstream_url \<lparr>fc_port = port\<rparr> route then Ok answer
      else Ok \<lparr>up_status = 404, up_text = Some [], up_chunks = []\<rparr>))\<rparr>"

definition nothing_listens :: "'e libs \<Rightarrow> 'e libs" where
  "nothing_listens L = L\<lparr>post_json := (\<lambda>_ _. at_once
     (Err \<lparr>is_connect = True, is_timeout = False, err_status = None, err_text = ''connection refused''\<rparr>))\<rparr>"

text \<open>
  One call of \<open>execute\<close>: the request is task \<open>i\<close> of the scheduler, whose verdict after the
  events is \<open>None\<close> for a task that runs. The result is \<open>None\<close> if the call panics.
\<close>

definition admission ::
  "warm_execution_config \<Rightarrow> sched_event list \<Rightarrow> nat \<Rightarrow> warm_execution_error option option" where
  "admission cfg evs i = (case sched_run cfg evs (sched_new cfg) of None \<Rightarrow> None
     | Some s \<Rightarrow> (case sc_tasks s i of
          SRunning _ \<Rightarrow> Some None
        | SFinished (Inl e) \<Rightarrow> Some (Some e)
        | _ \<Rightarrow> None))"

definition orchestrated ::
  "'e libs \<Rightarrow> sched_event list \<Rightarrow> nat \<Rightarrow> lifecycle_request \<Rightarrow> bytes \<Rightarrow> ('m, 'e) app_state
   \<Rightarrow> (response \<times> ('m, 'e) app_state) option" where
  "orchestrated L evs i kind body st =
     (case admission (ac_warm_execution (as_config st)) evs i of None \<Rightarrow> None
      | Some admitted \<Rightarrow>
          (case execute L \<lparr>rc_admit = at_once admitted, rc_meanwhile = (\<lambda>m. m)\<rparr> kind body False st of
             (None, _) \<Rightarrow> None
           | (Some response, st') \<Rightarrow> Some (response, st')))"

definition chat_body :: bytes where
  "chat_body = ''{'' @ quoted_model @ '':'' @ [CHR 0x22] @ ''proxy-model'' @ [CHR 0x22] @ '','' @ [CHR 0x22]
     @ ''messages'' @ [CHR 0x22] @ '':[]}''"

definition embeddings_body :: bytes where
  "embeddings_body = ''{'' @ quoted_model @ '':'' @ [CHR 0x22] @ ''proxy-model'' @ [CHR 0x22] @ '','' @ [CHR 0x22]
     @ ''input'' @ [CHR 0x22] @ '':'' @ [CHR 0x22] @ ''hi'' @ [CHR 0x22] @ ''}''"

definition error_is :: "'e libs \<Rightarrow> response \<Rightarrow> string \<Rightarrow> bool" where
  "error_is L response code = unwrapped (json_body L response)
     (\<lambda>json. json_get (json_get json ''error'') ''type'' = JString code)"

definition message_is :: "'e libs \<Rightarrow> response \<Rightarrow> string \<Rightarrow> bool" where
  "message_is L response message = unwrapped (json_body L response)
     (\<lambda>json. json_get (json_get json ''error'') ''message'' = JString message)"

section \<open>Tests\<close>

definition warming_decision_returns_warming_up_with_retry_after :: "'e libs \<Rightarrow> 'e world \<Rightarrow> bool" where
  "warming_decision_returns_warming_up_with_retry_after L w =
     (let backend = backend_status_default\<lparr>bs_lifecycle := LsWarming\<rparr> in
      unwrapped (with_lifecycle test_config (static_lifecycle (DWarming backend 7)) () w) (\<lambda>state.
      unwrapped (orchestrated L [Advance 0] 0 Chat [] state) (\<lambda>(response, state).
        rs_status response = 503
        \<and> rs_retry_after response = Some ''7''
        \<and> error_is L response ''warming_up''
        \<and> cold_starts (snapshot (as_metrics state)) = 1
        \<and> wake_attempts (snapshot (as_metrics state)) = 1)))"

definition failed_decision_returns_backend_error :: "'e libs \<Rightarrow> 'e world \<Rightarrow> bool" where
  "failed_decision_returns_backend_error L w =
     (let backend = backend_status_default\<lparr>bs_lifecycle := LsError\<rparr> in
      unwrapped (with_lifecycle test_config
        (static_lifecycle (DFailed backend (LifecycleError ''helper command failed''))) () w) (\<lambda>state.
      unwrapped (orchestrated L [Advance 0] 0 Embeddings [] state) (\<lambda>(response, state).
        rs_status response = 503
        \<and> rs_retry_after response = None
        \<and> error_is L response ''backend_error''
        \<and> message_is L response ''helper command failed''
        \<and> wake_failures (snapshot (as_metrics state)) = 1)))"

definition cold_start_semaphore_exhaustion_returns_warming_up :: "'e libs \<Rightarrow> 'e world \<Rightarrow> bool" where
  "cold_start_semaphore_exhaustion_returns_warming_up L w =
     (let config = test_config\<lparr>ac_cold_start_max_waiting := 1\<rparr> in
      unwrapped (with_lifecycle config (static_lifecycle (DReady backend_status_default)) () w) (\<lambda>state.
      unwrapped (cold_acquire (ac_cold_start_max_waiting (as_config state)) (as_cold_used state)) (\<lambda>used.
      unwrapped (orchestrated L [Advance 0] 0 Chat [] (state\<lparr>as_cold_used := used\<rparr>)) (\<lambda>(response, _).
        rs_status response = 503
        \<and> rs_retry_after response = Some ''10''
        \<and> error_is L response ''warming_up''
        \<and> message_is L response ''cold-start queue is full, retry later''))))"

definition embeddings_degraded_capability_returns_bad_request_without_forwarding ::
  "'e libs \<Rightarrow> 'e world \<Rightarrow> bool" where
  "embeddings_degraded_capability_returns_bad_request_without_forwarding L w =
     (let backend = ready_status\<lparr>bs_embeddings := CsDegraded, bs_embeddings_reason := Some ''remote disabled''\<rparr> in
      unwrapped (with_lifecycle test_config (static_lifecycle (DReady backend)) () w) (\<lambda>state.
      unwrapped (orchestrated L [Advance 0] 0 Embeddings [] state) (\<lambda>(response, _).
        rs_status response = 400
        \<and> error_is L response ''unsupported_embeddings''
        \<and> message_is L response ''remote disabled'')))"

definition ready_decision_forwards_and_rewrites_model_alias :: "u16 \<Rightarrow> 'e libs \<Rightarrow> 'e world \<Rightarrow> bool" where
  "ready_decision_forwards_and_rewrites_model_alias port L w =
     (let L = spawn_backend port ''/v1/chat/completions''
            \<lparr>up_status = 200, up_text = Some completion_text, up_chunks = [Ok completion_text]\<rparr> L in
      unwrapped (with_lifecycle (on_port port) (static_lifecycle (DReady ready_status)) () w) (\<lambda>state.
      unwrapped (orchestrated L [Advance 0] 0 Chat chat_body state) (\<lambda>(response, state).
        rs_status response = 200
        \<and> unwrapped (json_body L response) (\<lambda>json. json_get json ''model'' = JString ''proxy-model'')
        \<and> warm_requests (snapshot (as_metrics state)) = 1)))"

definition ready_decision_embeddings_404_triggers_degradation_response ::
  "u16 \<Rightarrow> 'e libs \<Rightarrow> 'e world \<Rightarrow> bool" where
  "ready_decision_embeddings_404_triggers_degradation_response port L w =
     (let L = spawn_backend port ''/v1/embeddings'' \<lparr>up_status = 404, up_text = Some [], up_chunks = []\<rparr> L in
      unwrapped (with_lifecycle (on_port port) (static_lifecycle (DReady ready_status)) () w) (\<lambda>state.
      unwrapped (orchestrated L [Advance 0] 0 Embeddings embeddings_body state) (\<lambda>(response, state).
        rs_status response = 400
        \<and> error_is L response ''unsupported_embeddings''
        \<and> embeddings_degraded (snapshot (as_metrics state)) = 1)))"

definition ready_decision_forward_error_increments_forwarding_errors ::
  "u16 \<Rightarrow> 'e libs \<Rightarrow> 'e world \<Rightarrow> bool" where
  "ready_decision_forward_error_increments_forwarding_errors port L w =
     (let L = spawn_backend port ''/v1/chat/completions''
            \<lparr>up_status = 500, up_text = Some ''boom'', up_chunks = [Ok ''boom'']\<rparr> L in
      unwrapped (with_lifecycle (on_port port) (static_lifecycle (DReady ready_status)) () w) (\<lambda>state.
      unwrapped (orchestrated L [Advance 0] 0 Chat chat_body state) (\<lambda>(response, state).
        rs_status response = 503
        \<and> error_is L response ''upstream_error''
        \<and> forwarding_errors (snapshot (as_metrics state)) = 1)))"

definition ready_decision_unreachable_backend_retries_and_returns_backend_unavailable ::
  "'e libs \<Rightarrow> 'e world \<Rightarrow> bool" where
  "ready_decision_unreachable_backend_retries_and_returns_backend_unavailable L w =
     (let L = nothing_listens L in
      unwrapped (with_lifecycle (on_port 1) (static_lifecycle (DReady ready_status)) () w) (\<lambda>state.
      unwrapped (orchestrated L [Advance 0] 0 Chat chat_body state) (\<lambda>(response, state).
        rs_status response = 503
        \<and> error_is L response ''backend_unavailable''
        \<and> cold_starts (snapshot (as_metrics state)) = 1
        \<and> wake_attempts (snapshot (as_metrics state)) = 1)))"

definition ready_decision_retry_reports_warming :: "'e libs \<Rightarrow> 'e world \<Rightarrow> bool" where
  "ready_decision_retry_reports_warming L w =
     (let L = nothing_listens L in
      unwrapped (with_lifecycle (on_port 1)
        (sequence_lifecycle [DReady ready_status, DWarming ready_status 5]) 0 w) (\<lambda>state.
      unwrapped (orchestrated L [Advance 0] 0 Chat chat_body state) (\<lambda>(response, _).
        rs_status response = 503
        \<and> rs_retry_after response = Some ''5''
        \<and> error_is L response ''warming_up'')))"

definition ready_decision_retry_reports_failed :: "'e libs \<Rightarrow> 'e world \<Rightarrow> bool" where
  "ready_decision_retry_reports_failed L w =
     (let L = nothing_listens L in
      unwrapped (with_lifecycle (on_port 1) (sequence_lifecycle [DReady ready_status,
          DFailed ready_status (LifecycleError ''ssh unreachable'')]) 0 w) (\<lambda>state.
      unwrapped (orchestrated L [Advance 0] 0 Chat chat_body state) (\<lambda>(response, _).
        rs_status response = 503
        \<and> error_is L response ''backend_error''
        \<and> message_is L response ''ssh unreachable'')))"

definition tunnel_drop_increments_metric :: "'e libs \<Rightarrow> 'e world \<Rightarrow> bool" where
  "tunnel_drop_increments_metric L w =
     (let L = nothing_listens L; dropped = ready_status\<lparr>bs_tunnel := TsDown\<rparr> in
      unwrapped (with_lifecycle (on_port 1) (sequence_lifecycle [DReady ready_status, DReady dropped]) 0 w) (\<lambda>state.
      unwrapped (orchestrated L [Advance 0] 0 Chat [] state) (\<lambda>(_, state).
        tunnel_drops (snapshot (as_metrics state)) = 0
        \<and> unwrapped (orchestrated L [Advance 0, Finish 0, Advance 1] 1 Chat [] state) (\<lambda>(_, state).
            tunnel_drops (snapshot (as_metrics state)) = 1))))"

definition warm_queue_full_returns_overloaded_429 :: "'e libs \<Rightarrow> 'e world \<Rightarrow> bool" where
  "warm_queue_full_returns_overloaded_429 L w =
     (let config = test_config\<lparr>ac_warm_execution :=
            \<lparr>max_active_requests = 1, max_queued_requests = 0, queue_timeout_ms = 20\<rparr>\<rparr> in
      unwrapped (state_with_services config (static_lifecycle (DReady ready_status)) () w) (\<lambda>state.
      unwrapped (orchestrated L [Advance 0, Advance 1, Advance 1] 1 Chat [] state) (\<lambda>(response, state).
        rs_status response = 429
        \<and> error_is L response ''overloaded''
        \<and> queue_full_rejections (snapshot (as_metrics state)) = 1)))"

definition warm_queue_timeout_returns_overloaded_429 :: "'e libs \<Rightarrow> 'e world \<Rightarrow> bool" where
  "warm_queue_timeout_returns_overloaded_429 L w =
     (let config = test_config\<lparr>ac_warm_execution :=
            \<lparr>max_active_requests = 1, max_queued_requests = 1, queue_timeout_ms = 20\<rparr>\<rparr> in
      unwrapped (state_with_services config (static_lifecycle (DReady ready_status)) () w) (\<lambda>state.
      unwrapped (orchestrated L [Advance 0, Advance 1, Advance 1, Advance 1, Expire 1] 1 Chat [] state)
        (\<lambda>(response, state).
        rs_status response = 429
        \<and> error_is L response ''overloaded''
        \<and> queue_timeouts (snapshot (as_metrics state)) = 1)))"

definition orchestrate_tests :: "u16 \<Rightarrow> 'e libs \<Rightarrow> 'e world \<Rightarrow> bool list" where
  "orchestrate_tests port L w =
     [warming_decision_returns_warming_up_with_retry_after L w,
      failed_decision_returns_backend_error L w,
      cold_start_semaphore_exhaustion_returns_warming_up L w,
      embeddings_degraded_capability_returns_bad_request_without_forwarding L w,
      ready_decision_forwards_and_rewrites_model_alias port L w,
      ready_decision_embeddings_404_triggers_degradation_response port L w,
      ready_decision_forward_error_increments_forwarding_errors port L w,
      ready_decision_unreachable_backend_retries_and_returns_backend_unavailable L w,
      ready_decision_retry_reports_warming L w,
      ready_decision_retry_reports_failed L w,
      tunnel_drop_increments_metric L w,
      warm_queue_full_returns_overloaded_429 L w,
      warm_queue_timeout_returns_overloaded_429 L w]"

section \<open>They pass\<close>

text \<open>
  The documented behaviour of the libraries that the tests use: a header value of digits is
  accepted, and the JSON of one completion is read and written.
\<close>

definition documented_libs :: "'e libs \<Rightarrow> bool" where
  "documented_libs L = ((\<forall>v\<in>set [''5'', ''7'', ''10'']. header_value L v = Some v)
     \<and> rewrites_completions (json_parse L) (json_print L) ''proxy-model'')"

lemma admissions [unfolded One_nat_def]:
  "admission \<lparr>max_active_requests = 2, max_queued_requests = q, queue_timeout_ms = t\<rparr> [Advance 0] 0 = Some None"
  "admission \<lparr>max_active_requests = 2, max_queued_requests = q, queue_timeout_ms = t\<rparr>
     [Advance 0, Finish 0, Advance 1] 1 = Some None"
  "admission \<lparr>max_active_requests = 1, max_queued_requests = 0, queue_timeout_ms = t\<rparr>
     [Advance 0, Advance 1, Advance 1] 1 = Some (Some QueueFull)"
  "admission \<lparr>max_active_requests = 1, max_queued_requests = 1, queue_timeout_ms = t\<rparr>
     [Advance 0, Advance 1, Advance 1, Advance 1, Expire 1] 1 = Some (Some QueueTimeout)"
  by (simp_all add: admission_def sched_new_def sched_do_def advance_def release_def ticket_reserve_def)

lemmas state_defs = with_lifecycle_def state_with_services_def semaphore_new_def test_config_def
  warm_execution_default_def on_port_def ready_status_def backend_status_default_def
  static_lifecycle_def sequence_lifecycle_def spawn_backend_def nothing_listens_def

lemmas execute_defs = execute_def execute_admitted_def acquire_cold_permit_def is_cold_def
  lifecycle_for_def cold_acquire_def cold_release_def ask_backend_def handle_ready_def
  check_tunnel_drop_def forward_via_scheduler_def run_forward_def retry_unreachable_def
  embedding_degradation_response_def warming_response_def failed_response_def
  warm_execution_error_response_def request_path_def model_alias_for_def tunnel_port_for_def
  update_metrics_def snapshot_def inc_defs metrics_default_def forward_def
  forward_non_streaming_def send_or_cancel_def from_reqwest_def to_openai_def is_success_def
  openai_error_def warm_message_def

lemmas answer_defs = json_body_def error_is_def message_is_def error_json_def json_get_def unwrap_or_def

lemma test_numbers: "show_nat 7 = ''7''" "show_nat 5 = ''5''" "show_nat 10 = ''10''"
  by code_simp+

lemmas test_defs = documented_libs_def admissions state_defs execute_defs answer_defs test_numbers Let_def

lemma refusals_pass:
  assumes "documented_libs L"
  shows "warming_decision_returns_warming_up_with_retry_after L w"
    "failed_decision_returns_backend_error L w"
    "cold_start_semaphore_exhaustion_returns_warming_up L w"
    "embeddings_degraded_capability_returns_bad_request_without_forwarding L w"
  using assms
  by (simp_all add: warming_decision_returns_warming_up_with_retry_after_def
      failed_decision_returns_backend_error_def
      cold_start_semaphore_exhaustion_returns_warming_up_def
      embeddings_degraded_capability_returns_bad_request_without_forwarding_def orchestrated_def test_defs)

lemma upstream_errors_pass:
  assumes "documented_libs L"
  shows "ready_decision_embeddings_404_triggers_degradation_response port L w"
    "ready_decision_forward_error_increments_forwarding_errors port L w"
    "ready_decision_unreachable_backend_retries_and_returns_backend_unavailable L w"
  using assms
  by (simp_all add: ready_decision_embeddings_404_triggers_degradation_response_def
      ready_decision_forward_error_increments_forwarding_errors_def
      ready_decision_unreachable_backend_retries_and_returns_backend_unavailable_def orchestrated_def test_defs)

lemma retries_pass:
  assumes "documented_libs L"
  shows "ready_decision_retry_reports_warming L w"
    "ready_decision_retry_reports_failed L w"
    "tunnel_drop_increments_metric L w"
  using assms
  by (simp_all add: ready_decision_retry_reports_warming_def
      ready_decision_retry_reports_failed_def
      tunnel_drop_increments_metric_def orchestrated_def test_defs)

lemma overload_pass:
  assumes "documented_libs L"
  shows "warm_queue_full_returns_overloaded_429 L w"
    "warm_queue_timeout_returns_overloaded_429 L w"
  using assms
  by (simp_all add: warm_queue_full_returns_overloaded_429_def
      warm_queue_timeout_returns_overloaded_429_def orchestrated_def test_defs)

lemma forwards_and_rewrites: "documented_libs L \<Longrightarrow> ready_decision_forwards_and_rewrites_model_alias port L w"
proof -
  assume "documented_libs L"
  then obtain r where "json_parse L r = Ok (completion_value ''proxy-model'')"
      "rewrite_model_alias (json_parse L) (json_print L) completion_text ''proxy-model'' = r"
    using rewrite_completion [of "json_parse L" "json_print L" "''proxy-model''"]
    by (auto simp: documented_libs_def)
  then show ?thesis
    by (simp add: ready_decision_forwards_and_rewrites_model_alias_def orchestrated_def test_defs completion_value_def result_ok_def)
qed

lemma orchestrate_tests_pass: "documented_libs L \<Longrightarrow> all_pass (orchestrate_tests port L w)"
  by (simp add: orchestrate_tests_def refusals_pass upstream_errors_pass retries_pass overload_pass
      forwards_and_rewrites)

end
