(* ===== verification/App_Tests.thy ===== *)
theory App_Tests
  imports App Orchestrate_Tests
begin

text \<open>
  The unit tests of the HTTP surface (\<open>src/src/app.rs\<close>, module \<open>tests\<close>), run on the model: each
  sends requests through the router of a state made for the test. What the tests rely on of
  the libraries is \<open>documented_readers\<close> (what the deserialisers derived by \<open>serde\<close> make of the
  bodies of the tests) and \<open>documented_libs\<close>.
\<close>

section \<open>The bench\<close>

text \<open>The libraries and the surroundings, the same for all tests.\<close>

record 'e bench =
  be_libs :: "'e libs"
  be_readers :: readers
  be_fallback :: "routed \<Rightarrow> response"
  be_time :: "'e world \<Rightarrow> timestamp"
  be_timing :: lifecycle_timing
  be_around :: "'e surroundings"
  be_world :: "'e world"

definition dual_mode_config :: app_config where
  "dual_mode_config = test_config\<lparr>ac_embeddings := \<lparr>ec_enabled = True,
     ec_backend = Some \<lparr>eb_alias = ''embed-model'', eb_provider_id = ''llama.cpp'',
       eb_owned_by = ''test-suite'', eb_model_path = ''/models/embed.gguf'',
       eb_tunnel_local_port = 18081, eb_remote_port = 8081\<rparr>\<rparr>\<rparr>"

definition test_state :: "'e bench \<Rightarrow> (managers, 'e) app_state option" where
  "test_state B = app_state_new (be_time B) (be_timing B) (be_around B) test_config (be_world B)"

definition state_with_lifecycle :: "'e bench \<Rightarrow> lifecycle_decision \<Rightarrow> (unit, 'e) app_state option" where
  "state_with_lifecycle B decision = with_lifecycle test_config (static_lifecycle decision) () (be_world B)"

definition dual_mode_state ::
  "'e bench \<Rightarrow> lifecycle_decision \<Rightarrow> lifecycle_decision \<Rightarrow> (unit, 'e) app_state option" where
  "dual_mode_state B chat emb = with_dual_lifecycles dual_mode_config
     (static_lifecycle chat) (static_lifecycle emb) () (be_world B)"

definition get_request :: "string \<Rightarrow> http_request" where
  "get_request path = \<lparr>rq_verb = ''GET'', rq_path = path, rq_headers = [], rq_body = Ok []\<rparr>"

definition post_request :: "string \<Rightarrow> (string \<times> bytes) list \<Rightarrow> bytes \<Rightarrow> http_request" where
  "post_request path headers body = \<lparr>rq_verb = ''POST'', rq_path = path, rq_headers = headers, rq_body = Ok body\<rparr>"

definition json_header :: "(string \<times> bytes) list" where
  "json_header = [(''content-type'', ''application/json'')]"

definition chat_post :: "bytes \<Rightarrow> http_request" where
  "chat_post body = post_request ''/v1/chat/completions'' json_header body"

definition embeddings_post :: "bytes \<Rightarrow> http_request" where
  "embeddings_post body = post_request ''/v1/embeddings'' json_header body"

text \<open>
  \<open>build_router(state).oneshot(request)\<close>, the request being task \<open>i\<close> of the scheduler after
  the events; \<open>None\<close> if a handler panics.
\<close>

definition oneshot_after ::
  "'e bench \<Rightarrow> sched_event list \<Rightarrow> nat \<Rightarrow> ('m, 'e) app_state \<Rightarrow> http_request
   \<Rightarrow> (response \<times> ('m, 'e) app_state) option" where
  "oneshot_after B evs i st rq =
     (case admission (ac_warm_execution (as_config st)) evs i of None \<Rightarrow> None
      | Some admitted \<Rightarrow>
          (case serve_http (be_libs B) (be_readers B) (be_fallback B)
                  \<lparr>rc_admit = at_once admitted, rc_meanwhile = (\<lambda>m. m)\<rparr> rq st of
             (None, _) \<Rightarrow> None
           | (Some response, st') \<Rightarrow> Some (response, st')))"

definition oneshot ::
  "'e bench \<Rightarrow> ('m, 'e) app_state \<Rightarrow> http_request \<Rightarrow> (response \<times> ('m, 'e) app_state) option" where
  "oneshot B st rq = oneshot_after B [Advance 0] 0 st rq"

text \<open>One request to a fresh state, and the assertions on its answer.\<close>

definition answers ::
  "'e bench \<Rightarrow> ('m, 'e) app_state option \<Rightarrow> http_request \<Rightarrow> (response \<Rightarrow> bool) \<Rightarrow> bool" where
  "answers B state rq P = unwrapped state (\<lambda>st. unwrapped (oneshot B st rq) (\<lambda>(response, _). P response))"

definition json_such_that :: "'e bench \<Rightarrow> response \<Rightarrow> (json \<Rightarrow> bool) \<Rightarrow> bool" where
  "json_such_that B response P = unwrapped (json_body (be_libs B) response) P"

definition rejected_with :: "'e bench \<Rightarrow> string \<Rightarrow> response \<Rightarrow> bool" where
  "rejected_with B message response = (rs_status response = 400 \<and> message_is (be_libs B) response message)"

section \<open>Bodies\<close>

definition chat_json :: "string \<Rightarrow> string \<Rightarrow> string \<Rightarrow> bytes" where
  "chat_json model messages members =
     ''{\"model\":\"'' @ model @ ''\",\"messages\":['' @ messages @ '']'' @ members @ ''}''"

definition user_hi :: string where
  "user_hi = ''{\"role\":\"user\",\"content\":\"hi\"}''"

definition hi_body :: bytes where
  "hi_body = chat_json ''proxy-model'' user_hi []"

definition tool_calling_body :: bytes where
  "tool_calling_body = chat_json ''proxy-model'' (user_hi
     @ '',{\"role\":\"assistant\",\"content\":null,\"tool_calls\":[{\"id\":\"call_1\",\"type\":\"function\",''
     @ ''\"function\":{\"name\":\"lookup\",\"arguments\":\"{}\"}}]}''
     @ '',{\"role\":\"tool\",\"tool_call_id\":\"call_1\",\"content\":\"{}\"}'')
     ('',\"tools\":[{\"type\":\"function\",\"function\":{\"name\":\"lookup\",\"description\":\"Lookup data\",''
     @ ''\"parameters\":{\"type\":\"object\"}}}],\"tool_choice\":\"auto\"'')"

definition null_content :: string where
  "null_content = ''{\"role\":\"assistant\",\"content\":null''"

definition embeddings_json :: "string \<Rightarrow> string \<Rightarrow> bytes" where
  "embeddings_json model input = ''{\"model\":\"'' @ model @ ''\",\"input\":'' @ input @ ''}''"

definition hello :: string where
  "hello = ''\"hello\"''"

text \<open>The values that the accepted bodies denote.\<close>

definition chat_value :: "string \<Rightarrow> chat_message list \<Rightarrow> chat_completion_request" where
  "chat_value model messages = \<lparr>cr_model = model, cr_stream = False, cr_messages = messages,
     cr_tools = None, cr_tool_choice = None\<rparr>"

definition message_value ::
  "string \<Rightarrow> json option \<Rightarrow> tool_call list option \<Rightarrow> string option \<Rightarrow> chat_message" where
  "message_value role content calls call_id = \<lparr>cm_role = role, cm_content = content,
     cm_tool_calls = calls, cm_tool_call_id = call_id\<rparr>"

definition hi_value :: chat_message where
  "hi_value = message_value ''user'' (Some (JString ''hi'')) None None"

definition tool_calling_value :: chat_completion_request where
  "tool_calling_value = \<lparr>cr_model = ''proxy-model'', cr_stream = False,
     cr_messages = [hi_value,
       message_value ''assistant'' None (Some [\<lparr>tl_id = ''call_1'', tl_kind = ToolKindFunction,
         tl_function = \<lparr>tlf_name = ''lookup'', tlf_arguments = ''{}''\<rparr>\<rparr>]) None,
       message_value ''tool'' (Some (JString ''{}'')) None (Some ''call_1'')],
     cr_tools = Some [\<lparr>ct_kind = ToolKindFunction, ct_function = \<lparr>tf_name = ''lookup'',
       tf_description = Some ''Lookup data'', tf_parameters = Some (JObject [(''type'', JString ''object'')])\<rparr>\<rparr>],
     cr_tool_choice = Some (ToolMode ModeAuto)\<rparr>"

text \<open>An error text of the deserialiser: it has this phrase and none of the others.\<close>

definition json_phrases :: "string list" where
  "json_phrases = [unknown_field_prefix, ''unknown variant'', ''missing field '' @ backquoted ''tool_call_id'',
     ''missing field '' @ backquoted ''content'', ''invalid type'',
     ''data did not match any variant of untagged enum'']"

definition complains_of :: "string \<Rightarrow> (string, 'a) res \<Rightarrow> bool" where
  "complains_of phrase r = (case r of Inr _ \<Rightarrow> False
     | Inl e \<Rightarrow> contains_str e phrase \<and> list_all (\<lambda>p. p = phrase \<or> \<not> contains_str e p) json_phrases)"

definition unknown_field :: "string \<Rightarrow> (string, 'a) res \<Rightarrow> bool" where
  "unknown_field field r = (case r of Inr _ \<Rightarrow> False
     | Inl e \<Rightarrow> starts_with e (unknown_field_prefix @ field @ [CHR 0x60]))"

text \<open>What the derived deserialisers do with these bodies.\<close>

definition documented_readers :: "readers \<Rightarrow> bool" where
  "documented_readers rd = (
     rd_chat rd (chat_json ''wrong'' user_hi []) = Ok (chat_value ''wrong'' [hi_value])
     \<and> rd_chat rd (chat_json ''proxy-model'' [] []) = Ok (chat_value ''proxy-model'' [])
     \<and> unknown_field ''temperature'' (rd_chat rd (chat_json ''proxy-model'' user_hi '',\"temperature\":0.2''))
     \<and> unknown_field ''name'' (rd_chat rd (chat_json ''proxy-model''
          ''{\"role\":\"user\",\"content\":\"hi\",\"name\":\"extra\"}'' []))
     \<and> rd_chat rd hi_body = Ok (chat_value ''proxy-model'' [hi_value])
     \<and> rd_chat rd (chat_json ''proxy-model'' (null_content @ ''}'') [])
         = Ok (chat_value ''proxy-model'' [message_value ''assistant'' None None None])
     \<and> rd_chat rd tool_calling_body = Ok tool_calling_value
     \<and> rd_chat rd (chat_json ''proxy-model'' ''{\"role\":\"tool\",\"content\":\"{}\"}'' [])
         = Ok (chat_value ''proxy-model'' [message_value ''tool'' (Some (JString ''{}'')) None None])
     \<and> complains_of ''invalid type''
         (rd_chat rd (chat_json ''proxy-model'' (null_content @ '',\"tool_calls\":\"bad\"}'') []))
     \<and> complains_of ''data did not match any variant of untagged enum''
         (rd_chat rd (chat_json ''proxy-model'' user_hi '',\"tool_choice\":123''))
     \<and> complains_of ''data did not match any variant of untagged enum''
         (rd_chat rd (chat_json ''proxy-model'' user_hi '',\"tool_choice\":\"banana\"''))
     \<and> complains_of ''unknown variant'' (rd_chat rd (chat_json ''proxy-model'' user_hi
         '',\"tools\":[{\"type\":\"custom\",\"function\":{\"name\":\"lookup\"}}]''))
     \<and> rd_chat rd (chat_json ''proxy-model'' (null_content @ '',\"tool_calls\":[]}'') [])
         = Ok (chat_value ''proxy-model'' [message_value ''assistant'' None (Some []) None])
     \<and> rd_chat rd (chat_json ''proxy-model'' ''{\"role\":\"user\",\"content\":\"hi\",\"tool_calls\":[]}'' [])
         = Ok (chat_value ''proxy-model'' [message_value ''user'' (Some (JString ''hi'')) (Some []) None])
     \<and> rd_chat rd (chat_json ''proxy-model''
            ''{\"role\":\"assistant\",\"content\":\"hi\",\"tool_call_id\":\"call_1\"}'' [])
         = Ok (chat_value ''proxy-model'' [message_value ''assistant'' (Some (JString ''hi'')) None (Some ''call_1'')])
     \<and> rd_embeddings rd (embeddings_json ''proxy-model'' ''null'') = Ok \<lparr>em_model = ''proxy-model'', em_input = JNull\<rparr>
     \<and> rd_embeddings rd (embeddings_json ''proxy-model'' hello)
         = Ok \<lparr>em_model = ''proxy-model'', em_input = JString ''hello''\<rparr>
     \<and> rd_embeddings rd (embeddings_json ''embed-model'' hello)
         = Ok \<lparr>em_model = ''embed-model'', em_input = JString ''hello''\<rparr>
     \<and> unknown_field ''encoding_format'' (rd_embeddings rd
         (embeddings_json ''proxy-model'' (hello @ '',\"encoding_format\":\"float\"''))))"

section \<open>Tests of the fixed pages\<close>

definition healthz_returns_ok :: "'e bench \<Rightarrow> bool" where
  "healthz_returns_ok B = answers B (test_state B) (get_request ''/healthz'') (\<lambda>response.
     rs_status response = 200
     \<and> rs_body response = JsonBody (JObject [(''status'', JString ''ok'')]))"

definition models_returns_configured_alias_without_waking_backend :: "'e bench \<Rightarrow> bool" where
  "models_returns_configured_alias_without_waking_backend B =
     unwrapped (test_state B) (\<lambda>st. unwrapped (oneshot B st (get_request ''/v1/models'')) (\<lambda>(response, st).
       rs_status response = 200
       \<and> bs_lifecycle (lo_status (as_chat_lifecycle st) (as_managers st)) = LsCold))"

definition status_exposes_backend_shape :: "'e bench \<Rightarrow> bool" where
  "status_exposes_backend_shape B = answers B (test_state B) (get_request ''/status'') (\<lambda>response.
     rs_status response = 200
     \<and> json_such_that B response (\<lambda>json.
         json_get (json_get json ''chat'') ''state'' = JString ''cold''
         \<and> json_get (json_get json ''chat'') ''model_alias'' = JString ''proxy-model''
         \<and> json_get (json_get json ''chat'') ''capability'' = JString ''ready''
         \<and> json_get (json_get json ''embeddings'') ''capability'' = JString ''ready''))"

definition status_serializes_timestamps_tunnel_and_units :: "'e bench \<Rightarrow> bool" where
  "status_serializes_timestamps_tunnel_and_units B =
     (let backend = \<lparr>bs_lifecycle = LsReady, bs_chat = CsDegraded, bs_embeddings = CsReady,
            bs_embeddings_reason = Some ''remote disabled'', bs_tunnel = TsReady,
            bs_last_wake_attempt_at = Some 1717156800, bs_lease_expires_at = Some 1717158600,
            bs_llama_server_unit = UsActive, bs_inhibit_unit = UsActivating\<rparr> in
      answers B (state_with_lifecycle B (DWarming backend 10)) (get_request ''/status'') (\<lambda>response.
        rs_status response = 200
        \<and> json_such_that B response (\<lambda>json.
            json_get (json_get json ''chat'') ''state'' = JString ''ready''
            \<and> json_get (json_get json ''chat'') ''capability'' = JString ''degraded''
            \<and> json_get (json_get json ''embeddings'') ''capability_reason'' = JString ''remote disabled''
            \<and> json_get (json_get json ''chat'') ''tunnel'' = JString ''ready''
            \<and> json_get (json_get (json_get json ''chat'') ''host_unit'') ''llama_server_unit'' = JString ''active''
            \<and> json_get (json_get (json_get json ''chat'') ''host_unit'') ''inhibit_unit'' = JString ''activating''
            \<and> json_get (json_get json ''chat'') ''last_wake_attempt_at'' = JNumber (PosInt 1717156800)
            \<and> json_get (json_get json ''chat'') ''lease_expires_at'' = JNumber (PosInt 1717158600))))"

definition status_reflects_orchestrator_snapshot :: "'e bench \<Rightarrow> bool" where
  "status_reflects_orchestrator_snapshot B =
     answers B (state_with_lifecycle B (DWarming
         (backend_status_default\<lparr>bs_lifecycle := LsWarming, bs_tunnel := TsConnecting\<rparr>) 10))
       (get_request ''/status'') (\<lambda>response.
         rs_status response = 200
         \<and> json_such_that B response (\<lambda>json.
             json_get (json_get json ''chat'') ''state'' = JString ''warming''
             \<and> json_get (json_get json ''chat'') ''tunnel'' = JString ''connecting''))"

definition status_embeddings_block_is_null_when_disabled :: "'e bench \<Rightarrow> bool" where
  "status_embeddings_block_is_null_when_disabled B =
     (let config = test_config\<lparr>ac_embeddings := \<lparr>ec_enabled = False, ec_backend = None\<rparr>\<rparr> in
      answers B (app_state_new (be_time B) (be_timing B) (be_around B) config (be_world B))
        (get_request ''/status'') (\<lambda>response.
          rs_status response = 200
          \<and> json_such_that B response (\<lambda>json. json_get json ''embeddings'' = JNull)))"

definition status_dual_mode_reports_independent_backends :: "'e bench \<Rightarrow> bool" where
  "status_dual_mode_reports_independent_backends B =
     (let embeddings_status = backend_status_default\<lparr>bs_lifecycle := LsWarming, bs_tunnel := TsConnecting\<rparr> in
      answers B (dual_mode_state B (DReady ready_status) (DWarming embeddings_status 10))
        (get_request ''/status'') (\<lambda>response.
          rs_status response = 200
          \<and> json_such_that B response (\<lambda>json.
              json_get (json_get json ''chat'') ''model_alias'' = JString ''proxy-model''
              \<and> json_get (json_get json ''chat'') ''state'' = JString ''ready''
              \<and> json_get (json_get json ''chat'') ''tunnel'' = JString ''ready''
              \<and> json_get (json_get json ''embeddings'') ''model_alias'' = JString ''embed-model''
              \<and> json_get (json_get json ''embeddings'') ''state'' = JString ''warming''
              \<and> json_get (json_get json ''embeddings'') ''tunnel'' = JString ''connecting'')))"

definition models_lists_two_entries_in_dual_mode :: "'e bench \<Rightarrow> bool" where
  "models_lists_two_entries_in_dual_mode B =
     answers B (dual_mode_state B (DReady backend_status_default) (DReady backend_status_default))
       (get_request ''/v1/models'') (\<lambda>response.
         rs_status response = 200
         \<and> json_such_that B response (\<lambda>json. unwrapped (json_as_array (json_get json ''data'')) (\<lambda>data.
             length data = 2
             \<and> json_get (data ! 0) ''id'' = JString ''proxy-model''
             \<and> json_get (data ! 1) ''id'' = JString ''embed-model''
             \<and> json_get (data ! 1) ''owned_by'' = JString ''test-suite''
             \<and> json_get (data ! 1) ''provider'' = JString ''llama.cpp'')))"

definition page_tests :: "'e bench \<Rightarrow> bool list" where
  "page_tests B = [healthz_returns_ok B, models_returns_configured_alias_without_waking_backend B,
     status_exposes_backend_shape B, status_serializes_timestamps_tunnel_and_units B,
     status_reflects_orchestrator_snapshot B, status_embeddings_block_is_null_when_disabled B,
     status_dual_mode_reports_independent_backends B, models_lists_two_entries_in_dual_mode B]"

section \<open>Tests of refused bodies\<close>

definition chat_unknown_model_returns_bad_request :: "'e bench \<Rightarrow> bool" where
  "chat_unknown_model_returns_bad_request B =
     answers B (test_state B) (chat_post (chat_json ''wrong'' user_hi []))
       (\<lambda>response. rs_status response = 400)"

definition chat_rejects_empty_messages :: "'e bench \<Rightarrow> bool" where
  "chat_rejects_empty_messages B =
     answers B (test_state B) (chat_post (chat_json ''proxy-model'' [] []))
       (\<lambda>response. rs_status response = 400)"

definition chat_rejects_unknown_top_level_field :: "'e bench \<Rightarrow> bool" where
  "chat_rejects_unknown_top_level_field B =
     answers B (test_state B) (chat_post (chat_json ''proxy-model'' user_hi '',\"temperature\":0.2''))
       (\<lambda>response. rs_status response = 400
          \<and> error_is (be_libs B) response ''invalid_request_error''
          \<and> message_is (be_libs B) response (''unsupported field '' @ quoted ''temperature''))"

definition chat_rejects_unknown_message_field :: "'e bench \<Rightarrow> bool" where
  "chat_rejects_unknown_message_field B =
     answers B (test_state B) (chat_post (chat_json ''proxy-model''
         ''{\"role\":\"user\",\"content\":\"hi\",\"name\":\"extra\"}'' []))
       (rejected_with B (''unsupported field '' @ quoted ''name''))"

definition chat_rejects_null_assistant_content_without_tool_calls :: "'e bench \<Rightarrow> bool" where
  "chat_rejects_null_assistant_content_without_tool_calls B =
     answers B (test_state B) (chat_post (chat_json ''proxy-model'' (null_content @ ''}'') []))
       (\<lambda>response. rs_status response = 400)"

definition chat_rejects_tool_message_without_tool_call_id :: "'e bench \<Rightarrow> bool" where
  "chat_rejects_tool_message_without_tool_call_id B =
     answers B (test_state B) (chat_post (chat_json ''proxy-model'' ''{\"role\":\"tool\",\"content\":\"{}\"}'' []))
       (rejected_with B ''tool messages must include tool_call_id'')"

definition chat_rejects_invalid_tool_calls_shape :: "'e bench \<Rightarrow> bool" where
  "chat_rejects_invalid_tool_calls_shape B =
     answers B (test_state B)
       (chat_post (chat_json ''proxy-model'' (null_content @ '',\"tool_calls\":\"bad\"}'') []))
       (rejected_with B ''request body contains an invalid field type'')"

definition chat_rejects_invalid_tool_choice_shape :: "'e bench \<Rightarrow> bool" where
  "chat_rejects_invalid_tool_choice_shape B =
     answers B (test_state B) (chat_post (chat_json ''proxy-model'' user_hi '',\"tool_choice\":123''))
       (rejected_with B ''request body contains invalid fields'')"

definition chat_rejects_invalid_tool_choice_value :: "'e bench \<Rightarrow> bool" where
  "chat_rejects_invalid_tool_choice_value B =
     answers B (test_state B) (chat_post (chat_json ''proxy-model'' user_hi '',\"tool_choice\":\"banana\"''))
       (rejected_with B ''request body contains invalid fields'')"

definition chat_rejects_invalid_tool_type :: "'e bench \<Rightarrow> bool" where
  "chat_rejects_invalid_tool_type B =
     answers B (test_state B) (chat_post (chat_json ''proxy-model'' user_hi
         '',\"tools\":[{\"type\":\"custom\",\"function\":{\"name\":\"lookup\"}}]''))
       (rejected_with B ''request body contains invalid fields'')"

definition chat_rejects_empty_assistant_tool_calls :: "'e bench \<Rightarrow> bool" where
  "chat_rejects_empty_assistant_tool_calls B =
     answers B (test_state B)
       (chat_post (chat_json ''proxy-model'' (null_content @ '',\"tool_calls\":[]}'') []))
       (rejected_with B ''assistant messages tool_calls must not be empty'')"

definition chat_rejects_tool_calls_on_user_message :: "'e bench \<Rightarrow> bool" where
  "chat_rejects_tool_calls_on_user_message B =
     answers B (test_state B) (chat_post (chat_json ''proxy-model''
         ''{\"role\":\"user\",\"content\":\"hi\",\"tool_calls\":[]}'' []))
       (rejected_with B ''only assistant messages may include tool_calls'')"

definition chat_rejects_tool_call_id_on_assistant_message :: "'e bench \<Rightarrow> bool" where
  "chat_rejects_tool_call_id_on_assistant_message B =
     answers B (test_state B) (chat_post (chat_json ''proxy-model''
         ''{\"role\":\"assistant\",\"content\":\"hi\",\"tool_call_id\":\"call_1\"}'' []))
       (rejected_with B ''only tool messages may include tool_call_id'')"

definition chat_rejects_missing_json_content_type_with_stable_message :: "'e bench \<Rightarrow> bool" where
  "chat_rejects_missing_json_content_type_with_stable_message B =
     answers B (test_state B) (post_request ''/v1/chat/completions'' [] hi_body)
       (rejected_with B ''content-type must be application/json'')"

definition embeddings_reject_null_input :: "'e bench \<Rightarrow> bool" where
  "embeddings_reject_null_input B =
     answers B (test_state B) (embeddings_post (embeddings_json ''proxy-model'' ''null''))
       (\<lambda>response. rs_status response = 400)"

definition embeddings_can_be_disabled_independently :: "'e bench \<Rightarrow> bool" where
  "embeddings_can_be_disabled_independently B =
     (let config = test_config\<lparr>ac_embeddings := \<lparr>ec_enabled = False, ec_backend = None\<rparr>\<rparr> in
      answers B (app_state_new (be_time B) (be_timing B) (be_around B) config (be_world B))
        (embeddings_post (embeddings_json ''proxy-model'' hello)) (\<lambda>response. rs_status response = 400))"

definition embeddings_reject_unknown_field :: "'e bench \<Rightarrow> bool" where
  "embeddings_reject_unknown_field B =
     answers B (test_state B)
       (embeddings_post (embeddings_json ''proxy-model'' (hello @ '',\"encoding_format\":\"float\"'')))
       (rejected_with B (''unsupported field '' @ quoted ''encoding_format''))"

definition embeddings_dual_mode_validates_against_dedicated_alias :: "'e bench \<Rightarrow> bool" where
  "embeddings_dual_mode_validates_against_dedicated_alias B =
     answers B (dual_mode_state B (DReady backend_status_default) (DReady backend_status_default))
       (embeddings_post (embeddings_json ''proxy-model'' hello))
       (\<lambda>response. rs_status response = 400
          \<and> error_is (be_libs B) response ''model_not_found''
          \<and> message_is (be_libs B) response
              (''unsupported model '' @ quoted ''proxy-model'' @ '': expected '' @ quoted ''embed-model''))"

definition refusal_tests :: "'e bench \<Rightarrow> bool list" where
  "refusal_tests B = [chat_unknown_model_returns_bad_request B, chat_rejects_empty_messages B,
     chat_rejects_unknown_top_level_field B, chat_rejects_unknown_message_field B,
     chat_rejects_null_assistant_content_without_tool_calls B,
     chat_rejects_tool_message_without_tool_call_id B, chat_rejects_invalid_tool_calls_shape B,
     chat_rejects_invalid_tool_choice_shape B, chat_rejects_invalid_tool_choice_value B,
     chat_rejects_invalid_tool_type B, chat_rejects_empty_assistant_tool_calls B,
     chat_rejects_tool_calls_on_user_message B, chat_rejects_tool_call_id_on_assistant_message B,
     chat_rejects_missing_json_content_type_with_stable_message B, embeddings_reject_null_input B,
     embeddings_can_be_disabled_independently B, embeddings_reject_unknown_field B,
     embeddings_dual_mode_validates_against_dedicated_alias B]"

section \<open>Tests of accepted requests\<close>

definition warming_down :: backend_status where
  "warming_down = backend_status_default\<lparr>bs_lifecycle := LsWarming, bs_tunnel := TsDown\<rparr>"

definition retry_in_ten :: "response \<Rightarrow> bool" where
  "retry_in_ten response = (rs_status response = 503 \<and> rs_retry_after response = Some ''10'')"

definition chat_warming_decision_maps_to_retryable_503 :: "'e bench \<Rightarrow> bool" where
  "chat_warming_decision_maps_to_retryable_503 B =
     answers B (state_with_lifecycle B (DWarming warming_down 10)) (chat_post hi_body)
       (\<lambda>response. retry_in_ten response \<and> error_is (be_libs B) response ''warming_up'')"

definition chat_accepts_tool_calling_fields_and_null_assistant_content :: "'e bench \<Rightarrow> bool" where
  "chat_accepts_tool_calling_fields_and_null_assistant_content B =
     answers B (state_with_lifecycle B (DWarming warming_down 10)) (chat_post tool_calling_body) retry_in_ten"

definition authorized_header :: "(string \<times> bytes) list" where
  "authorized_header = json_header @ [(''authorization'', ''Bearer test-token'')]"

definition chat_accepts_authorization_header_identically :: "'e bench \<Rightarrow> bool" where
  "chat_accepts_authorization_header_identically B =
     answers B (state_with_lifecycle B (DWarming warming_down 10))
       (post_request ''/v1/chat/completions'' authorized_header hi_body) retry_in_ten"

definition embeddings_accepts_authorization_header_identically :: "'e bench \<Rightarrow> bool" where
  "embeddings_accepts_authorization_header_identically B =
     answers B (state_with_lifecycle B (DWarming warming_down 10))
       (post_request ''/v1/embeddings'' authorized_header (embeddings_json ''proxy-model'' hello)) retry_in_ten"

definition without_server :: "'e bench \<Rightarrow> 'e bench" where
  \<comment> \<open>nothing listens on the tunnel's port of the test configuration\<close>
  "without_server B = B\<lparr>be_libs := nothing_listens (be_libs B)\<rparr>"

definition chat_ready_decision_maps_to_backend_unavailable_without_retry_after :: "'e bench \<Rightarrow> bool" where
  "chat_ready_decision_maps_to_backend_unavailable_without_retry_after B0 =
     (let B = without_server B0 in
      answers B (state_with_lifecycle B (DReady ready_status)) (chat_post hi_body)
        (\<lambda>response. rs_status response = 503 \<and> rs_retry_after response = None
           \<and> error_is (be_libs B) response ''backend_unavailable''))"

definition embeddings_failed_decision_maps_to_backend_error :: "'e bench \<Rightarrow> bool" where
  "embeddings_failed_decision_maps_to_backend_error B =
     (let failed = backend_status_default\<lparr>bs_lifecycle := LsError\<rparr> in
      answers B (state_with_lifecycle B (DFailed failed (LifecycleError ''helper command failed'')))
        (embeddings_post (embeddings_json ''proxy-model'' hello))
        (\<lambda>response. rs_status response = 503 \<and> rs_retry_after response = None
           \<and> error_is (be_libs B) response ''backend_error''
           \<and> message_is (be_libs B) response ''helper command failed''))"

text \<open>A state whose scheduler has its one permit taken by a task (number 0) of the other kind.\<close>

definition queue_config :: "nat \<Rightarrow> app_config" where
  "queue_config max_queued = test_config\<lparr>ac_warm_execution :=
     \<lparr>max_active_requests = 1, max_queued_requests = max_queued, queue_timeout_ms = 20\<rparr>\<rparr>"

definition refused_429 ::
  "'e bench \<Rightarrow> nat \<Rightarrow> sched_event list \<Rightarrow> http_request \<Rightarrow> (response \<Rightarrow> bool) \<Rightarrow> bool" where
  "refused_429 B max_queued evs rq P =
     unwrapped (state_with_services (queue_config max_queued) (static_lifecycle (DReady ready_status)) () (be_world B))
       (\<lambda>st. unwrapped (oneshot_after B evs 1 st rq) (\<lambda>(response, _).
          rs_status response = 429 \<and> error_is (be_libs B) response ''overloaded'' \<and> P response))"

definition ready_embeddings_request_times_out_in_shared_warm_queue_with_429 :: "'e bench \<Rightarrow> bool" where
  "ready_embeddings_request_times_out_in_shared_warm_queue_with_429 B =
     refused_429 B 1 [Advance 0, Advance 1, Advance 1, Advance 1, Expire 1]
       (embeddings_post (embeddings_json ''proxy-model'' hello))
       (\<lambda>response. message_is (be_libs B) response ''request did not start before the warm queue timeout'')"

definition ready_chat_request_times_out_in_shared_warm_queue_with_429 :: "'e bench \<Rightarrow> bool" where
  "ready_chat_request_times_out_in_shared_warm_queue_with_429 B =
     refused_429 B 1 [Advance 0, Advance 1, Advance 1, Advance 1, Expire 1] (chat_post hi_body) (\<lambda>_. True)"

definition ready_chat_request_hits_immediate_shared_queue_full_with_429 :: "'e bench \<Rightarrow> bool" where
  "ready_chat_request_hits_immediate_shared_queue_full_with_429 B =
     refused_429 B 0 [Advance 0, Advance 1, Advance 1] (chat_post hi_body)
       (\<lambda>response. message_is (be_libs B) response ''warm execution queue is full'')"

text \<open>The two requests of the last test go to clones of one router, one after the other.\<close>

definition answers_unavailable :: "'e bench \<Rightarrow> response \<Rightarrow> bool" where
  "answers_unavailable B response = (rs_status response = 503 \<and> rs_retry_after response = None
     \<and> error_is (be_libs B) response ''backend_unavailable'')"

definition answers_warming :: "'e bench \<Rightarrow> response \<Rightarrow> bool" where
  "answers_warming B response = (retry_in_ten response \<and> error_is (be_libs B) response ''warming_up'')"

definition dual_mode_routes_chat_and_embeddings_to_independent_lifecycles :: "'e bench \<Rightarrow> bool" where
  "dual_mode_routes_chat_and_embeddings_to_independent_lifecycles B0 =
     (let B = without_server B0; ready = DReady ready_status; warming = DWarming warming_down 10;
          second = [Advance 0, Finish 0, Advance 1];
          embed = embeddings_post (embeddings_json ''embed-model'' hello)
      in unwrapped (dual_mode_state B ready warming) (\<lambda>st.
           unwrapped (oneshot B st (chat_post hi_body)) (\<lambda>(response, st).
             answers_unavailable B response
             \<and> unwrapped (oneshot_after B second 1 st embed) (\<lambda>(response, _). answers_warming B response)))
       \<and> unwrapped (dual_mode_state B warming ready) (\<lambda>st.
           unwrapped (oneshot B st (chat_post hi_body)) (\<lambda>(response, st).
             answers_warming B response
             \<and> unwrapped (oneshot_after B [Advance 0] 0 st embed) (\<lambda>(response, _). answers_unavailable B response))))"

definition request_tests :: "'e bench \<Rightarrow> bool list" where
  "request_tests B = [chat_warming_decision_maps_to_retryable_503 B,
     chat_accepts_tool_calling_fields_and_null_assistant_content B,
     chat_accepts_authorization_header_identically B,
     embeddings_accepts_authorization_header_identically B,
     chat_ready_decision_maps_to_backend_unavailable_without_retry_after B,
     embeddings_failed_decision_maps_to_backend_error B,
     ready_embeddings_request_times_out_in_shared_warm_queue_with_429 B,
     ready_chat_request_times_out_in_shared_warm_queue_with_429 B,
     ready_chat_request_hits_immediate_shared_queue_full_with_429 B,
     dual_mode_routes_chat_and_embeddings_to_independent_lifecycles B]"

definition app_tests :: "'e bench \<Rightarrow> bool list" where
  "app_tests B = page_tests B @ refusal_tests B @ request_tests B"

section \<open>They pass\<close>

lemma page_tests_pass: "all_pass (page_tests B)"
  by (simp add: page_tests_def healthz_returns_ok_def answers_def test_state_def app_state_new_def assemble_def
   oneshot_def oneshot_after_def serve_http_def get_request_def build_router_def admissions state_defs Let_def
   healthz_def json_response_def models_returns_configured_alias_without_waking_backend_def list_models_def
   chat_ops_def managers_default_def core_new_def status_exposes_backend_shape_def status_page_def
   status_serializes_timestamps_tunnel_and_units_def state_with_lifecycle_def
   status_reflects_orchestrator_snapshot_def status_embeddings_block_is_null_when_disabled_def
   status_dual_mode_reports_independent_backends_def models_lists_two_entries_in_dual_mode_def
   dual_mode_state_def with_dual_lifecycles_def dual_mode_config_def json_such_that_def json_body_def json_get_def
   backend_status_json_def model_json_def lifecycle_json_def capability_json_def tunnel_json_def unit_json_def
   opt_json_def u64_json_def unwrap_or_def model_alias_for_def json_as_array_def)

lemma extract_none:
  "\<not> contains_str e prefix \<Longrightarrow> extract_quoted_value e prefix = None"
  by (simp add: extract_quoted_value_def find_str_None [THEN iffD2])

lemma distinct_phrases:
  "unknown_field_prefix \<noteq> ''invalid type''" "unknown_field_prefix \<noteq> ''unknown variant''"
  "unknown_field_prefix \<noteq> ''data did not match any variant of untagged enum''"
  by code_simp+

lemma complaint_texts:
  "complains_of ''invalid type'' r \<Longrightarrow> \<exists>e. r = Inl e \<and>
     normalize_json_error e = ''request body contains an invalid field type''"
  "complains_of ''unknown variant'' r \<Longrightarrow> \<exists>e. r = Inl e \<and>
     normalize_json_error e = ''request body contains invalid fields''"
  "complains_of ''data did not match any variant of untagged enum'' r \<Longrightarrow> \<exists>e. r = Inl e \<and>
     normalize_json_error e = ''request body contains invalid fields''"
  by (cases r; simp add: complains_of_def json_phrases_def distinct_phrases normalize_json_error_def extract_none)+

lemma unknown_field_text:
  "unknown_field field r \<Longrightarrow> CHR 0x60 \<notin> set field \<Longrightarrow> \<exists>e. r = Inl e \<and>
     normalize_json_error e = ''unsupported field '' @ quoted field"
  by (cases r) (auto simp: unknown_field_def starts_with_iff unknown_field_is_named)

lemma json_accepted:
  "map_of headers ''content-type'' = Some ''application/json'' \<Longrightarrow>
     require_json_content_type hv headers = Ok ()"
proof -
  have "header_to_str ''application/json'' = Some ''application/json''" by code_simp
  then show "map_of headers ''content-type'' = Some ''application/json'' \<Longrightarrow>
     require_json_content_type hv headers = Ok ()"
    by (simp add: require_json_content_type_def)
qed

lemma json_headers:
  "map_of json_header ''content-type'' = Some ''application/json''"
  "map_of authorized_header ''content-type'' = Some ''application/json''"
  by (simp_all add: json_header_def authorized_header_def)

lemma post_reaches_handler:
  assumes "map_of headers ''content-type'' = Some ''application/json''"
    and "admission (ac_warm_execution (as_config st)) evs i = Some admitted"
  shows "oneshot_after B evs i st (post_request ''/v1/chat/completions'' headers body) =
      (case chat_completions (be_libs B) (be_readers B) \<lparr>rc_admit = at_once admitted, rc_meanwhile = (\<lambda>m. m)\<rparr> body st of
         (None, _) \<Rightarrow> None | (Some response, st') \<Rightarrow> Some (response, st'))"
    and "oneshot_after B evs i st (post_request ''/v1/embeddings'' headers body) =
      (case embeddings (be_libs B) (be_readers B) \<lparr>rc_admit = at_once admitted, rc_meanwhile = (\<lambda>m. m)\<rparr> body st of
         (None, _) \<Rightarrow> None | (Some response, st') \<Rightarrow> Some (response, st'))"
  using assms(2)
  by (simp_all add: oneshot_after_def serve_http_def build_router_def post_request_def Let_def
     with_json_body_def json_accepted [OF assms(1)] optional_authorization_def)

lemma new_states:
  assumes "ac_warm_execution config = warm_execution_default" "ac_cold_start_max_waiting config = 32"
  shows "\<exists>st. app_state_new time tm around config w = Some st \<and> as_config st = config"
    and "\<exists>st. with_dual_lifecycles config chat emb m w = Some st \<and> as_config st = config"
    and "admission (ac_warm_execution config) [Advance 0] 0 = Some None"
  using assms
  by (simp_all add: app_state_new_def with_dual_lifecycles_def assemble_def semaphore_new_def
      warm_execution_default_def admissions)

lemma test_configs:
  "ac_warm_execution test_config = warm_execution_default" "ac_cold_start_max_waiting test_config = 32"
  "ac_warm_execution (test_config\<lparr>ac_embeddings := e\<rparr>) = warm_execution_default"
  "ac_cold_start_max_waiting (test_config\<lparr>ac_embeddings := e\<rparr>) = 32"
  "ac_warm_execution dual_mode_config = warm_execution_default"
  "ac_cold_start_max_waiting dual_mode_config = 32"
  by (simp_all add: test_config_def dual_mode_config_def)

lemma test_states:
  "\<exists>st. test_state B = Some st \<and> as_config st = test_config"
  unfolding test_state_def by (rule new_states) (rule test_configs)+

lemmas test_admission = new_states(3) [OF test_configs(1,2)]

text \<open>Why a body is refused, and with which code and message.\<close>

definition chat_refusal :: "readers \<Rightarrow> bytes \<Rightarrow> string \<Rightarrow> string \<Rightarrow> bool" where
  "chat_refusal rd body code message = (case rd_chat rd body of
       Inl e \<Rightarrow> code = ''invalid_request_error'' \<and> message = normalize_json_error e
     | Inr payload \<Rightarrow> (cr_messages payload = [] \<and> code = ''invalid_request_error''
            \<and> message = ''messages must not be empty'')
        \<or> (cr_messages payload \<noteq> [] \<and> invalid_role payload = None
            \<and> content_error payload = Some message \<and> code = ''invalid_request_error'')
        \<or> (cr_messages payload \<noteq> [] \<and> invalid_role payload = None \<and> content_error payload = None
            \<and> cr_model payload \<noteq> ''proxy-model'' \<and> code = ''model_not_found''
            \<and> message = unsupported_model (cr_model payload) ''proxy-model''))"

definition refusal :: "string \<Rightarrow> string \<Rightarrow> response" where
  "refusal code message = \<lparr>rs_status = 400, rs_content_type = ''application/json'',
     rs_retry_after = None, rs_body = JsonBody (error_json code message)\<rparr>"

lemma refusal_simps:
  "rs_status (refusal code message) = 400"
  "rejected_with B m (refusal code message) \<longleftrightarrow> m = message"
  "error_is L (refusal code message) c \<longleftrightarrow> c = code"
  "message_is L (refusal code message) m \<longleftrightarrow> m = message"
  by (auto simp: refusal_def rejected_with_def error_is_def message_is_def json_body_def error_json_def
      json_get_def unwrap_or_def)

lemma chat_refused:
  assumes "chat_refusal (be_readers B) body code message"
  shows "answers B (test_state B) (chat_post body) P = P (refusal code message)"
proof -
  from test_states [of B] obtain st where st: "test_state B = Some st" "as_config st = test_config" by blast
  have adm: "admission (ac_warm_execution (as_config st)) [Advance 0] 0 = Some None"
    by (simp add: st test_admission)
  show ?thesis
    using assms
    by (auto simp: answers_def st oneshot_def chat_post_def post_reaches_handler [OF json_headers(1) adm]
        chat_completions_def Let_def update_metrics_def test_config_def bad_request_Some
        chat_refusal_def refusal_def split: sum.splits)
qed

lemma refusal_unknown:
  assumes "unknown_field field (rd_chat rd body)" "CHR 0x60 \<notin> set field"
  shows "chat_refusal rd body ''invalid_request_error'' (''unsupported field '' @ quoted field)"
  using unknown_field_text [OF assms] by (auto simp: chat_refusal_def)

lemma refusal_complaint:
  "complains_of ''invalid type'' (rd_chat rd body) \<Longrightarrow>
     chat_refusal rd body ''invalid_request_error'' ''request body contains an invalid field type''"
  "complains_of ''unknown variant'' (rd_chat rd body) \<Longrightarrow>
     chat_refusal rd body ''invalid_request_error'' ''request body contains invalid fields''"
  "complains_of ''data did not match any variant of untagged enum'' (rd_chat rd body) \<Longrightarrow>
     chat_refusal rd body ''invalid_request_error'' ''request body contains invalid fields''"
  by (auto simp: chat_refusal_def dest: complaint_texts)

lemma refusal_message:
  assumes "rd_chat rd body = Ok (chat_value model [m])" "cm_role m \<in> set known_roles"
    "message_content_error m = Some message"
  shows "chat_refusal rd body ''invalid_request_error'' message"
  using assms by (simp add: chat_refusal_def chat_value_def invalid_role_def content_error_def)

lemma message_errors:
  "cm_role (message_value role content calls call_id) = role"
  "message_content_error (message_value ''assistant'' None None None) = Some ''message content must not be null''"
  "message_content_error (message_value ''tool'' (Some (JString c)) None None)
     = Some ''tool messages must include tool_call_id''"
  "message_content_error (message_value ''assistant'' None (Some []) None)
     = Some ''assistant messages tool_calls must not be empty''"
  "message_content_error (message_value ''user'' (Some (JString c)) (Some []) None)
     = Some ''only assistant messages may include tool_calls''"
  "message_content_error (message_value ''assistant'' (Some (JString c)) None (Some i))
     = Some ''only tool messages may include tool_call_id''"
  "message_content_error (message_value ''user'' (Some (JString c)) None None) = None"
  by (simp_all add: message_content_error_def message_value_def none_or_null_def json_is_null_def)

lemma roles_of_tests: "''user'' \<in> set known_roles" "''assistant'' \<in> set known_roles" "''tool'' \<in> set known_roles"
  by (simp_all add: known_roles_def)

lemma chat_refusals:
  assumes "documented_readers rd"
  shows "chat_refusal rd (chat_json ''wrong'' user_hi []) ''model_not_found''
      (unsupported_model ''wrong'' ''proxy-model'')"
    "chat_refusal rd (chat_json ''proxy-model'' [] []) ''invalid_request_error'' ''messages must not be empty''"
    "chat_refusal rd (chat_json ''proxy-model'' user_hi '',\"temperature\":0.2'')
      ''invalid_request_error'' (''unsupported field '' @ quoted ''temperature'')"
    "chat_refusal rd (chat_json ''proxy-model'' ''{\"role\":\"user\",\"content\":\"hi\",\"name\":\"extra\"}'' [])
      ''invalid_request_error'' (''unsupported field '' @ quoted ''name'')"
    "chat_refusal rd (chat_json ''proxy-model'' (null_content @ ''}'') [])
      ''invalid_request_error'' ''message content must not be null''"
    "chat_refusal rd (chat_json ''proxy-model'' ''{\"role\":\"tool\",\"content\":\"{}\"}'' [])
      ''invalid_request_error'' ''tool messages must include tool_call_id''"
    "chat_refusal rd (chat_json ''proxy-model'' (null_content @ '',\"tool_calls\":\"bad\"}'') [])
      ''invalid_request_error'' ''request body contains an invalid field type''"
    "chat_refusal rd (chat_json ''proxy-model'' user_hi '',\"tool_choice\":123'')
      ''invalid_request_error'' ''request body contains invalid fields''"
    "chat_refusal rd (chat_json ''proxy-model'' user_hi '',\"tool_choice\":\"banana\"'')
      ''invalid_request_error'' ''request body contains invalid fields''"
    "chat_refusal rd (chat_json ''proxy-model'' user_hi
         '',\"tools\":[{\"type\":\"custom\",\"function\":{\"name\":\"lookup\"}}]'')
      ''invalid_request_error'' ''request body contains invalid fields''"
    "chat_refusal rd (chat_json ''proxy-model'' (null_content @ '',\"tool_calls\":[]}'') [])
      ''invalid_request_error'' ''assistant messages tool_calls must not be empty''"
    "chat_refusal rd (chat_json ''proxy-model'' ''{\"role\":\"user\",\"content\":\"hi\",\"tool_calls\":[]}'' [])
      ''invalid_request_error'' ''only assistant messages may include tool_calls''"
    "chat_refusal rd (chat_json ''proxy-model''
         ''{\"role\":\"assistant\",\"content\":\"hi\",\"tool_call_id\":\"call_1\"}'' [])
      ''invalid_request_error'' ''only tool messages may include tool_call_id''"
proof -
  note doc = assms [unfolded documented_readers_def]
  show "chat_refusal rd (chat_json ''wrong'' user_hi []) ''model_not_found''
      (unsupported_model ''wrong'' ''proxy-model'')"
    using doc by (simp add: chat_refusal_def chat_value_def hi_value_def invalid_role_def content_error_def
      message_errors roles_of_tests)
  show "chat_refusal rd (chat_json ''proxy-model'' [] []) ''invalid_request_error'' ''messages must not be empty''"
    using doc by (simp add: chat_refusal_def chat_value_def)
qed (insert assms, unfold documented_readers_def, elim conjE,
  (assumption | rule refusal_unknown refusal_complaint refusal_message | simp add: message_errors roles_of_tests)+)

lemma content_type_refused:
  "answers B (test_state B) (post_request ''/v1/chat/completions'' [] body) P
     = P (refusal ''invalid_request_error'' ''content-type must be application/json'')"
proof -
  from test_states [of B] obtain st where st: "test_state B = Some st" "as_config st = test_config" by blast
  have adm: "admission (ac_warm_execution (as_config st)) [Advance 0] 0 = Some None"
    by (simp add: st test_admission)
  show ?thesis
    by (simp add: answers_def st oneshot_def oneshot_after_def test_admission serve_http_def build_router_def post_request_def Let_def
        with_json_body_def require_json_content_type_def refusal_def)
qed

lemma chat_refusal_tests_pass:
  assumes "documented_readers (be_readers B)"
  shows "chat_unknown_model_returns_bad_request B" "chat_rejects_empty_messages B"
    "chat_rejects_unknown_top_level_field B" "chat_rejects_unknown_message_field B"
    "chat_rejects_null_assistant_content_without_tool_calls B"
    "chat_rejects_tool_message_without_tool_call_id B" "chat_rejects_invalid_tool_calls_shape B"
    "chat_rejects_invalid_tool_choice_shape B" "chat_rejects_invalid_tool_choice_value B"
    "chat_rejects_invalid_tool_type B" "chat_rejects_empty_assistant_tool_calls B"
    "chat_rejects_tool_calls_on_user_message B" "chat_rejects_tool_call_id_on_assistant_message B"
    "chat_rejects_missing_json_content_type_with_stable_message B"
  unfolding chat_unknown_model_returns_bad_request_def chat_rejects_empty_messages_def
    chat_rejects_unknown_top_level_field_def chat_rejects_unknown_message_field_def
    chat_rejects_null_assistant_content_without_tool_calls_def
    chat_rejects_tool_message_without_tool_call_id_def chat_rejects_invalid_tool_calls_shape_def
    chat_rejects_invalid_tool_choice_shape_def chat_rejects_invalid_tool_choice_value_def
    chat_rejects_invalid_tool_type_def chat_rejects_empty_assistant_tool_calls_def
    chat_rejects_tool_calls_on_user_message_def chat_rejects_tool_call_id_on_assistant_message_def
    chat_rejects_missing_json_content_type_with_stable_message_def content_type_refused
    chat_refusals [OF assms, THEN chat_refused] refusal_simps
  by simp_all

text \<open>The embeddings tests: the state is made from a configuration, and the check refuses.\<close>

lemma embeddings_refused:
  assumes "state = Some st" "admission (ac_warm_execution (as_config st)) [Advance 0] 0 = Some None"
    and "case rd_embeddings (be_readers B) body of
      Inl e \<Rightarrow> code = ''invalid_request_error'' \<and> message = normalize_json_error e
    | Inr payload \<Rightarrow> em_input payload = JNull \<and> code = ''invalid_request_error''
            \<and> message = ''input must not be null''
        \<or> em_input payload \<noteq> JNull \<and> em_model payload \<noteq> model_alias_for (as_config st) Embeddings
            \<and> code = ''model_not_found''
            \<and> message = unsupported_model (em_model payload) (model_alias_for (as_config st) Embeddings)
        \<or> em_input payload \<noteq> JNull \<and> em_model payload = model_alias_for (as_config st) Embeddings
            \<and> \<not> ec_enabled (ac_embeddings (as_config st)) \<and> code = ''unsupported_embeddings''
            \<and> message = ''embeddings are disabled by configuration''"
  shows "answers B state (embeddings_post body) P = P (refusal code message)"
  using assms
  by (auto simp: answers_def oneshot_def embeddings_post_def post_reaches_handler [OF json_headers(1) assms(2)]
      embeddings_def Let_def update_metrics_def bad_request_Some refusal_def json_is_null_def split: sum.splits)

lemma embeddings_refusal_tests_pass:
  assumes "documented_readers (be_readers B)"
  shows "embeddings_reject_null_input B" "embeddings_reject_unknown_field B"
    "embeddings_can_be_disabled_independently B"
    "embeddings_dual_mode_validates_against_dedicated_alias B"
proof -
  from test_states [of B] obtain st where st: "test_state B = Some st" "as_config st = test_config" by blast
  have adm: "admission (ac_warm_execution (as_config st)) [Advance 0] 0 = Some None"
    by (simp add: st test_admission)
  note doc = assms [unfolded documented_readers_def]
  show "embeddings_reject_null_input B"
    using doc unfolding embeddings_reject_null_input_def
    by (subst embeddings_refused [OF st(1) adm, where code = "''invalid_request_error''" and message = "''input must not be null''"])
      (simp_all add: refusal_simps)
  from doc obtain e where e: "rd_embeddings (be_readers B)
      (embeddings_json ''proxy-model'' (hello @ '',\"encoding_format\":\"float\"'')) = Inl e"
      "normalize_json_error e = ''unsupported field '' @ quoted ''encoding_format''"
    using unknown_field_text [of "''encoding_format''"] by fastforce
  then show "embeddings_reject_unknown_field B"
    unfolding embeddings_reject_unknown_field_def
    by (subst embeddings_refused [OF st(1) adm, where code = "''invalid_request_error''" and message = "normalize_json_error e"])
      (simp_all add: refusal_simps)
  let ?off = "test_config\<lparr>ac_embeddings := \<lparr>ec_enabled = False, ec_backend = None\<rparr>\<rparr>"
  obtain off where off: "app_state_new (be_time B) (be_timing B) (be_around B) ?off (be_world B) = Some off"
      "as_config off = ?off" using new_states(1) [OF test_configs(3,4)] by blast
  have "admission (ac_warm_execution (as_config off)) [Advance 0] 0 = Some None"
    unfolding off(2) by (rule new_states(3) [OF test_configs(3,4)])
  from embeddings_refused [OF off(1) this, where code = "''unsupported_embeddings''"
      and message = "''embeddings are disabled by configuration''"] doc off(2)
  show "embeddings_can_be_disabled_independently B"
    by (simp add: embeddings_can_be_disabled_independently_def Let_def refusal_simps model_alias_for_def
        test_config_def)
  obtain dual where dual: "dual_mode_state B (DReady backend_status_default) (DReady backend_status_default) = Some dual"
      "as_config dual = dual_mode_config"
    unfolding dual_mode_state_def
    using new_states(2) [OF test_configs(5,6), where w = "be_world B" and m = "()"
        and chat = "static_lifecycle (DReady backend_status_default)"
        and emb = "static_lifecycle (DReady backend_status_default)"] by blast
  have "admission (ac_warm_execution (as_config dual)) [Advance 0] 0 = Some None"
    unfolding dual(2) by (rule new_states(3) [OF test_configs(5,6)])
  from embeddings_refused [OF dual(1) this, where code = "''model_not_found''"
      and message = "unsupported_model ''proxy-model'' ''embed-model''"] doc dual(2)
  show "embeddings_dual_mode_validates_against_dedicated_alias B"
    by (simp add: embeddings_dual_mode_validates_against_dedicated_alias_def refusal_simps
        model_alias_for_def dual_mode_config_def unsupported_model_def)
qed

lemma accepted:
  assumes "documented_readers rd"
  shows "mc_alias (ac_model (as_config st)) = ''proxy-model'' \<Longrightarrow> body \<in> {hi_body, tool_calling_body} \<Longrightarrow>
      chat_completions L rd ctx body st = execute L ctx Chat body False (update_metrics inc_chat_requests st)"
    and "ec_enabled (ac_embeddings (as_config st)) \<Longrightarrow>
      model_alias_for (as_config st) Embeddings = alias \<Longrightarrow> alias \<in> {''proxy-model'', ''embed-model''} \<Longrightarrow>
      embeddings L rd ctx (embeddings_json alias hello) st
        = execute L ctx Embeddings (embeddings_json alias hello) False (update_metrics inc_embeddings_requests st)"
proof -
  note doc = assms [unfolded documented_readers_def]
  have hi: "invalid_role (chat_value ''proxy-model'' [hi_value]) = None"
      "content_error (chat_value ''proxy-model'' [hi_value]) = None"
      "invalid_role tool_calling_value = None" "content_error tool_calling_value = None"
    by code_simp+
  have fields: "cr_messages (chat_value m ms) = ms" "cr_model (chat_value m ms) = m"
      "cr_stream (chat_value m ms) = False" "cr_messages tool_calling_value \<noteq> []"
      "cr_model tool_calling_value = ''proxy-model''" "\<not> cr_stream tool_calling_value" for m ms
    by (simp_all add: chat_value_def tool_calling_value_def)
  show "mc_alias (ac_model (as_config st)) = ''proxy-model'' \<Longrightarrow> body \<in> {hi_body, tool_calling_body} \<Longrightarrow>
      chat_completions L rd ctx body st = execute L ctx Chat body False (update_metrics inc_chat_requests st)"
    using doc hi fields by (auto simp: chat_completions_def Let_def update_metrics_def)
  show "ec_enabled (ac_embeddings (as_config st)) \<Longrightarrow>
      model_alias_for (as_config st) Embeddings = alias \<Longrightarrow> alias \<in> {''proxy-model'', ''embed-model''} \<Longrightarrow>
      embeddings L rd ctx (embeddings_json alias hello) st
        = execute L ctx Embeddings (embeddings_json alias hello) False (update_metrics inc_embeddings_requests st)"
    using doc by (auto simp: embeddings_def Let_def update_metrics_def json_is_null_def)
qed

lemmas request_defs = answers_def oneshot_def chat_post_def embeddings_post_def state_with_lifecycle_def
  retry_in_ten_def warming_down_def without_server_def

lemma single_request_tests_pass:
  assumes "documented_readers (be_readers B)" "documented_libs (be_libs B)"
  shows "chat_warming_decision_maps_to_retryable_503 B"
    "chat_accepts_tool_calling_fields_and_null_assistant_content B"
    "chat_accepts_authorization_header_identically B"
    "embeddings_accepts_authorization_header_identically B"
    "chat_ready_decision_maps_to_backend_unavailable_without_retry_after B"
    "embeddings_failed_decision_maps_to_backend_error B"
  using assms(2)
  by (simp_all add: chat_warming_decision_maps_to_retryable_503_def
      chat_accepts_tool_calling_fields_and_null_assistant_content_def
      chat_accepts_authorization_header_identically_def
      embeddings_accepts_authorization_header_identically_def
      chat_ready_decision_maps_to_backend_unavailable_without_retry_after_def
      embeddings_failed_decision_maps_to_backend_error_def
      request_defs test_defs post_reaches_handler json_headers accepted [OF assms(1)])

lemma queue_tests_pass:
  assumes "documented_readers (be_readers B)"
  shows "ready_embeddings_request_times_out_in_shared_warm_queue_with_429 B"
    "ready_chat_request_times_out_in_shared_warm_queue_with_429 B"
    "ready_chat_request_hits_immediate_shared_queue_full_with_429 B"
  by (simp_all add: ready_embeddings_request_times_out_in_shared_warm_queue_with_429_def
      ready_chat_request_times_out_in_shared_warm_queue_with_429_def
      ready_chat_request_hits_immediate_shared_queue_full_with_429_def refused_429_def queue_config_def
      request_defs test_defs post_reaches_handler json_headers accepted [OF assms(1)])

lemma dual_test_passes:
  assumes "documented_readers (be_readers B)" "documented_libs (be_libs B)"
  shows "dual_mode_routes_chat_and_embeddings_to_independent_lifecycles B"
  using assms(2)
  by (simp add: dual_mode_routes_chat_and_embeddings_to_independent_lifecycles_def dual_mode_state_def
      with_dual_lifecycles_def dual_mode_config_def answers_unavailable_def answers_warming_def
      request_defs test_defs post_reaches_handler json_headers accepted [OF assms(1)])

lemma app_tests_pass:
  assumes "documented_readers (be_readers B)" "documented_libs (be_libs B)"
  shows "all_pass (app_tests B)"
  by (simp add: app_tests_def page_tests_pass refusal_tests_def request_tests_def
      chat_refusal_tests_pass [OF assms(1)] embeddings_refusal_tests_pass [OF assms(1)]
      single_request_tests_pass [OF assms] queue_tests_pass [OF assms(1)] dual_test_passes [OF assms])

end
