(* ===== verification/Lifecycle_Exec.thy ===== *)
theory Lifecycle_Exec
  imports Lifecycle_System
begin

text \<open>
  The steps of \<open>Lifecycle_System\<close> as a function of an event, equivalent to the step relation,
  and a runtime that picks the events: tasks run one at a time, each on to the point where it
  has to wait, the calls of an observation are answered by ports, and the clock moves to the
  next timer when no task can run (a single-threaded executor with virtual time). Every run of
  it is a run of the step relation.
\<close>

section \<open>The steps as a function\<close>

datatype lc_event =
    Arrive nat lifecycle_request
  | Run nat
  | Reply nat timestamp answer nat
  | Boot nat timestamp
  | TimeUp nat
  | DropTask nat
  | Degrade nat string
  | Mark nat
  | Tick nat

definition advance_request :: "lifecycle_timing \<Rightarrow> nat \<Rightarrow> task \<Rightarrow> sys \<Rightarrow> sys option" where
  "advance_request tm i t s = (case t of
       TStart r \<Rightarrow> Some (set_task i (TCheck r (co_status (sy_core s))) s)
     | TCheck r st \<Rightarrow> Some (set_task i (if \<not> active s \<and> backend_is_ready st then TDone (DReady st) else TJoin r st) s)
     | TJoin r st \<Rightarrow> Some (case start_or_join_bootstrap r (sy_core s) of
          (True, c) \<Rightarrow> set_task i (TObserveReq r st (co_version c)) (set_core c (s\<lparr>sy_starts := Suc (sy_starts s)\<rparr>))
        | (False, c) \<Rightarrow> set_task i (TWait (co_version c)
            (sy_clock s + 1000 * unat (cold_wait_budget_secs tm))) (set_core c s))
     | TObserveReq r st v \<Rightarrow> Some (set_task i
          (TObserve (obs_init (Some r) (bt_observe_request (co_bootstrap (sy_core s))) st) v) s)
     | TReady st \<Rightarrow> Some (set_task i (TFinish (co_status (sy_core s)) None (DReady st)) s)
     | TFinish st eo d \<Rightarrow> Some (set_task i (TDone d)
          (set_core (finish_bootstrap st eo (sy_core s)) (s\<lparr>sy_finishes := Suc (sy_finishes s)\<rparr>)))
     | TWait v dl \<Rightarrow> Some (set_task i (TWaitLock (co_status (sy_core s)) v dl) s)
     | TWaitLock st v dl \<Rightarrow> Some (case wait_check tm dl (view_at st s) of
          Some d \<Rightarrow> set_task i (TDone d) s
        | None \<Rightarrow> set_task i (TSleep v dl (stale_view (view_at st s))) s)
     | TSleep v dl stale \<Rightarrow> (if v < co_version (sy_core s)
          then Some (set_task i (TWait (co_version (sy_core s)) dl) s) else None)
     | _ \<Rightarrow> None)"

definition advance_boot :: "lifecycle_timing \<Rightarrow> nat \<Rightarrow> task \<Rightarrow> sys \<Rightarrow> sys option" where
  "advance_boot tm i t s = (case t of
       BLoop dl \<Rightarrow> Some (if dl \<le> sy_clock s
          then set_task i (BFinish (failed_status (co_status (sy_core s))) (Some deadline_error)) s
          else set_task i (BPause dl (sy_clock s + unat (bootstrap_poll_interval_millis tm))) s)
     | BPause dl u \<Rightarrow> (if sy_clock s < u then None
          else Some (if dl \<le> sy_clock s
            then set_task i (BFinish (failed_status (co_status (sy_core s))) (Some deadline_error)) s
            else set_task i (BRead dl (co_status (sy_core s))) s))
     | BRead dl st \<Rightarrow> Some (set_task i
          (BObserve dl (obs_init None (bt_observe_request (co_bootstrap (sy_core s))) st)) s)
     | BFinish st eo \<Rightarrow> Some (set_task i BDone
          (set_core (finish_bootstrap st eo (sy_core s)) (s\<lparr>sy_finishes := Suc (sy_finishes s)\<rparr>)))
     | TDegrade reason st \<Rightarrow> Some (set_task i TReturned (set_core
          (publish (st\<lparr>bs_embeddings := CsDegraded, bs_embeddings_reason := Some reason\<rparr>) (sy_core s)) s))
     | TMark st \<Rightarrow> Some (set_task i TReturned (set_core
          (publish (st\<lparr>bs_lifecycle := LsWarming, bs_tunnel := TsDown\<rparr>) (sy_core s)) s))
     | _ \<Rightarrow> None)"

definition reply :: "lifecycle_timing \<Rightarrow> nat \<Rightarrow> timestamp \<Rightarrow> answer \<Rightarrow> nat \<Rightarrow> sys \<Rightarrow> sys option" where
  "reply tm i t a j s = (case sy_tasks s i of
       TObserve ob v \<Rightarrow> (case obs_step tm t ob a of
          None \<Rightarrow> None
        | Some (Running ob') \<Rightarrow> Some (set_task i (TObserve ob' v) (s\<lparr>sy_wakes := sy_wakes s @ wake_sent ob'\<rparr>))
        | Some (Finished (DReady st)) \<Rightarrow> Some (set_task i (TReady st) (set_core (publish st (sy_core s)) s))
        | Some (Finished (DFailed st e)) \<Rightarrow> Some (set_task i (TFinish st (Some e) (DFailed st e)) s)
        | Some (Finished (DWarming st n)) \<Rightarrow> (case sy_tasks s j of
            TIdle \<Rightarrow> if j = i then None else Some (set_task j BStart (set_task i
              (TWait v (sy_clock s + 1000 * unat (cold_wait_budget_secs tm)))
              (set_core (publish st (sy_core s)) s)))
          | _ \<Rightarrow> None))
     | BObserve dl ob \<Rightarrow> (case obs_step tm t ob a of
          None \<Rightarrow> None
        | Some (Running ob') \<Rightarrow> Some (set_task i (BObserve dl ob') (s\<lparr>sy_wakes := sy_wakes s @ wake_sent ob'\<rparr>))
        | Some (Finished (DReady st)) \<Rightarrow> Some (set_task i (BFinish st None) (set_core (publish st (sy_core s)) s))
        | Some (Finished (DFailed st e)) \<Rightarrow> Some (set_task i (BFinish st (Some e)) s)
        | Some (Finished (DWarming st n)) \<Rightarrow> Some (set_task i (BLoop dl) (set_core (publish st (sy_core s)) s)))
     | _ \<Rightarrow> None)"

definition is_idle :: "task \<Rightarrow> bool" where
  "is_idle t = (case t of TIdle \<Rightarrow> True | _ \<Rightarrow> False)"

lemma is_idle_iff: "is_idle t \<longleftrightarrow> t = TIdle"
  by (simp add: is_idle_def split: task.split)

definition lc_do :: "lifecycle_timing \<Rightarrow> lc_event \<Rightarrow> sys \<Rightarrow> sys option" where
  "lc_do tm ev s = (case ev of
       Arrive i r \<Rightarrow> (if is_idle (sy_tasks s i) then Some (set_task i (TStart r) s) else None)
     | Run i \<Rightarrow> (case advance_request tm i (sy_tasks s i) s of
          Some s' \<Rightarrow> Some s' | None \<Rightarrow> advance_boot tm i (sy_tasks s i) s)
     | Reply i t a j \<Rightarrow> reply tm i t a j s
     | Boot i t \<Rightarrow> (case sy_tasks s i of
          BStart \<Rightarrow> Some (set_task i (BLoop (boot_deadline_at tm t s)) s) | _ \<Rightarrow> None)
     | TimeUp i \<Rightarrow> (case sy_tasks s i of
          TSleep v dl stale \<Rightarrow> (if dl \<le> sy_clock s
            then Some (set_task i (TDone (DWarming (bootstrap_wait_status (co_status (sy_core s)) stale)
              (retry_after_secs tm))) s) else None)
        | _ \<Rightarrow> None)
     | DropTask i \<Rightarrow> (if droppable (sy_tasks s i) then Some (set_task i TDropped s) else None)
     | Degrade i reason \<Rightarrow> (if is_idle (sy_tasks s i)
          then Some (set_task i (TDegrade reason (co_status (sy_core s))) s) else None)
     | Mark i \<Rightarrow> (if is_idle (sy_tasks s i) then Some (set_task i (TMark (co_status (sy_core s))) s) else None)
     | Tick d \<Rightarrow> Some (s\<lparr>sy_clock := sy_clock s + d\<rparr>))"

section \<open>It is the step relation\<close>

lemmas lc_steps = lc_step.intros [simplified]

lemma advance_request_step: "advance_request tm i (sy_tasks s i) s = Some s' \<Longrightarrow> lc_step tm s s'"
  by (cases "sy_tasks s i")
    (auto simp: advance_request_def intro: lc_steps lc_step.intros
      split: if_splits prod.splits bool.splits option.splits)

lemma advance_boot_step: "advance_boot tm i (sy_tasks s i) s = Some s' \<Longrightarrow> lc_step tm s s'"
  by (cases "sy_tasks s i")
    (auto simp: advance_boot_def not_less intro: lc_steps lc_step.intros split: if_splits)

lemma reply_step: "reply tm i t a j s = Some s' \<Longrightarrow> lc_step tm s s'"
  by (cases "sy_tasks s i")
    (auto simp: reply_def intro: lc_steps lc_step.intros
      split: option.splits obs_result.splits lifecycle_decision.splits task.splits if_splits)

lemma lc_do_step: "lc_do tm ev s = Some s' \<Longrightarrow> lc_step tm s s'"
  by (cases ev)
    (auto simp: lc_do_def is_idle_iff intro: advance_request_step advance_boot_step reply_step lc_step.intros
      split: option.splits task.splits if_splits)

lemma start_or_join_pair: "start_or_join_bootstrap r c = (b, c') \<Longrightarrow>
    (case start_or_join_bootstrap r c of (True, c) \<Rightarrow> f c | (False, c) \<Rightarrow> g c) = (if b then f c' else g c')"
  by (cases b) simp_all

lemma lc_step_do:
  assumes "lc_step tm s s'"
  shows "\<exists>ev. lc_do tm ev s = Some s'"
proof -
  note defs = lc_do_def advance_request_def advance_boot_def reply_def is_idle_iff
  from assms show ?thesis
  proof (cases rule: lc_step.cases)
    case (arrive i r)
    then show ?thesis by (intro exI [of _ "Arrive i r"]) (simp add: defs)
  next
    case (observe_continue i ob v t a ob')
    then show ?thesis by (intro exI [of _ "Reply i t a 0"]) (simp add: defs)
  next
    case (observe_ready i ob v t a st)
    then show ?thesis by (intro exI [of _ "Reply i t a 0"]) (simp add: defs)
  next
    case (observe_failed i ob v t a st e)
    then show ?thesis by (intro exI [of _ "Reply i t a 0"]) (simp add: defs)
  next
    case (observe_warming i ob v t a st n j)
    then show ?thesis by (intro exI [of _ "Reply i t a j"]) (simp add: defs)
  next
    case (wait_timeout i v dl stale)
    then show ?thesis by (intro exI [of _ "TimeUp i"]) (simp add: defs)
  next
    case (drop i)
    then show ?thesis by (intro exI [of _ "DropTask i"]) (simp add: defs)
  next
    case (boot_start i t)
    then show ?thesis by (intro exI [of _ "Boot i t"]) (simp add: defs)
  next
    case (boot_continue i dl ob t a ob')
    then show ?thesis by (intro exI [of _ "Reply i t a 0"]) (simp add: defs)
  next
    case (boot_ready i dl ob t a st)
    then show ?thesis by (intro exI [of _ "Reply i t a 0"]) (simp add: defs)
  next
    case (boot_failed i dl ob t a st e)
    then show ?thesis by (intro exI [of _ "Reply i t a 0"]) (simp add: defs)
  next
    case (boot_warming i dl ob t a st n)
    then show ?thesis by (intro exI [of _ "Reply i t a 0"]) (simp add: defs)
  next
    case (degrade_read i reason)
    then show ?thesis by (intro exI [of _ "Degrade i reason"]) (simp add: defs)
  next
    case (mark_read i)
    then show ?thesis by (intro exI [of _ "Mark i"]) (simp add: defs)
  next
    case (tick d)
    then show ?thesis by (intro exI [of _ "Tick d"]) (simp add: defs)
  qed (rule_tac x = "Run i" in exI; auto simp: defs)+
qed

theorem lc_step_iff: "lc_step tm s s' \<longleftrightarrow> (\<exists>ev. lc_do tm ev s = Some s')"
  using lc_step_do lc_do_step by blast

section \<open>The runtime\<close>

text \<open>
  The manager with the world of its ports, the task that runs, and the number of the next new
  task (tasks are numbered in the order in which they start).
\<close>

record 'e runtime =
  rt_sys :: sys
  rt_env :: 'e
  rt_current :: nat
  rt_next :: nat

definition rt_init :: "backend_status \<Rightarrow> 'e \<Rightarrow> 'e runtime" where
  "rt_init initial e = \<lparr>rt_sys = sys_init initial, rt_env = e, rt_current = 0, rt_next = 0\<rparr>"

definition runnable :: "sys \<Rightarrow> nat \<Rightarrow> bool" where
  "runnable s i = (case sy_tasks s i of
       TIdle \<Rightarrow> False | TDone _ \<Rightarrow> False | TDropped \<Rightarrow> False | BDone \<Rightarrow> False | TReturned \<Rightarrow> False
     | TSleep v dl _ \<Rightarrow> v < co_version (sy_core s) \<or> dl \<le> sy_clock s
     | BPause _ u \<Rightarrow> u \<le> sy_clock s
     | _ \<Rightarrow> True)"

definition timer :: "task \<Rightarrow> nat option" where
  "timer t = (case t of TSleep _ dl _ \<Rightarrow> Some dl | BPause _ u \<Rightarrow> Some u | _ \<Rightarrow> None)"

text \<open>\<open>do_events\<close> makes the steps of some events one after the other.\<close>

fun do_events :: "lifecycle_timing \<Rightarrow> lc_event list \<Rightarrow> sys \<Rightarrow> sys option" where
  "do_events tm [] s = Some s"
| "do_events tm (ev # evs) s = (case lc_do tm ev s of None \<Rightarrow> None | Some s' \<Rightarrow> do_events tm evs s')"

text \<open>The events of a task's next piece of code, and what its call does to the outside.\<close>

definition piece :: "'e ports \<Rightarrow> nat \<Rightarrow> 'e runtime \<Rightarrow> lc_event list \<times> 'e" where
  "piece P i rt = (let s = rt_sys rt; w = \<lparr>clock = sy_clock s, env = rt_env rt\<rparr>;
       call_of = (\<lambda>ob. case ask P ob w of (a, w') \<Rightarrow>
          ([Tick (clock w' - clock w), Reply i (now P w') a (rt_next rt)], env w'))
     in case sy_tasks s i of
          TObserve ob v \<Rightarrow> call_of ob
        | BObserve dl ob \<Rightarrow> call_of ob
        | BStart \<Rightarrow> ([Boot i (now P w)], rt_env rt)
        | TSleep v dl _ \<Rightarrow> ([if v < co_version (sy_core s) then Run i else TimeUp i], rt_env rt)
        | _ \<Rightarrow> ([Run i], rt_env rt))"

definition turn :: "'e ports \<Rightarrow> lifecycle_timing \<Rightarrow> nat \<Rightarrow> 'e runtime \<Rightarrow> 'e runtime option" where
  "turn P tm i rt = (case piece P i rt of (evs, e) \<Rightarrow>
     (case do_events tm evs (rt_sys rt) of None \<Rightarrow> None
      | Some s' \<Rightarrow> Some \<lparr>rt_sys = s', rt_env = e, rt_current = i,
          rt_next = (if is_idle (sy_tasks s' (rt_next rt)) then rt_next rt else Suc (rt_next rt))\<rparr>))"

definition pick :: "'e runtime \<Rightarrow> nat option" where
  "pick rt = (if runnable (rt_sys rt) (rt_current rt) then Some (rt_current rt)
     else List.find (runnable (rt_sys rt)) [0..<rt_next rt])"

definition next_timer :: "'e runtime \<Rightarrow> nat option" where
  "next_timer rt = (case List.map_filter (\<lambda>i. timer (sy_tasks (rt_sys rt) i)) [0..<rt_next rt] of
       [] \<Rightarrow> None | t # ts \<Rightarrow> Some (fold min ts t))"

definition move_clock :: "nat \<Rightarrow> 'e runtime \<Rightarrow> 'e runtime" where
  "move_clock t rt = rt\<lparr>rt_sys := (rt_sys rt)\<lparr>sy_clock := sy_clock (rt_sys rt) + (t - sy_clock (rt_sys rt))\<rparr>\<rparr>"

text \<open>Run until nothing is left to do before the horizon; \<open>None\<close> if the fuel does not suffice.\<close>

fun run_until :: "nat \<Rightarrow> 'e ports \<Rightarrow> lifecycle_timing \<Rightarrow> nat \<Rightarrow> 'e runtime \<Rightarrow> 'e runtime option" where
  "run_until 0 P tm horizon rt = None"
| "run_until (Suc fuel) P tm horizon rt = (case pick rt of
       Some i \<Rightarrow> (case turn P tm i rt of None \<Rightarrow> None | Some rt' \<Rightarrow> run_until fuel P tm horizon rt')
     | None \<Rightarrow> (case next_timer rt of
          None \<Rightarrow> Some (move_clock horizon rt)
        | Some t \<Rightarrow> if t \<le> horizon then run_until fuel P tm horizon (move_clock t rt)
            else Some (move_clock horizon rt)))"

definition spawn_request :: "lifecycle_timing \<Rightarrow> lifecycle_request \<Rightarrow> 'e runtime \<Rightarrow> 'e runtime" where
  "spawn_request tm r rt = rt\<lparr>rt_sys := set_task (rt_next rt) (TStart r) (rt_sys rt), rt_next := Suc (rt_next rt)\<rparr>"

lemma do_events_steps: "do_events tm evs s = Some s' \<Longrightarrow> (lc_step tm)\<^sup>*\<^sup>* s s'"
  by (induction evs arbitrary: s)
    (auto split: option.splits intro: converse_rtranclp_into_rtranclp lc_do_step)

lemma turn_steps: "turn P tm i rt = Some rt' \<Longrightarrow> (lc_step tm)\<^sup>*\<^sup>* (rt_sys rt) (rt_sys rt')"
  by (auto simp: turn_def dest: do_events_steps split: prod.splits option.splits)

lemma move_clock_step: "lc_step tm (rt_sys rt) (rt_sys (move_clock t rt))"
  by (simp add: move_clock_def lc_step.tick)

theorem run_until_steps:
  "run_until fuel P tm horizon rt = Some rt' \<Longrightarrow> (lc_step tm)\<^sup>*\<^sup>* (rt_sys rt) (rt_sys rt')"
proof (induction fuel arbitrary: rt)
  case 0
  then show ?case by simp
next
  case (Suc fuel)
  note IH = Suc.IH
  show ?case
  proof (cases "pick rt")
    case (Some i)
    with Suc.prems obtain rt1 where "turn P tm i rt = Some rt1" "run_until fuel P tm horizon rt1 = Some rt'"
      by (auto split: option.splits)
    with IH turn_steps show ?thesis by (meson rtranclp_trans)
  next
    case None
    have moved: "lc_step tm (rt_sys rt) (rt_sys (move_clock t rt))" for t by (rule move_clock_step)
    from Suc.prems None show ?thesis
      by (auto split: option.splits if_splits dest: IH
          intro: converse_rtranclp_into_rtranclp [of "lc_step tm", OF moved] r_into_rtranclp [of "lc_step tm", OF moved])
  qed
qed

end
