(* ===== verification/Lifecycle_Tests.thy ===== *)
theory Lifecycle_Tests
  imports Lifecycle_Exec
begin

text \<open>
  The unit tests of the lifecycle manager (\<open>lifecycle.rs\<close>, module \<open>tests\<close>), run on the
  model with the tests' own fakes. A test that only looks at the decision of one request that
  does not wait runs on \<open>ensure_backend\<close> of \<open>Lifecycle\<close>, whatever happens around it; a test with
  several requests, a background bootstrap or a sleep runs on the runtime of \<open>Lifecycle_Exec\<close>.
\<close>

section \<open>Fakes\<close>

definition FAKE_NOW :: u64 where
  "FAKE_NOW = 1717156800"

definition warming_backend :: observed_backend_state where
  "warming_backend = \<lparr>ob_lifecycle = LsWarming, ob_chat = CsReady, ob_embeddings = CsReady,
     ob_embeddings_reason = None, ob_error = None, ob_llama_server_unit = UsActivating,
     ob_inhibit_unit = UsActivating\<rparr>"

definition ready_backend :: observed_backend_state where
  "ready_backend = \<lparr>ob_lifecycle = LsReady, ob_chat = CsReady, ob_embeddings = CsReady,
     ob_embeddings_reason = None, ob_error = None, ob_llama_server_unit = UsActive,
     ob_inhibit_unit = UsActive\<rparr>"

definition error_backend :: "string \<Rightarrow> observed_backend_state" where
  "error_backend message = \<lparr>ob_lifecycle = LsError, ob_chat = CsReady, ob_embeddings = CsReady,
     ob_embeddings_reason = None, ob_error = Some message, ob_llama_server_unit = UsFailed,
     ob_inhibit_unit = UsUnknown\<rparr>"

definition fast_warming_timing :: lifecycle_timing where
  "fast_warming_timing = \<lparr>cold_wait_budget_secs = 0, hard_boot_deadline_secs = 1,
     bootstrap_poll_interval_millis = 10, retry_after_secs = 10\<rparr>"

text \<open>The state behind the four fakes: what they answer and what they have been asked.\<close>

record fakes =
  fk_wake_error :: "lifecycle_error option"
  fk_wake_calls :: "lifecycle_request list"
  fk_ssh_ready :: bool
  fk_observed :: observed_backend_state
  fk_helper_calls :: "lifecycle_request list"
  fk_tunnel_state :: tunnel_state
  fk_tunnel_calls :: nat

definition fakes_new :: "lifecycle_error option \<Rightarrow> bool \<Rightarrow> observed_backend_state \<Rightarrow> tunnel_state \<Rightarrow> fakes" where
  "fakes_new wake_error ssh_ready observed tunnel = \<lparr>fk_wake_error = wake_error, fk_wake_calls = [],
     fk_ssh_ready = ssh_ready, fk_observed = observed, fk_helper_calls = [],
     fk_tunnel_state = tunnel, fk_tunnel_calls = 0\<rparr>"

definition fake_request_wake :: "lifecycle_request \<Rightarrow> (fakes, (lifecycle_error, unit) res) ext_call" where
  "fake_request_wake r f = (case fk_wake_error f of None \<Rightarrow> Ok () | Some e \<Rightarrow> Err e, 0,
     f\<lparr>fk_wake_calls := fk_wake_calls f @ [r]\<rparr>)"

definition fake_is_ready :: "(fakes, (lifecycle_error, bool) res) ext_call" where
  "fake_is_ready f = (Ok (fk_ssh_ready f), 0, f)"

definition fake_observe_backend ::
  "lifecycle_request \<Rightarrow> (fakes, (lifecycle_error, observed_backend_state) res) ext_call" where
  "fake_observe_backend r f = (Ok (fk_observed f), 0, f\<lparr>fk_helper_calls := fk_helper_calls f @ [r]\<rparr>)"

definition fake_ensure_tunnel :: "(fakes, (lifecycle_error, tunnel_state) res) ext_call" where
  "fake_ensure_tunnel f = (Ok (fk_tunnel_state f), 0, f\<lparr>fk_tunnel_calls := fk_tunnel_calls f + 1\<rparr>)"

definition fake_ports :: "fakes ports" where
  "fake_ports = \<lparr>request_wake = fake_request_wake, is_ready = fake_is_ready,
     observe_backend = fake_observe_backend, ensure_tunnel = fake_ensure_tunnel, now = (\<lambda>_. FAKE_NOW)\<rparr>"

definition ready_snapshot :: backend_status where
  "ready_snapshot = backend_status_default\<lparr>bs_lifecycle := LsReady, bs_tunnel := TsReady\<rparr>"

definition error_snapshot :: backend_status where
  "error_snapshot = backend_status_default\<lparr>bs_lifecycle := LsError, bs_tunnel := TsDown\<rparr>"

section \<open>Tests with one request that does not wait\<close>

text \<open>The decision, the status published last, and the fakes afterwards.\<close>

definition ensured ::
  "lifecycle_timing \<Rightarrow> fakes surroundings \<Rightarrow> backend_status \<Rightarrow> fakes \<Rightarrow> lifecycle_request
   \<Rightarrow> (lifecycle_decision \<Rightarrow> backend_status \<Rightarrow> fakes \<Rightarrow> bool) \<Rightarrow> bool" where
  "ensured tm around initial f r P =
     (case ensure_backend fake_ports tm around r (core_new initial, \<lparr>clock = 0, env = f\<rparr>) of
        (decision, c, w) \<Rightarrow> P decision (co_status c) (env w))"

definition ready_such_that :: "lifecycle_decision \<Rightarrow> (backend_status \<Rightarrow> bool) \<Rightarrow> bool" where
  "ready_such_that d P = (case d of DReady st \<Rightarrow> P st | _ \<Rightarrow> False)"

definition warming_such_that :: "lifecycle_decision \<Rightarrow> (backend_status \<Rightarrow> u64 \<Rightarrow> bool) \<Rightarrow> bool" where
  "warming_such_that d P = (case d of DWarming st n \<Rightarrow> P st n | _ \<Rightarrow> False)"

definition failed_such_that :: "lifecycle_decision \<Rightarrow> (backend_status \<Rightarrow> lifecycle_error \<Rightarrow> bool) \<Rightarrow> bool" where
  "failed_such_that d P = (case d of DFailed st e \<Rightarrow> P st e | _ \<Rightarrow> False)"

definition ready_backend_can_be_reached_with_fake_ports_only ::
  "lifecycle_timing \<Rightarrow> fakes surroundings \<Rightarrow> bool" where
  "ready_backend_can_be_reached_with_fake_ports_only tm around =
     ensured tm around backend_status_default (fakes_new None True ready_backend TsReady) Embeddings
       (\<lambda>decision latest f.
          ready_such_that decision (\<lambda>st. bs_lifecycle st = LsReady \<and> bs_tunnel st = TsReady
            \<and> bs_llama_server_unit st = UsActive \<and> bs_inhibit_unit st = UsActive)
          \<and> bs_lifecycle latest = LsReady \<and> bs_tunnel latest = TsReady)"

definition wake_failures_publish_error_without_touching_real_dependencies ::
  "lifecycle_timing \<Rightarrow> fakes surroundings \<Rightarrow> bool" where
  "wake_failures_publish_error_without_touching_real_dependencies tm around =
     ensured tm around backend_status_default
       (fakes_new (Some (LifecycleError ''wake failed'')) False warming_backend TsDown) Chat
       (\<lambda>decision latest f.
          failed_such_that decision (\<lambda>st error. bs_lifecycle st = LsError \<and> le_message error = ''wake failed''
            \<and> bs_last_wake_attempt_at st = Some FAKE_NOW)
          \<and> bs_lifecycle latest = LsError \<and> bs_last_wake_attempt_at latest = Some FAKE_NOW)"

definition helper_reported_error_returns_failed_decision ::
  "lifecycle_timing \<Rightarrow> fakes surroundings \<Rightarrow> bool" where
  "helper_reported_error_returns_failed_decision tm around =
     ensured tm around backend_status_default
       (fakes_new None True (error_backend ''helper reported backend failure'') TsReady) Chat
       (\<lambda>decision latest f.
          failed_such_that decision (\<lambda>st error. bs_lifecycle st = LsError \<and> bs_tunnel st = TsDown
            \<and> le_message error = ''helper reported backend failure'')
          \<and> bs_lifecycle latest = LsError \<and> bs_tunnel latest = TsDown)"

definition ssh_not_ready_republishes_warming_state_from_ready_snapshot ::
  "fakes surroundings \<Rightarrow> bool" where
  "ssh_not_ready_republishes_warming_state_from_ready_snapshot around =
     ensured fast_warming_timing around ready_snapshot (fakes_new None False warming_backend TsReady) Chat
       (\<lambda>decision latest f.
          ready_such_that decision (\<lambda>st. bs_lifecycle st = LsReady \<and> bs_tunnel st = TsReady)
          \<and> bs_lifecycle latest = LsReady \<and> bs_tunnel latest = TsReady
          \<and> length (fk_wake_calls f) = 0)"

definition warm_backend_reuses_existing_readiness_without_requesting_wake_or_observe ::
  "lifecycle_timing \<Rightarrow> fakes surroundings \<Rightarrow> bool" where
  "warm_backend_reuses_existing_readiness_without_requesting_wake_or_observe tm around =
     ensured tm around ready_snapshot (fakes_new None True ready_backend TsReady) Chat
       (\<lambda>decision latest f.
          ready_such_that decision (\<lambda>st. bs_lifecycle st = LsReady \<and> bs_tunnel st = TsReady)
          \<and> length (fk_wake_calls f) = 0 \<and> length (fk_helper_calls f) = 0 \<and> fk_tunnel_calls f = 0
          \<and> bs_lifecycle latest = LsReady)"

definition restart_rediscovery_adopts_ready_backend_and_creates_fresh_tunnel ::
  "lifecycle_timing \<Rightarrow> fakes surroundings \<Rightarrow> bool" where
  "restart_rediscovery_adopts_ready_backend_and_creates_fresh_tunnel tm around =
     ensured tm around backend_status_default (fakes_new None True ready_backend TsReady) Chat
       (\<lambda>decision latest f.
          ready_such_that decision (\<lambda>st. bs_lifecycle st = LsReady \<and> bs_tunnel st = TsReady
            \<and> bs_llama_server_unit st = UsActive \<and> bs_inhibit_unit st = UsActive)
          \<and> length (fk_wake_calls f) = 0 \<and> fk_tunnel_calls f = 1
          \<and> bs_lifecycle latest = LsReady)"

definition single_tests :: "lifecycle_timing \<Rightarrow> fakes surroundings \<Rightarrow> bool list" where
  "single_tests tm around = [ready_backend_can_be_reached_with_fake_ports_only tm around,
     wake_failures_publish_error_without_touching_real_dependencies tm around,
     helper_reported_error_returns_failed_decision tm around,
     ssh_not_ready_republishes_warming_state_from_ready_snapshot around,
     warm_backend_reuses_existing_readiness_without_requesting_wake_or_observe tm around,
     restart_rediscovery_adopts_ready_backend_and_creates_fresh_tunnel tm around]"

lemmas fake_defs = fake_ports_def fake_request_wake_def fake_is_ready_def fake_observe_backend_def
  fake_ensure_tunnel_def fakes_new_def warming_backend_def ready_backend_def error_backend_def
  ready_snapshot_def error_snapshot_def

lemma single_tests_pass: "all_pass (single_tests tm around)"
  by (simp add: single_tests_def ready_backend_can_be_reached_with_fake_ports_only_def
      wake_failures_publish_error_without_touching_real_dependencies_def
      helper_reported_error_returns_failed_decision_def
      ssh_not_ready_republishes_warming_state_from_ready_snapshot_def
      warm_backend_reuses_existing_readiness_without_requesting_wake_or_observe_def
      restart_rediscovery_adopts_ready_backend_and_creates_fresh_tunnel_def
      ensured_def ensure_backend_def fake_defs core_new_def bootstrap_default_def backend_status_default_def
      backend_is_ready_def start_or_join_idle Let_def observe_once_def call_def apply_observed_def
      observe_tunnel_def observe_unreachable_def opt_filter_def should_request_wake_def publish_def
      finish_bootstrap_def ready_such_that_def failed_such_that_def unwrap_or_def failed_status_def)

section \<open>Tests on the runtime\<close>

text \<open>
  \<open>tokio::join!\<close> of requests to a new manager, run to the horizon (in milliseconds); an
  assertion looks at the tasks' decisions, the published status and the fakes. The fuel is a
  bound on the pieces of code that run.
\<close>

definition joined ::
  "lifecycle_timing \<Rightarrow> backend_status \<Rightarrow> fakes \<Rightarrow> lifecycle_request list \<Rightarrow> nat \<Rightarrow> fakes runtime option" where
  "joined tm initial f rs horizon =
     run_until 200 fake_ports tm horizon (fold (spawn_request tm) rs (rt_init initial f))"

definition decision_of :: "fakes runtime \<Rightarrow> nat \<Rightarrow> lifecycle_decision option" where
  "decision_of rt i = (case sy_tasks (rt_sys rt) i of TDone d \<Rightarrow> Some d | _ \<Rightarrow> None)"

definition published_status :: "fakes runtime \<Rightarrow> backend_status" where
  "published_status rt = co_status (sy_core (rt_sys rt))"

definition toggle_ready :: "fakes runtime \<Rightarrow> fakes runtime" where
  \<comment> \<open>\<open>ssh.set_ready(true)\<close> and \<open>helper.set_observed(..)\<close>\<close>
  "toggle_ready rt = rt\<lparr>rt_env := (rt_env rt)\<lparr>fk_ssh_ready := True, fk_observed := ready_backend\<rparr>\<rparr>"

definition is_DReady :: "lifecycle_decision \<Rightarrow> bool" where
  "is_DReady d = ready_such_that d (\<lambda>_. True)"

definition is_DWarming :: "lifecycle_decision \<Rightarrow> bool" where
  "is_DWarming d = warming_such_that d (\<lambda>_ _. True)"

definition cold_request_marks_backend_warming_using_only_fakes :: bool where
  "cold_request_marks_backend_warming_using_only_fakes =
     unwrapped (joined fast_warming_timing backend_status_default
         (fakes_new None False warming_backend TsDown) [Chat] 0) (\<lambda>rt.
       unwrapped (decision_of rt 0) (\<lambda>decision. warming_such_that decision (\<lambda>st retry_after.
         retry_after = 10 \<and> bs_lifecycle st = LsWarming \<and> bs_last_wake_attempt_at st = Some FAKE_NOW))
       \<and> bs_lifecycle (published_status rt) = LsWarming
       \<and> bs_last_wake_attempt_at (published_status rt) = Some FAKE_NOW)"

definition second_budget :: lifecycle_timing where
  "second_budget = \<lparr>cold_wait_budget_secs = 1, hard_boot_deadline_secs = 1,
     bootstrap_poll_interval_millis = 10, retry_after_secs = 10\<rparr>"

text \<open>
  The toggler wakes up after 20 ms, as the background bootstrap does: it comes before
  (\<open>horizon\<close> 19) or after (20) the bootstrap's second look.
\<close>

definition joined_with_toggler :: "lifecycle_request list \<Rightarrow> nat \<Rightarrow> fakes runtime option" where
  "joined_with_toggler rs horizon =
     (case joined second_budget backend_status_default (fakes_new None False warming_backend TsReady) rs horizon of
        None \<Rightarrow> None
      | Some rt \<Rightarrow> run_until 200 fake_ports second_budget 900 (toggle_ready rt))"

definition concurrent_cold_requests_share_a_single_bootstrap_and_return_ready :: "nat \<Rightarrow> bool" where
  "concurrent_cold_requests_share_a_single_bootstrap_and_return_ready horizon =
     unwrapped (joined_with_toggler [Chat, Embeddings] horizon) (\<lambda>rt.
       unwrapped (decision_of rt 0) is_DReady
       \<and> unwrapped (decision_of rt 1) is_DReady
       \<and> length (fk_wake_calls (rt_env rt)) = 1
       \<and> fk_wake_calls (rt_env rt) = [Chat]
       \<and> length (fk_helper_calls (rt_env rt)) = 1
       \<and> fk_helper_calls (rt_env rt) = [Embeddings]
       \<and> bs_tunnel (published_status rt) = TsReady)"

definition embeddings_led_bootstrap_observes_embeddings_request_kind :: "nat \<Rightarrow> bool" where
  "embeddings_led_bootstrap_observes_embeddings_request_kind horizon =
     unwrapped (joined_with_toggler [Embeddings, Chat] horizon) (\<lambda>rt.
       unwrapped (decision_of rt 0) is_DReady
       \<and> unwrapped (decision_of rt 1) is_DReady
       \<and> fk_wake_calls (rt_env rt) = [Embeddings]
       \<and> fk_helper_calls (rt_env rt) = [Embeddings])"

definition error_snapshot_retries_wake_when_ssh_is_not_ready :: bool where
  "error_snapshot_retries_wake_when_ssh_is_not_ready =
     unwrapped (joined fast_warming_timing error_snapshot (fakes_new None False warming_backend TsDown) [Chat] 0) (\<lambda>rt.
       unwrapped (decision_of rt 0) (\<lambda>decision. warming_such_that decision (\<lambda>st _.
         bs_lifecycle st = LsWarming \<and> bs_tunnel st = TsDown))
       \<and> bs_lifecycle (published_status rt) = LsWarming
       \<and> length (fk_wake_calls (rt_env rt)) = 1)"

definition concurrent_warm_requests_do_not_join_bootstrap_wait_path :: "lifecycle_timing \<Rightarrow> bool" where
  "concurrent_warm_requests_do_not_join_bootstrap_wait_path tm =
     unwrapped (joined tm ready_snapshot (fakes_new None True ready_backend TsReady) [Chat, Embeddings] 0) (\<lambda>rt.
       unwrapped (decision_of rt 0) is_DReady
       \<and> unwrapped (decision_of rt 1) is_DReady
       \<and> length (fk_wake_calls (rt_env rt)) = 0
       \<and> length (fk_helper_calls (rt_env rt)) = 0
       \<and> fk_tunnel_calls (rt_env rt) = 0)"

definition request_times_out_but_background_bootstrap_keeps_running :: bool where
  "request_times_out_but_background_bootstrap_keeps_running =
     unwrapped (joined fast_warming_timing backend_status_default
         (fakes_new None False warming_backend TsReady) [Chat] 0) (\<lambda>rt.
       unwrapped (decision_of rt 0) is_DWarming
       \<and> unwrapped (run_until 200 fake_ports fast_warming_timing 30 (toggle_ready rt)) (\<lambda>rt.
           bs_lifecycle (published_status rt) = LsReady
           \<and> bs_tunnel (published_status rt) = TsReady
           \<and> length (fk_wake_calls (rt_env rt)) = 1))"

definition background_bootstrap_fails_at_hard_deadline_after_request_timeout :: bool where
  "background_bootstrap_fails_at_hard_deadline_after_request_timeout =
     (let timing = \<lparr>cold_wait_budget_secs = 0, hard_boot_deadline_secs = 0,
            bootstrap_poll_interval_millis = 1, retry_after_secs = 10\<rparr> in
      unwrapped (joined timing backend_status_default (fakes_new None False warming_backend TsReady) [Chat] 0) (\<lambda>rt.
        unwrapped (decision_of rt 0) is_DWarming
        \<and> unwrapped (run_until 200 fake_ports timing 20 rt) (\<lambda>rt.
            bs_lifecycle (published_status rt) = LsError
            \<and> bs_tunnel (published_status rt) = TsDown)))"

definition joiner_does_not_observe_stale_ready_during_retry_bootstrap :: bool where
  "joiner_does_not_observe_stale_ready_during_retry_bootstrap =
     unwrapped (joined fast_warming_timing ready_snapshot (fakes_new None False warming_backend TsDown) [Chat, Embeddings] 0) (\<lambda>rt.
       unwrapped (decision_of rt 0) is_DReady
       \<and> unwrapped (decision_of rt 1) is_DReady
       \<and> length (fk_wake_calls (rt_env rt)) = 0)"

definition joiner_does_not_observe_stale_error_during_retry_bootstrap :: bool where
  "joiner_does_not_observe_stale_error_during_retry_bootstrap =
     unwrapped (joined fast_warming_timing error_snapshot (fakes_new None False warming_backend TsDown) [Chat, Embeddings] 0) (\<lambda>rt.
       unwrapped (decision_of rt 0) is_DWarming
       \<and> unwrapped (decision_of rt 1) is_DWarming
       \<and> length (fk_wake_calls (rt_env rt)) = 1)"

definition concurrent_waiters_receive_specific_boot_deadline_failure_reason :: bool where
  "concurrent_waiters_receive_specific_boot_deadline_failure_reason =
     (let timing = \<lparr>cold_wait_budget_secs = 1, hard_boot_deadline_secs = 0,
            bootstrap_poll_interval_millis = 1, retry_after_secs = 10\<rparr>;
          expected = ''backend did not become ready before the boot deadline'' in
      unwrapped (joined timing backend_status_default (fakes_new None False warming_backend TsReady) [Chat, Embeddings] 900) (\<lambda>rt.
        unwrapped (decision_of rt 0) (\<lambda>first. failed_such_that first (\<lambda>_ error. le_message error = expected))
        \<and> unwrapped (decision_of rt 1) (\<lambda>second. failed_such_that second (\<lambda>_ error. le_message error = expected))))"

definition runtime_tests :: "lifecycle_timing \<Rightarrow> bool list" where
  "runtime_tests tm = [cold_request_marks_backend_warming_using_only_fakes,
     concurrent_cold_requests_share_a_single_bootstrap_and_return_ready 19,
     concurrent_cold_requests_share_a_single_bootstrap_and_return_ready 20,
     embeddings_led_bootstrap_observes_embeddings_request_kind 19,
     embeddings_led_bootstrap_observes_embeddings_request_kind 20,
     error_snapshot_retries_wake_when_ssh_is_not_ready,
     concurrent_warm_requests_do_not_join_bootstrap_wait_path tm,
     request_times_out_but_background_bootstrap_keeps_running,
     background_bootstrap_fails_at_hard_deadline_after_request_timeout,
     joiner_does_not_observe_stale_ready_during_retry_bootstrap,
     joiner_does_not_observe_stale_error_during_retry_bootstrap,
     concurrent_waiters_receive_specific_boot_deadline_failure_reason]"

definition lifecycle_tests :: "lifecycle_timing \<Rightarrow> fakes surroundings \<Rightarrow> bool list" where
  "lifecycle_tests tm around = single_tests tm around @ runtime_tests tm"

section \<open>All tests pass\<close>

text \<open>
  The runs are evaluated by the simplifier: numbers stay numerals, and the updates of a task's
  state collapse.
\<close>

lemma run_until_numeral:
  "run_until (numeral k) P tm horizon rt = (case pick rt of
       Some i \<Rightarrow> (case turn P tm i rt of
           None \<Rightarrow> None
         | Some rt' \<Rightarrow> run_until (pred_numeral k) P tm horizon rt')
     | None \<Rightarrow> (case next_timer rt of
          None \<Rightarrow> Some (move_clock horizon rt)
        | Some t \<Rightarrow> if t \<le> horizon then run_until (pred_numeral k) P tm horizon (move_clock t rt)
            else Some (move_clock horizon rt)))"
  by (simp add: numeral_eq_Suc)

lemmas runtime_defs = run_until_numeral pick_def turn_def piece_def next_timer_def move_clock_def
  runnable_def timer_def is_idle_def Let_def lc_do_def advance_request_def advance_boot_def reply_def
  ask_def obs_step_def joined_def spawn_request_def rt_init_def List.map_filter_def
  upt_rec [of _ "numeral _"]

lemmas manager_defs = sys_init_def core_new_def bootstrap_default_def start_or_join_idle start_or_join_busy
  obs_init_def obs_warming_def backend_status_default_def backend_is_ready_def call_def wait_check_def
  view_at_def stale_view_def publish_def finish_bootstrap_def boot_deadline_at_def
  should_request_wake_def sat_add_def sat_sub_def unwrap_or_def request_priority_def
  bootstrap_wait_status_def wake_sent_def failed_status_def deadline_error_def
  apply_observed_def

lemmas fake_test_defs = fake_defs FAKE_NOW_def second_budget_def fast_warming_timing_def decision_of_def
  published_status_def toggle_ready_def is_DReady_def is_DWarming_def ready_such_that_def
  warming_such_that_def failed_such_that_def joined_with_toggler_def

lemma cold_request_marks_backend_warming_using_only_fakes_passes: "cold_request_marks_backend_warming_using_only_fakes"
  by (simp add: cold_request_marks_backend_warming_using_only_fakes_def runtime_defs manager_defs fake_test_defs)

lemma concurrent_cold_requests_share_a_single_bootstrap_and_return_ready_19_passes: "concurrent_cold_requests_share_a_single_bootstrap_and_return_ready 19"
  by (simp add: concurrent_cold_requests_share_a_single_bootstrap_and_return_ready_def runtime_defs manager_defs fake_test_defs)

lemma concurrent_cold_requests_share_a_single_bootstrap_and_return_ready_20_passes: "concurrent_cold_requests_share_a_single_bootstrap_and_return_ready 20"
  by (simp add: concurrent_cold_requests_share_a_single_bootstrap_and_return_ready_def runtime_defs manager_defs fake_test_defs)

lemma embeddings_led_bootstrap_observes_embeddings_request_kind_19_passes: "embeddings_led_bootstrap_observes_embeddings_request_kind 19"
  by (simp add: embeddings_led_bootstrap_observes_embeddings_request_kind_def runtime_defs manager_defs fake_test_defs)

lemma embeddings_led_bootstrap_observes_embeddings_request_kind_20_passes: "embeddings_led_bootstrap_observes_embeddings_request_kind 20"
  by (simp add: embeddings_led_bootstrap_observes_embeddings_request_kind_def runtime_defs manager_defs fake_test_defs)

lemma error_snapshot_retries_wake_when_ssh_is_not_ready_passes: "error_snapshot_retries_wake_when_ssh_is_not_ready"
  by (simp add: error_snapshot_retries_wake_when_ssh_is_not_ready_def runtime_defs manager_defs fake_test_defs)

lemma concurrent_warm_requests_do_not_join_bootstrap_wait_path_passes: "concurrent_warm_requests_do_not_join_bootstrap_wait_path tm"
  by (simp add: concurrent_warm_requests_do_not_join_bootstrap_wait_path_def runtime_defs manager_defs fake_test_defs)

lemma request_times_out_but_background_bootstrap_keeps_running_passes: "request_times_out_but_background_bootstrap_keeps_running"
  by (simp add: request_times_out_but_background_bootstrap_keeps_running_def runtime_defs manager_defs fake_test_defs)

lemma background_bootstrap_fails_at_hard_deadline_after_request_timeout_passes: "background_bootstrap_fails_at_hard_deadline_after_request_timeout"
  by (simp add: background_bootstrap_fails_at_hard_deadline_after_request_timeout_def runtime_defs manager_defs fake_test_defs)

lemma joiner_does_not_observe_stale_ready_during_retry_bootstrap_passes: "joiner_does_not_observe_stale_ready_during_retry_bootstrap"
  by (simp add: joiner_does_not_observe_stale_ready_during_retry_bootstrap_def runtime_defs manager_defs fake_test_defs)

lemma joiner_does_not_observe_stale_error_during_retry_bootstrap_passes: "joiner_does_not_observe_stale_error_during_retry_bootstrap"
  by (simp add: joiner_does_not_observe_stale_error_during_retry_bootstrap_def runtime_defs manager_defs fake_test_defs)

lemma concurrent_waiters_receive_specific_boot_deadline_failure_reason_passes: "concurrent_waiters_receive_specific_boot_deadline_failure_reason"
  by (simp add: concurrent_waiters_receive_specific_boot_deadline_failure_reason_def runtime_defs manager_defs fake_test_defs)

lemmas runtime_tests_passes =
  cold_request_marks_backend_warming_using_only_fakes_passes
  concurrent_cold_requests_share_a_single_bootstrap_and_return_ready_19_passes
  concurrent_cold_requests_share_a_single_bootstrap_and_return_ready_20_passes
  embeddings_led_bootstrap_observes_embeddings_request_kind_19_passes
  embeddings_led_bootstrap_observes_embeddings_request_kind_20_passes
  error_snapshot_retries_wake_when_ssh_is_not_ready_passes
  concurrent_warm_requests_do_not_join_bootstrap_wait_path_passes
  request_times_out_but_background_bootstrap_keeps_running_passes
  background_bootstrap_fails_at_hard_deadline_after_request_timeout_passes
  joiner_does_not_observe_stale_ready_during_retry_bootstrap_passes
  joiner_does_not_observe_stale_error_during_retry_bootstrap_passes
  concurrent_waiters_receive_specific_boot_deadline_failure_reason_passes

lemma lifecycle_tests_pass: "all_pass (lifecycle_tests tm around)"
  using single_tests_pass [of tm around]
  by (simp add: lifecycle_tests_def runtime_tests_def runtime_tests_passes)

end
