(* ===== verification/Unit_Tests.thy ===== *)
theory Unit_Tests
  imports Helper_Tests App_Tests Lifecycle_Tests
begin

text \<open>
  All unit tests of the repository, together: the eight test modules as they run on the model,
  for any behaviour of the libraries that is documented for the inputs of the tests, any time
  at which they start, and anything that happens around the requests that do not wait.
\<close>

section \<open>The suite\<close>

text \<open>
  The tests that write the process environment are run in a given order from a given
  environment; the monotonic clock of the helper's tests stands at \<open>at\<close> milliseconds.
\<close>

definition unit_tests ::
  "'e bench \<Rightarrow> nat \<Rightarrow> u16 \<Rightarrow> fakes surroundings \<Rightarrow> env_test list \<Rightarrow> environment \<Rightarrow> bool list" where
  "unit_tests B at port around ts e =
     (let L = be_libs B in
      helper_tests (json_parse L) at
      @ [run_tests ts e] @ host_tests
      @ scheduler_tests @ forward_tests (json_parse L) (json_print L)
      @ lifecycle_tests (be_timing B) around
      @ orchestrate_tests port L (be_world B)
      @ app_tests B)"

section \<open>They pass\<close>

text \<open>
  C14: The model passes the unit tests of the repository. Every test of the eight test modules
  holds on the model, provided the libraries do what is documented of them on the inputs of
  the tests (the JSON parser, printer and deserialisers on the texts of the tests, header
  values of digits) and the clock leaves room for the timeouts.
\<close>

theorem model_passes_unit_tests:
  assumes "documented_libs (be_libs B)" "documented_readers (be_readers B)"
    and "reads_models (json_parse (be_libs B))"
    and "rewrites_completions (json_parse (be_libs B)) (json_print (be_libs B)) ''my-custom-model''"
    and "at div 1000 + 60 < 2 ^ 63" "set ts \<subseteq> set env_tests"
  shows "all_pass (unit_tests B at port around ts e)"
  by (simp add: unit_tests_def Let_def helper_tests_pass [OF assms(3,5)] run_tests_pass [OF assms(6)]
      host_tests_pass scheduler_tests_pass forward_tests_pass [OF assms(4)] lifecycle_tests_pass
      orchestrate_tests_pass [OF assms(1)] app_tests_pass [OF assms(2,1)])

text \<open>Libraries that do so: tables of the texts of the tests and of the values they denote.\<close>

definition table_parse :: "string \<Rightarrow> (string, json) res" where
  "table_parse s = (case map_of
       ((completion_text, completion_value ''llama-3-8b'')
        # map (\<lambda>name. (models_text name, models_value name))
            [''/models/llama-3.2-3b.Q4_K_M.gguf'', ''/models/llama-3.1-8b.Q4_K_M.gguf'']
        @ map (\<lambda>name. (name, completion_value name)) [''my-custom-model'', ''proxy-model'']) s of
       None \<Rightarrow> Err ''expected value'' | Some v \<Rightarrow> Ok v)"

definition table_print :: "json \<Rightarrow> (string, string) res" where
  "table_print v = (case json_as_str (json_get v ''model'') of None \<Rightarrow> Err ''no'' | Some s \<Rightarrow> Ok s)"

definition table_libs :: "unit libs" where
  "table_libs = \<lparr>post_json = (\<lambda>_ _. at_once
       (Err \<lparr>is_connect = True, is_timeout = False, err_status = None, err_text = ''connection refused''\<rparr>)),
     json_parse = table_parse, json_print = table_print, header_value = Some\<rparr>"

definition chat_table :: "(bytes \<times> (string, chat_completion_request) res) list" where
  "chat_table = [
     (chat_json ''wrong'' user_hi [], Ok (chat_value ''wrong'' [hi_value])),
     (chat_json ''proxy-model'' [] [], Ok (chat_value ''proxy-model'' [])),
     (chat_json ''proxy-model'' user_hi '',\"temperature\":0.2'', Err (unknown_field_prefix @ ''temperature'' @ [CHR 0x60])),
     (chat_json ''proxy-model'' ''{\"role\":\"user\",\"content\":\"hi\",\"name\":\"extra\"}'' [],
        Err (unknown_field_prefix @ ''name'' @ [CHR 0x60])),
     (hi_body, Ok (chat_value ''proxy-model'' [hi_value])),
     (chat_json ''proxy-model'' (null_content @ ''}'') [],
        Ok (chat_value ''proxy-model'' [message_value ''assistant'' None None None])),
     (tool_calling_body, Ok tool_calling_value),
     (chat_json ''proxy-model'' ''{\"role\":\"tool\",\"content\":\"{}\"}'' [],
        Ok (chat_value ''proxy-model'' [message_value ''tool'' (Some (JString ''{}'')) None None])),
     (chat_json ''proxy-model'' (null_content @ '',\"tool_calls\":\"bad\"}'') [], Err ''invalid type''),
     (chat_json ''proxy-model'' user_hi '',\"tool_choice\":123'',
        Err ''data did not match any variant of untagged enum''),
     (chat_json ''proxy-model'' user_hi '',\"tool_choice\":\"banana\"'',
        Err ''data did not match any variant of untagged enum''),
     (chat_json ''proxy-model'' user_hi '',\"tools\":[{\"type\":\"custom\",\"function\":{\"name\":\"lookup\"}}]'',
        Err ''unknown variant''),
     (chat_json ''proxy-model'' (null_content @ '',\"tool_calls\":[]}'') [],
        Ok (chat_value ''proxy-model'' [message_value ''assistant'' None (Some []) None])),
     (chat_json ''proxy-model'' ''{\"role\":\"user\",\"content\":\"hi\",\"tool_calls\":[]}'' [],
        Ok (chat_value ''proxy-model'' [message_value ''user'' (Some (JString ''hi'')) (Some []) None])),
     (chat_json ''proxy-model'' ''{\"role\":\"assistant\",\"content\":\"hi\",\"tool_call_id\":\"call_1\"}'' [],
        Ok (chat_value ''proxy-model'' [message_value ''assistant'' (Some (JString ''hi'')) None (Some ''call_1'')]))]"

definition embeddings_table :: "(bytes \<times> (string, embeddings_request) res) list" where
  "embeddings_table = [
     (embeddings_json ''proxy-model'' ''null'', Ok \<lparr>em_model = ''proxy-model'', em_input = JNull\<rparr>),
     (embeddings_json ''proxy-model'' hello, Ok \<lparr>em_model = ''proxy-model'', em_input = JString ''hello''\<rparr>),
     (embeddings_json ''embed-model'' hello, Ok \<lparr>em_model = ''embed-model'', em_input = JString ''hello''\<rparr>),
     (embeddings_json ''proxy-model'' (hello @ '',\"encoding_format\":\"float\"''),
        Err (unknown_field_prefix @ ''encoding_format'' @ [CHR 0x60]))]"

definition table_readers :: readers where
  "table_readers = \<lparr>
     rd_chat = (\<lambda>b. case map_of chat_table b of None \<Rightarrow> Err ''eof'' | Some r \<Rightarrow> r),
     rd_embeddings = (\<lambda>b. case map_of embeddings_table b of None \<Rightarrow> Err ''eof'' | Some r \<Rightarrow> r)\<rparr>"

definition table_bench :: "unit bench" where
  "table_bench = \<lparr>be_libs = table_libs, be_readers = table_readers,
     be_fallback = (\<lambda>_. \<lparr>rs_status = 404, rs_content_type = [], rs_retry_after = None, rs_body = TextBody []\<rparr>),
     be_time = (\<lambda>_. 1717156800), be_timing = default_timing, be_around = no_surroundings,
     be_world = example_world\<rparr>"

lemma tables_documented: "documented_readers table_readers"
  by code_simp

text \<open>These readers deny unknown fields: the bodies that they accept have none.\<close>

lemma accepted_fields_known:
  "list_all (\<lambda>(b, r). isl r \<or> (case json_read_compact b of Inl _ \<Rightarrow> True | Inr v \<Rightarrow> chat_fields_known v)) chat_table"
  "list_all (\<lambda>(b, r). isl r \<or> (case json_read_compact b of Inl _ \<Rightarrow> True | Inr v \<Rightarrow> embeddings_fields_known v)) embeddings_table"
  by code_simp+

lemma table_readers_deny: "denies_unknown_fields json_read_compact table_readers"
  using accepted_fields_known unfolding denies_unknown_fields_def list_all_iff
  by (fastforce simp: table_readers_def  split: option.splits sum.splits dest: map_of_SomeD)

lemma unknown_message_field_read:
  "case json_read_compact (chat_json ''proxy-model'' ''{\"role\":\"user\",\"content\":\"hi\",\"name\":\"extra\"}'' []) of
     Inl _ \<Rightarrow> False | Inr v \<Rightarrow> \<not> chat_fields_known v"
  by code_simp

lemma table_libs_documented: "documented_libs table_libs"
  by code_simp

lemma table_reads_models: "reads_models table_parse"
  by code_simp

lemma table_rewrites: "rewrites_completions table_parse table_print ''my-custom-model''"
  by code_simp

theorem model_passes_unit_tests_witness:
  "all_pass (unit_tests table_bench 0 18080 no_surroundings env_tests Map.empty)"
proof -
  have libs: "be_libs table_bench = table_libs" "be_readers table_bench = table_readers"
    "json_parse table_libs = table_parse" "json_print table_libs = table_print"
    by (simp_all add: table_bench_def table_libs_def)
  show ?thesis
    by (rule model_passes_unit_tests)
      (simp_all add: libs tables_documented table_libs_documented table_reads_models table_rewrites)
qed

end
