(* ===== verification/Spec2Isabelle.thy ===== *)
theory Spec2Isabelle
  imports Proxy_Main Bootstrap Request_Liveness Unit_Tests
begin

text \<open>
  A model of llm-wake-proxy: a proxy that keeps a llama.cpp host asleep while it is idle,
  wakes it for a request, brings up an SSH tunnel and forwards OpenAI-style requests to it;
  and of the helper program that runs on that host. All paths are below \<open>src/src/\<close>.

  The parts and how they interact. A request enters a handler (\<open>app.rs\<close>), which checks it and
  hands it to the orchestrator (\<open>orchestrate.rs\<close>). The orchestrator asks the lifecycle manager
  of the request's kind (\<open>lifecycle.rs\<close>; the managers, the metrics and the limits are the
  shared state of \<open>state.rs\<close>) to make the backend ready. A manager runs at most one bootstrap:
  the first request observes the host (SSH probe, wake request, helper, tunnel; the ports of
  \<open>host.rs\<close>) and leaves a background task polling it, the others wait for the status to
  change. A ready backend's request goes through the warm execution scheduler
  (\<open>scheduler.rs\<close>) to the forwarder (\<open>forward.rs\<close>), which posts it through the tunnel and
  rewrites the model name in the answer. On the host the helper (\<open>helper.rs\<close>,
  \<open>bin/helper.rs\<close>) starts and verifies the model server and keeps the sleep inhibitor.

  The theories, in the order of their dependencies:
  \<^item> \<open>Prelude\<close>: results, saturating \<open>u64\<close> arithmetic, the world of sequential code (a clock in
    milliseconds and an environment), calls to the outside, the locale \<open>bounded_pool\<close>,
    interpreted on the queue tickets (\<open>Scheduler\<close>) and the cold-start permits (\<open>App_State\<close>),
    and the locale \<open>simulation\<close> of one step relation by another.
  \<^item> \<open>Rust_Text\<close>, \<open>Utf8\<close>: what the program uses of the standard library's strings (search,
    split, lines, parsing and printing of integers; decoding of UTF-8, strict and lossy). A
    string is the list of its bytes.
  \<^item> \<open>Metrics\<close>, \<open>Http_Error\<close>, \<open>Config\<close>: the files of these names. A panic of the
    configuration is an \<open>Inl\<close>, one of a response is \<open>None\<close>.
  \<^item> \<open>Lifecycle\<close>: the data and the code of one manager, run sequentially over its ports; the
    background loop is a partial function whose termination is proved. \<open>Lifecycle_System\<close>: the
    same code cut at its awaits, as a step relation on any number of tasks that share one
    manager, with drops of requests at every await. Its observation is proved to be
    \<open>observe_once\<close>. \<open>Bootstrap\<close>: the abstract machine of a bootstrap, which the manager refines.
    \<open>Lifecycle_Exec\<close>: the steps as a function of an event, and a runtime with virtual time.
    \<open>Lifecycle_Sequential\<close>: the sequential manager, with the bootstrap that its request spawns,
    is a run of the concurrent one.
  \<^item> \<open>Request_Cancellation\<close>: the cancellation handle, its two atomic operations apart, under any
    number of callers. \<open>Scheduler\<close>: the scheduler as a step relation on any number of requests,
    with drops, over a first-come first-served semaphore.
  \<^item> \<open>Json_Text\<close>: what is relied on of JSON texts, with a printer and a reader that do it.
    \<open>Forward\<close>: the two forwarders and the rewriting of model names.
  \<^item> \<open>Systemd\<close>, \<open>Helper\<close>, \<open>Helper_Main\<close>: the helper's services on \<open>systemctl\<close>, \<open>systemd-run\<close>
    and \<open>curl\<close>, its methods, and its command line.
  \<^item> \<open>Host\<close>: the proxy's ports on sockets and processes.
  \<^item> \<open>App_State\<close>: the shared state, and the two constructors that wire the ports and managers.
  \<^item> \<open>Orchestrate\<close>: one request, with the locale \<open>lifecycle_orchestrator\<close> for what it relies
    on of a manager, interpreted on both managers of the program.
  \<^item> \<open>Request_System\<close>: all requests at once, over both managers, the scheduler, the metrics and
    the cold-start permits, with disconnects at every await; its scheduler and managers make only steps of their own.
    \<open>Request_Runs\<close>: runs of it of any size. \<open>Request_Sequential\<close>: every history of requests
    that \<open>execute\<close> has one after the other, from the start of the proxy, is a run of it.
    \<open>Request_Liveness\<close>: in every state that the system can reach, each request that has not
    gone away can still be answered.
  \<^item> \<open>App\<close>: routes, extractors, handlers, request checks and JSON answers. \<open>Proxy_Main\<close>: the
    start of the program and a series of requests to it.
  \<^item> \<open>Helper_Json\<close>: the JSON of the helper's answers.
  \<^item> \<open>Config_Tests\<close>, \<open>Scheduler_Tests\<close>, \<open>Helper_Tests\<close>, \<open>Orchestrate_Tests\<close>, \<open>App_Tests\<close>,
    \<open>Lifecycle_Tests\<close>: the unit tests of the repository as Boolean definitions on the model,
    with their doubles, each proved to pass; \<open>Unit_Tests\<close> is all of them together.
  \<^item> This theory: the helper behind the proxy, and the configuration behind the handlers.

  What the lemmas show. For the lifecycle: one driver and one wake per bootstrap, coherence
  of what is published, termination of the bootstrap in a settled state, and what happens
  when the driving request is dropped (the manager never recovers) or the backend is lost
  (no wake request is sent). For the scheduler: permits and tickets are counted exactly,
  waiters are served in order, running operations are not cancelled. For a request: where
  its answer comes from, what each limit refuses and what it does not limit (streams, second
  posts, waiters on a boot), what is sent again; concurrently, that the orchestrator gives the
  scheduler back every permit and ticket, that no request is ever stuck, and that an abandoned
  manager ends the service. A cancellation is not missed, wherever it falls. For forwarding: lines
  are kept, aliases replaced, and when streaming agrees with rewriting the whole. For the
  helper and the host adapters: the contract of every answer, exit codes, bounded waiting,
  bounded leases, ownership of the tunnel's child, and what an observation can be. For the
  configuration and the handlers: which inputs are accepted, how the program starts, and that
  only acceptable requests touch the host. The sequential manager and the sequential
  orchestrator have no behaviour that the concurrent ones do not have. The step relations of the manager and of the
  scheduler are what their executable step functions compute, and the model passes the unit
  tests of the repository.

  Bounds and fuel. \<open>obs_run\<close> gets three answers, which is the longest chain of suspensions of
  an observation; the fuel of \<open>run_until\<close> counts pieces of code, and the tests that use it show
  a result, so 200 is enough for them; \<open>poll_server\<close> terminates because each turn moves the
  clock by half a second at least; the bootstrap loop ends when its calls return and a turn takes time (a positive poll
  interval, or a probe that takes a millisecond). No call to the host is bounded by the program:
  the ports of \<open>Lifecycle\<close> are functions, so their calls return, while in \<open>Lifecycle_System\<close> a
  call may stay open for any time (\<open>hung_call_outlives_deadline\<close>). The addition of a
  timeout to the clock panics on overflow; this is modelled in the helper, where the
  timeout is any \<open>u64\<close> of the environment, and left out in \<open>Lifecycle\<close>, whose deadlines are
  unbounded numbers.

  Not modelled. Libraries are parameters with their documented behaviour: JSON text and the
  deserialisers that serde derives (that they refuse unknown members is \<open>denies_unknown_fields\<close>,
  over the members that the request types have), the HTTP client and its 300 s timeout, axum's body limit
  and its answers to unknown routes, header values, tokio's semaphore, \<open>Notify\<close> and watch
  channel (inside the step relations), sockets, processes and the clock. \<open>Orchestrate\<close> runs
  one request at a time, from end to end: what other requests do meanwhile enters as
  parameters (\<open>surroundings\<close>, \<open>rc_meanwhile\<close>) and the scheduler's verdict as a call; the
  interleavings are the subject of \<open>Lifecycle_System\<close>, \<open>Scheduler\<close> and \<open>Request_System\<close>. The
  logging and its set-up in \<open>main.rs\<close>, \<open>lib.rs\<close> (which only declares the modules) and the
  deployment files are left out.
\<close>

section \<open>The helper behind the proxy\<close>

text \<open>
  The helper's program and the proxy's observation, put together: \<open>ssh\<close> succeeds only if a
  run of the helper's \<open>ensure-started\<close> on the host exited with 0, and then its standard output
  is the line with the JSON that run printed. (How the remote shell splits the command line is
  outside both programs.) The JSON text is that of \<open>serde_json\<close>, whose reader gives back a
  response that its printer printed.
\<close>

definition helper_behind_ssh ::
  "'e run_command \<Rightarrow> (json \<Rightarrow> (string, string) res) \<Rightarrow> ssh_helper_rpc \<Rightarrow> (string \<Rightarrow> (string, json) res)
   \<Rightarrow> 'h run_command \<Rightarrow> bool" where
  "helper_behind_ssh run print rpc parse host_run = (\<forall>e outp d e'.
     run ''ssh'' (ssh_args rpc (ensure_command rpc)) e = (Ok outp, d, e') \<and> cmd_success outp \<longrightarrow>
     (\<exists>vars hw hr hw' out line.
        helper_main parse host_run
          [rpc_helper_path rpc, ''ensure-started'', as_str (rpc_target rpc), rpc_model_alias rpc] vars hw = (hr, hw')
        \<and> hr_exit hr = 0 \<and> hr_stdout hr = Some out
        \<and> print (print_json out) = Ok line \<and> cmd_stdout outp = line @ [CHR 0x0A]))"

definition reads_printed :: "helper_json \<Rightarrow> (json \<Rightarrow> (string, string) res) \<Rightarrow> bool" where
  "reads_printed js print = (\<forall>er line. print (ensure_started_json er) = Ok line
     \<longrightarrow> read_ensure js (line @ [CHR 0x0A]) = Ok er)"

lemma ensure_started_prints:
  assumes "helper_main parse run [path, ''ensure-started'', t, al] vars hw = (hr, hw')" "hr_stdout hr = Some out"
  shows "\<exists>er. out = OEnsure er"
  using assms
  by (auto simp: helper_main_def run_ensure_started_def Let_def answered_def refused_def panicked_def arg_get_def
      split: prod.splits option.splits sum.splits if_splits)

lemma exit_zero_verified:
  assumes "helper_main parse host_run args vars hw = (hr, hw')" "hr_exit hr = 0" "hr_stdout hr = Some (OEnsure er)"
  shows "er_status er = HsOk \<and> er_model_verified er"
proof -
  have ok: "er_status er = HsOk"
    using assms run_lease_exit run_ensure_started_exit
    by (fastforce simp: helper_main_def Let_def answered_def refused_def output_ok_def
        split: prod.splits if_splits)
  have "\<exists>t al path w w'. ensure_started parse (helper_new host_run (helper_config_from_env vars)) t al path w
      = Some (er, w')"
    using assms
    by (auto simp: helper_main_def run_ensure_started_def run_lease_def Let_def answered_def refused_def
        panicked_def split: prod.splits option.splits sum.splits if_splits) blast
  with ok ensure_started_verified show ?thesis by blast
qed

lemma observe_Inr_ensure:
  assumes "rpc_observe_backend run js rpc request w = (Inr o', w')"
  shows "\<exists>line er w1. call (run_helper_cmd run rpc (ensure_command rpc)) w = (Inr line, w1)
    \<and> read_ensure js line = Inr er \<and> ob_lifecycle o' = ob_lifecycle (observed_of_ensure er)
    \<and> ob_error o' = ob_error (observed_of_ensure er)"
proof -
  obtain r w1 where ens: "call (rpc_ensure_started run js rpc) w = (r, w1)"
    by (cases "call (rpc_ensure_started run js rpc) w")
  from assms ens obtain st where st: "r = Inr st"
    by (cases r) (auto simp: rpc_observe_backend_def)
  with ens obtain line er w2 where l: "call (run_helper_cmd run rpc (ensure_command rpc)) w = (Inr line, w2)"
      "read_ensure js line = Inr er" "st = observed_of_ensure er"
    by (auto simp: call_def rpc_ensure_started_def split: prod.splits sum.splits)
  from rpc_observe_backend_Inr [of run js rpc w st w1 request] ens st assms
  have "ob_lifecycle o' = ob_lifecycle st \<and> ob_error o' = ob_error st" by auto
  with l show ?thesis by blast
qed

text \<open>
  C25: With the real helper behind \<open>ssh\<close> an observation is ready or an error, nothing else. The
  helper exits with failure on a mismatch and on an error, so the proxy never reads a response
  that says so: the branches of \<open>host.rs\<close> that turn such a response into a warming or failed
  observation with the helper's message are not reached.
\<close>

theorem observation_is_ready_or_error:
  assumes "helper_behind_ssh run print rpc parse host_run" "reads_printed js print"
  shows "case rpc_observe_backend run js rpc request w of
      (Inl _, w') \<Rightarrow> True
    | (Inr o', w') \<Rightarrow> ob_lifecycle o' = LsReady \<and> ob_error o' = None"
proof (cases "rpc_observe_backend run js rpc request w")
  case (Pair r w')
  show ?thesis
  proof (cases r)
    case (Inl e)
    with Pair show ?thesis by simp
  next
    case (Inr o')
    with Pair have "rpc_observe_backend run js rpc request w = (Inr o', w')" by simp
    from observe_Inr_ensure [OF this] obtain line er w1
      where l: "call (run_helper_cmd run rpc (ensure_command rpc)) w = (Inr line, w1)"
        "read_ensure js line = Inr er" "ob_lifecycle o' = ob_lifecycle (observed_of_ensure er)"
        "ob_error o' = ob_error (observed_of_ensure er)" by blast
    from l(1) obtain d e' where "run_helper_cmd run rpc (ensure_command rpc) (env w) = (Inr line, d, e')"
      by (auto simp: call_def split: prod.splits)
    from run_helper_cmd_Ok [OF this] obtain outp
      where "run ''ssh'' (ssh_args rpc (ensure_command rpc)) (env w) = (Inr outp, d, e')" "cmd_success outp"
        "cmd_stdout outp = line" by blast
    with assms(1) obtain args vars hw hr hw' out printed where
      h: "helper_main parse host_run [rpc_helper_path rpc, ''ensure-started'', as_str (rpc_target rpc),
          rpc_model_alias rpc] vars hw = (hr, hw')" "hr_exit hr = 0" "hr_stdout hr = Some out"
        "print (print_json out) = Ok printed" "line = printed @ [CHR 0x0A]"
      unfolding helper_behind_ssh_def by metis
    from ensure_started_prints [OF h(1,3)] obtain er' where out: "out = OEnsure er'" by blast
    with h(4,5) assms(2) have "read_ensure js line = Ok er'" by (simp add: reads_printed_def print_json_def)
    with l(2) out h(3) have "hr_stdout hr = Some (OEnsure er)" by simp
    with exit_zero_verified [OF h(1,2)] have "er_status er = HsOk \<and> er_model_verified er" by blast
    with l(3,4) Pair Inr show ?thesis by (simp add: observed_of_ensure_def ensure_lifecycle_def)
  qed
qed

definition host_programs :: "unit run_command" where
  "host_programs prog args e = (Ok \<lparr>cmd_success = True, cmd_stdout = ''m'', cmd_stderr = []\<rparr>, 1, e)"

definition example_rpc :: ssh_helper_rpc where
  "example_rpc = \<lparr>rpc_ssh_user = ''u'', rpc_ssh_host = ''h'', rpc_helper_path = ''/helper'', rpc_model_path = ''m'',
     rpc_model_alias = ''alias'', rpc_ssh_key_path = ''/key'', rpc_target = TChat\<rparr>"

definition example_answer :: ensure_started_response where
  "example_answer = \<lparr>er_status = HsOk, er_message = ''model is already running and ready'',
     er_model_alias = ''alias'', er_model_path = ''m'', er_startup_triggered = False, er_server_ready = True,
     er_model_verified = True, er_llama_server = Some \<lparr>ui_unit_name = ''llama-server'',
       ui_active_state = ''unknown'', ui_sub_state = ''unknown'', ui_description = []\<rparr>\<rparr>"

definition example_json :: helper_json where
  "example_json = \<lparr>read_ensure = (\<lambda>s. Ok example_answer), read_status = (\<lambda>s. Err ''eof'')\<rparr>"

definition example_print :: "json \<Rightarrow> (string, string) res" where
  "example_print v = (if v = ensure_started_json example_answer then Ok ''{}'' else Err ''no'')"

definition ssh_program :: "unit run_command" where
  "ssh_program prog args e = (Ok \<lparr>cmd_success = True, cmd_stdout = ''{}'' @ [CHR 0x0A], cmd_stderr = []\<rparr>, 1, e)"

lemma example_helper_main:
  "helper_main example_parse host_programs [''/helper'', ''ensure-started'', ''chat'', ''alias'']
      [''EXPECTED_MODEL_PATH'' \<mapsto> ''m''] \<lparr>clock = 0, env = ()\<rparr>
   = (\<lparr>hr_stdout = Some (OEnsure example_answer), hr_stderr = [], hr_exit = 0\<rparr>, \<lparr>clock = 4, env = ()\<rparr>)"
proof -
  have utf8: "from_utf8 ''m'' = Inr ''m''" by code_simp
  have props: "parse_systemctl_output ''m'' = Ok Map.empty"
    by (simp add: parse_systemctl_output_def utf8 rust_lines_def Let_def insert_property_def split_once_def)
  show ?thesis
    by (simp add: helper_main_def run_ensure_started_def ensure_exit_def answered_def helper_new_def
        helper_config_from_env_def real_systemd_def real_is_active_def real_show_unit_def curl_http_def
        on_output_def host_programs_def arg_get_def from_str_def example_answer_def props utf8
        ensure_started_eval)
qed

lemma example_behind_ssh: "helper_behind_ssh ssh_program example_print example_rpc example_parse host_programs"
  unfolding helper_behind_ssh_def
proof (intro allI impI, elim conjE)
  fix e outp d e'
  assume "ssh_program ''ssh'' (ssh_args example_rpc (ensure_command example_rpc)) e = (Ok outp, d, e')"
  then have out: "cmd_stdout outp = ''{}'' @ [CHR 0x0A]" by (auto simp: ssh_program_def)
  have args: "[rpc_helper_path example_rpc, ''ensure-started'', as_str (rpc_target example_rpc), rpc_model_alias example_rpc]
      = [''/helper'', ''ensure-started'', ''chat'', ''alias'']"
    by (simp add: example_rpc_def as_str_def)
  have print: "example_print (print_json (OEnsure example_answer)) = Ok ''{}''"
    by (simp add: example_print_def print_json_def)
  show "\<exists>vars hw hr hw' out line.
      helper_main example_parse host_programs [rpc_helper_path example_rpc, ''ensure-started'',
        as_str (rpc_target example_rpc), rpc_model_alias example_rpc] vars hw = (hr, hw')
      \<and> hr_exit hr = 0 \<and> hr_stdout hr = Some out
      \<and> example_print (print_json out) = Ok line \<and> cmd_stdout outp = line @ [CHR 0x0A]"
    unfolding args
    using example_helper_main print out by (intro exI conjI) (assumption | simp)+
qed

lemma example_reads: "reads_printed example_json example_print"
  by (simp add: reads_printed_def example_print_def example_json_def ensure_started_json_inj)

theorem observation_is_ready_or_error_witness:
  "case rpc_observe_backend ssh_program example_json example_rpc Chat \<lparr>clock = 0, env = ()\<rparr> of
      (Inl _, w') \<Rightarrow> True
    | (Inr o', w') \<Rightarrow> ob_lifecycle o' = LsReady \<and> ob_error o' = None"
  by (rule observation_is_ready_or_error [OF example_behind_ssh example_reads])

section \<open>Configuration and requests\<close>

text \<open>
  A model that is advertised is not rejected as such. For every configuration read from
  the environment that has an embeddings backend, an embeddings request for the advertised
  alias with an input is forwarded, whatever \<open>EMBEDDINGS_ENABLED\<close> says.
\<close>

theorem advertised_embeddings_are_forwarded:
  assumes "from_env e = Ok (as_config st)"
    and "ec_backend (ac_embeddings (as_config st)) = Some backend"
    and "rd_embeddings rd body = Ok payload"
    and "em_model payload = eb_alias backend" "em_input payload \<noteq> JNull"
  shows "eb_alias backend \<in> listed_ids (list_models (as_config st))
    \<and> embeddings L rd ctx body st = execute L ctx Embeddings body False (update_metrics inc_embeddings_requests st)"
proof -
  have "ec_enabled (ac_embeddings (as_config st))"
    using from_env_backend_enabled [OF assms(1)] assms(2) by simp
  moreover have "model_alias_for (as_config st) Embeddings = eb_alias backend"
    using assms(2) by (simp add: model_alias_for_def)
  moreover have "eb_alias backend \<in> listed_ids (list_models (as_config st))"
    using assms(2)
    by (auto simp: listed_ids_def list_models_def json_response_def Let_def model_json_def json_get_def
        json_as_array_def json_as_str_def)
  moreover have "as_config (update_metrics f st) = as_config st" for f by (simp add: update_metrics_def)
  ultimately show ?thesis
    using assms by (simp add: embeddings_def Let_def json_is_null_def)
qed

definition example_environment :: environment where
  "example_environment = [''SSH_HOST'' \<mapsto> ''h'', ''SSH_USER'' \<mapsto> ''u'', ''WOL_MAC_ADDRESS'' \<mapsto> ''AA:BB:CC:DD:EE:FF'',
     ''MODEL_PATH'' \<mapsto> ''/m.gguf'', ''EMBEDDINGS_MODEL_PATH'' \<mapsto> ''/e.gguf'', ''EMBEDDINGS_MODEL_ALIAS'' \<mapsto> ''emb'',
     ''EMBEDDINGS_ENABLED'' \<mapsto> ''no'']"

definition embeddings_readers :: readers where
  "embeddings_readers = \<lparr>rd_chat = (\<lambda>b. Err ''no''),
     rd_embeddings = (\<lambda>b. Ok \<lparr>em_model = ''emb'', em_input = JString ''text''\<rparr>)\<rparr>"

theorem advertised_embeddings_are_forwarded_witness:
  "\<exists>c. from_env example_environment = Ok c \<and> (let st = (example_state example_ready 0 0)\<lparr>as_config := c\<rparr> in
     embeddings (example_libs 200) embeddings_readers example_context [] st
     = execute (example_libs 200) example_context Embeddings [] False (update_metrics inc_embeddings_requests st))"
proof -
  have "case from_env example_environment of Inl _ \<Rightarrow> False
    | Inr c \<Rightarrow> map_option eb_alias (ec_backend (ac_embeddings c)) = Some ''emb''"
    by code_simp
  then obtain c b where c: "from_env example_environment = Inr c" "ec_backend (ac_embeddings c) = Some b"
      "eb_alias b = ''emb''"
    by (auto split: sum.splits)
  let ?st = "(example_state example_ready 0 0)\<lparr>as_config := c\<rparr>"
  let ?p = "\<lparr>em_model = ''emb'', em_input = JString ''text''\<rparr>"
  have 1: "from_env example_environment = Inr (as_config ?st)" using c(1) by simp
  have 2: "ec_backend (ac_embeddings (as_config ?st)) = Some b" using c(2) by simp
  have 3: "rd_embeddings embeddings_readers [] = Inr ?p" by (simp add: embeddings_readers_def)
  have 4: "em_model ?p = eb_alias b" "em_input ?p \<noteq> JNull" using c(3) by simp_all
  from advertised_embeddings_are_forwarded [OF 1 2 3 4, of "example_libs 200" example_context] c(1)
  show ?thesis by (simp add: Let_def)
qed

end
